(* ===== verification/JS_Prelude.thy ===== *)
theory JS_Prelude
  imports Complex_Main "HOL-Library.Word" "HOL-Library.AList"
begin

text \<open>
  What the TypeScript sources use of the language and its standard library, shared by every
  component: strings as sequences of UTF-16 code units, the string methods \<open>trim\<close>,
  \<open>toLowerCase\<close>, \<open>startsWith\<close>, \<open>endsWith\<close> and \<open>includes\<close>, insertion-ordered \<open>Map\<close>
  and \<open>Set\<close> objects, the values an \<open>unknown\<close> can hold, and errors as sums.
  The interface of \<open>Map\<close> is the locale \<open>js_map\<close>, that of \<open>Set\<close> is \<open>js_set\<close>; both are
  interpreted here on the executable list representations the components use.
\<close>

named_theorems js_simps \<open>equations that evaluate the JavaScript library operations\<close>
named_theorems inv_intros \<open>preservation lemmas of the component invariants\<close>

section \<open>Strings\<close>

type_synonym code_unit = "16 word"
type_synonym jstr = "code_unit list"

text \<open>\<open>str\<close> embeds an ASCII literal; \<open>cu\<close> a single ASCII character.\<close>

definition cu :: "char \<Rightarrow> code_unit" where
  "cu c = of_nat (of_char c)"

definition str :: "string \<Rightarrow> jstr" where
  "str s = map cu s"

text \<open>The white space and line terminators that \<open>String.prototype.trim\<close> and the
  regular-expression class \<open>\s\<close> recognise.\<close>

definition js_space :: "code_unit \<Rightarrow> bool" where
  "js_space c \<longleftrightarrow>
     c \<in> {9, 10, 11, 12, 13, 32, 0xA0, 0x1680, 0x2028, 0x2029, 0x202F, 0x205F, 0x3000, 0xFEFF}
     \<or> 0x2000 \<le> c \<and> c \<le> 0x200A"

definition trim_left :: "jstr \<Rightarrow> jstr" where
  "trim_left s = dropWhile js_space s"

definition trim :: "jstr \<Rightarrow> jstr" where
  "trim s = rev (dropWhile js_space (rev (dropWhile js_space s)))"

text \<open>\<open>toLowerCase\<close> on the ASCII and Latin-1 letters and on the Kelvin sign, the only code
  unit above U+00FF whose lower case is ASCII; all other units are kept. The sources compare
  lower-cased text with ASCII constants only, for which this is exact.\<close>

definition lower_unit :: "code_unit \<Rightarrow> code_unit" where
  "lower_unit c =
     (if 65 \<le> c \<and> c \<le> 90 \<or> 0xC0 \<le> c \<and> c \<le> 0xDE \<and> c \<noteq> 0xD7 then c + 32
      else if c = 0x212A then 107 else c)"

definition to_lower :: "jstr \<Rightarrow> jstr" where
  "to_lower s = map lower_unit s"

definition starts_with :: "jstr \<Rightarrow> jstr \<Rightarrow> bool" where
  "starts_with s p \<longleftrightarrow> take (length p) s = p"

definition ends_with :: "jstr \<Rightarrow> jstr \<Rightarrow> bool" where
  "ends_with s p \<longleftrightarrow> length p \<le> length s \<and> drop (length s - length p) s = p"

fun has_substring :: "jstr \<Rightarrow> jstr \<Rightarrow> bool" where
  "has_substring [] p \<longleftrightarrow> p = []"
| "has_substring (c # cs) p \<longleftrightarrow> starts_with (c # cs) p \<or> has_substring cs p"

text \<open>\<open>Buffer.byteLength(s, 'utf8')\<close>: a surrogate pair takes four bytes, a lone surrogate is
  replaced by a three-byte character.\<close>

fun utf8_length :: "jstr \<Rightarrow> nat" where
  "utf8_length [] = 0"
| "utf8_length [c] = (if c < 0x80 then 1 else if c < 0x800 then 2 else 3)"
| "utf8_length (c # d # cs) =
     (if c < 0x80 then 1 + utf8_length (d # cs)
      else if c < 0x800 then 2 + utf8_length (d # cs)
      else if 0xD800 \<le> c \<and> c < 0xDC00 \<and> 0xDC00 \<le> d \<and> d < 0xE000 then 4 + utf8_length cs
      else 3 + utf8_length (d # cs))"

fun join :: "jstr \<Rightarrow> jstr list \<Rightarrow> jstr" where
  "join sep [] = []"
| "join sep [s] = s"
| "join sep (s # ss) = s @ sep @ join sep ss"

lemma str_inject [simp]: "str s = str t \<longleftrightarrow> s = t"
proof -
  have inj: "inj cu"
  proof (rule injI)
    fix a b assume "cu a = cu b"
    then have "unat (of_nat (of_char a) :: code_unit) = unat (of_nat (of_char b) :: code_unit)"
      by (simp add: cu_def)
    moreover have "(of_char c :: nat) < 2 ^ 16" for c
      by (rule less_trans [OF nat_of_char_less_256]) simp
    ultimately have "(of_char a :: nat) = of_char b"
      by (simp add: unat_of_nat)
    then show "a = b" by (simp only: of_char_eq_iff)
  qed
  then show ?thesis by (simp add: str_def inj_map_eq_map)
qed

lemma str_append [simp]: "str (s @ t) = str s @ str t"
  by (simp add: str_def)

lemma str_Nil [simp]: "str [] = []"
  by (simp add: str_def)

lemma str_eq_Nil [simp]: "str s = [] \<longleftrightarrow> s = []"
  by (simp add: str_def)

lemma length_str [simp]: "length (str s) = length s"
  by (simp add: str_def)

lemma starts_with_append [simp]: "starts_with (p @ s) p"
  by (simp add: starts_with_def)

lemma starts_with_split: "starts_with s p \<longleftrightarrow> (\<exists>t. s = p @ t)"
  unfolding starts_with_def by (metis append_eq_conv_conj append_take_drop_id)

text \<open>\<open>trim s\<close> is empty exactly when every code unit is white space; otherwise it starts and
  ends with a unit that is not.\<close>

lemma trim_eq_Nil: "trim s = [] \<longleftrightarrow> list_all js_space s"
proof -
  have "trim s = [] \<longleftrightarrow> (\<forall>c \<in> set (dropWhile js_space s). js_space c)"
    by (simp add: trim_def)
  also have "\<dots> \<longleftrightarrow> list_all js_space s"
    by (induction s) (auto simp: list_all_iff)
  finally show ?thesis .
qed

lemma hd_trim: "trim s \<noteq> [] \<Longrightarrow> \<not> js_space (hd (trim s))"
proof -
  assume ne: "trim s \<noteq> []"
  let ?d = "dropWhile js_space s"
  have d: "?d \<noteq> []" using ne unfolding trim_def by (metis dropWhile.simps(1) rev.simps(1))
  then have nh: "\<not> js_space (hd ?d)" by (rule hd_dropWhile)
  have "rev ?d = takeWhile js_space (rev ?d) @ dropWhile js_space (rev ?d)" by simp
  then have "?d = rev (dropWhile js_space (rev ?d)) @ rev (takeWhile js_space (rev ?d))"
    by (metis rev_append rev_rev_ident)
  then have "hd ?d = hd (trim s)" using ne unfolding trim_def by (metis hd_append2)
  with nh show ?thesis by simp
qed

lemma last_trim: "trim s \<noteq> [] \<Longrightarrow> \<not> js_space (last (trim s))"
  unfolding trim_def by (metis hd_dropWhile last_rev rev_is_Nil_conv)

lemma trim_id: "s \<noteq> [] \<Longrightarrow> \<not> js_space (hd s) \<Longrightarrow> \<not> js_space (last s) \<Longrightarrow> trim s = s"
proof -
  assume "s \<noteq> []" and h: "\<not> js_space (hd s)" and l: "\<not> js_space (last s)"
  then have d: "dropWhile js_space s = s" by (cases s) auto
  have "dropWhile js_space (rev s) = rev s"
    using l \<open>s \<noteq> []\<close> by (cases "rev s") (auto simp: hd_rev [symmetric])
  with d show ?thesis by (simp add: trim_def)
qed

lemma trim_idem [simp]: "trim (trim s) = trim s"
proof (cases "trim s = []")
  case False
  then show ?thesis by (intro trim_id hd_trim last_trim)
next
  case True
  then have "trim (trim s) = trim []" by simp
  also have "\<dots> = []" by (simp add: trim_def)
  finally show ?thesis using True by simp
qed

section \<open>Insertion-ordered maps and sets\<close>

text \<open>A \<open>Map\<close> is its entry list in insertion order: \<open>set\<close> overwrites in place or appends
  (\<open>AList.update\<close>), \<open>delete\<close> removes (\<open>AList.delete\<close>). A \<open>Set\<close> is its member list.\<close>

type_synonym ('k, 'v) jsmap = "('k \<times> 'v) list"

definition map_get :: "('k, 'v) jsmap \<Rightarrow> 'k \<Rightarrow> 'v option" where
  "map_get m k = map_of m k"

definition map_set :: "'k \<Rightarrow> 'v \<Rightarrow> ('k, 'v) jsmap \<Rightarrow> ('k, 'v) jsmap" where
  "map_set k v m = AList.update k v m"

definition map_delete :: "'k \<Rightarrow> ('k, 'v) jsmap \<Rightarrow> ('k, 'v) jsmap" where
  "map_delete k m = AList.delete k m"

definition map_ok :: "('k, 'v) jsmap \<Rightarrow> bool" where
  "map_ok m \<longleftrightarrow> distinct (map fst m)"

definition set_add :: "'a \<Rightarrow> 'a list \<Rightarrow> 'a list" where
  "set_add x xs = (if x \<in> set xs then xs else xs @ [x])"

definition set_remove :: "'a \<Rightarrow> 'a list \<Rightarrow> 'a list" where
  "set_remove x xs = filter (\<lambda>y. y \<noteq> x) xs"

locale js_map =
  fixes new :: 'm
    and get :: "'m \<Rightarrow> 'k \<Rightarrow> 'v option"
    and upd :: "'k \<Rightarrow> 'v \<Rightarrow> 'm \<Rightarrow> 'm"
    and del :: "'k \<Rightarrow> 'm \<Rightarrow> 'm"
    and size_of :: "'m \<Rightarrow> nat"
    and ok :: "'m \<Rightarrow> bool"
  assumes ok_new: "ok new"
    and ok_upd: "ok m \<Longrightarrow> ok (upd k v m)"
    and ok_del: "ok m \<Longrightarrow> ok (del k m)"
    and get_new: "get new k = None"
    and get_upd: "get (upd k v m) k' = (if k' = k then Some v else get m k')"
    and get_del: "get (del k m) k' = (if k' = k then None else get m k')"
    and finite_get: "finite (dom (get m))"
    and size_get: "ok m \<Longrightarrow> size_of m = card (dom (get m))"
begin

lemma dom_upd: "dom (get (upd k v m)) = insert k (dom (get m))"
  by (auto simp: dom_def get_upd)

lemma dom_del: "dom (get (del k m)) = dom (get m) - {k}"
  by (auto simp: dom_def get_del)

lemma size_upd_new: "ok m \<Longrightarrow> get m k = None \<Longrightarrow> size_of (upd k v m) = Suc (size_of m)"
  by (subst (1 2) size_get) (auto simp: ok_upd dom_upd finite_get card_insert_if)

lemma size_del:
  "ok m \<Longrightarrow> get m k = Some v \<Longrightarrow> Suc (size_of (del k m)) = size_of m"
proof -
  assume "ok m" and "get m k = Some v"
  then have "k \<in> dom (get m)" by (simp add: domI)
  then have "Suc (card (dom (get m) - {k})) = card (dom (get m))"
    using finite_get by (rule card_Suc_Diff1 [rotated])
  with \<open>ok m\<close> show ?thesis by (simp add: size_get ok_del dom_del)
qed

lemma get_del_upd: "get m k = None \<Longrightarrow> get (del k (upd k v m)) = get m"
  by (rule ext) (simp add: get_upd get_del)

end

interpretation jsm: js_map "[]" map_get map_set map_delete length map_ok
proof
  show "map_ok m \<Longrightarrow> length m = card (dom (map_get m))" for m :: "('k, 'v) jsmap"
    using distinct_card [of "map fst m"]
    by (simp add: map_ok_def map_get_def [abs_def] dom_map_of_conv_image_fst)
qed (auto simp: map_ok_def map_get_def [abs_def] map_set_def map_delete_def distinct_update
    distinct_delete update_conv delete_conv finite_dom_map_of)

lemmas jsm_laws [js_simps] =
  jsm.ok_new jsm.ok_upd jsm.ok_del jsm.get_new jsm.get_upd jsm.get_del

locale js_set =
  fixes new :: 's
    and add :: "'a \<Rightarrow> 's \<Rightarrow> 's"
    and remove :: "'a \<Rightarrow> 's \<Rightarrow> 's"
    and members :: "'s \<Rightarrow> 'a set"
    and size_of :: "'s \<Rightarrow> nat"
    and ok :: "'s \<Rightarrow> bool"
  assumes ok_new: "ok new"
    and ok_add: "ok s \<Longrightarrow> ok (add x s)"
    and ok_remove: "ok s \<Longrightarrow> ok (remove x s)"
    and members_new: "members new = {}"
    and members_add: "members (add x s) = insert x (members s)"
    and members_remove: "members (remove x s) = members s - {x}"
    and finite_members: "finite (members s)"
    and size_members: "ok s \<Longrightarrow> size_of s = card (members s)"
begin

lemma size_zero_iff: "ok s \<Longrightarrow> size_of s = 0 \<longleftrightarrow> members s = {}"
  by (simp add: size_members finite_members)

lemma remove_add: "x \<notin> members s \<Longrightarrow> members (remove x (add x s)) = members s"
  by (simp add: members_add members_remove)

end

interpretation jss: js_set "[]" set_add set_remove set length distinct
  by unfold_locales (auto simp: set_add_def set_remove_def distinct_card)

lemmas jss_laws [js_simps] =
  jss.ok_new jss.ok_add jss.ok_remove jss.members_new jss.members_add jss.members_remove

section \<open>Numbers and values\<close>

text \<open>A \<open>number\<close>: the finite doubles by their exact rational value (the two zeros are
  identified) and the three special values.\<close>

datatype number = NaN | Infinity | NegInfinity | Fin rat

text \<open>
  What an \<open>unknown\<close> can hold. \<open>Arr\<close> and \<open>Obj\<close> are arrays and plain objects with their own
  enumerable properties in property order, \<open>Err\<close> an instance of \<open>Error\<close> with its message and
  its further own properties (\<open>code\<close>, \<open>name\<close>), \<open>Func\<close> a function or symbol, \<open>BigInt\<close> a
  big integer. Cyclic objects and \<open>toJSON\<close> methods have no counterpart here.
\<close>

datatype jsval =
    Undefined
  | Null
  | Bool bool
  | Num number
  | Str jstr
  | Arr "jsval list"
  | Obj "(jstr \<times> jsval) list"
  | Err jstr "(jstr \<times> jsval) list"
  | Func
  | BigInt int

text \<open>\<open>typeof v === 'object' && v !== null\<close>.\<close>

fun is_object :: "jsval \<Rightarrow> bool" where
  "is_object (Arr _) = True"
| "is_object (Obj _) = True"
| "is_object (Err _ _) = True"
| "is_object _ = False"

text \<open>Reading a property other than an array index or \<open>length\<close>; a missing one is
  \<open>undefined\<close>. An \<open>Error\<close> inherits \<open>name\<close> and holds \<open>message\<close>.\<close>

definition or_undefined :: "jsval option \<Rightarrow> jsval" where
  "or_undefined r = (case r of None \<Rightarrow> Undefined | Some v \<Rightarrow> v)"

fun get_prop :: "jsval \<Rightarrow> jstr \<Rightarrow> jsval" where
  "get_prop (Obj ps) k = or_undefined (map_of ps k)"
| "get_prop (Err m ps) k =
     (case map_of ps k of Some v \<Rightarrow> v
      | None \<Rightarrow> if k = str ''message'' then Str m
                else if k = str ''name'' then Str (str ''Error'') else Undefined)"
| "get_prop _ k = Undefined"

text \<open>\<open>k in v\<close>, for a \<open>k\<close> that is no member of the built-in prototypes.\<close>

fun has_prop :: "jsval \<Rightarrow> jstr \<Rightarrow> bool" where
  "has_prop (Obj ps) k = (map_of ps k \<noteq> None)"
| "has_prop (Err m ps) k = (map_of ps k \<noteq> None \<or> k \<in> {str ''message'', str ''name''})"
| "has_prop _ k = False"

fun is_error :: "jsval \<Rightarrow> bool" where
  "is_error (Err _ _) = True"
| "is_error _ = False"

text \<open>\<open>err instanceof Error ? err.message : 'unknown error'\<close>, the idiom of every handler.\<close>

definition error_detail :: "jsval \<Rightarrow> jstr" where
  "error_detail e = (case e of Err m _ \<Rightarrow> m | _ \<Rightarrow> str ''unknown error'')"

text \<open>\<open>new Error(message)\<close>.\<close>

definition new_error :: "jstr \<Rightarrow> jsval" where
  "new_error m = Err m []"

text \<open>A computation that may throw: \<open>Inl\<close> the thrown value.\<close>

type_synonym 'a throws = "jsval + 'a"

end
