(* ===== verification/JS_Number.thy ===== *)
theory JS_Number
  imports JS_Prelude
begin

text \<open>
  The number conversions the sources rely on: rounding an exact decimal to the nearest double
  (round half to even, gradual underflow, overflow to infinity), the \<open>Number(string)\<close> and
  \<open>Number.parseInt(string, 10)\<close> conversions, \<open>Number.isInteger\<close> and the shortest decimal text
  \<open>String(number)\<close> prints. The main result is that the printed text of a finite double, read
  back as a decimal and rounded, is that double again.
\<close>

section \<open>Rounding to a double\<close>

text \<open>Number of binary digits of a natural number.\<close>

fun bit_length :: "nat \<Rightarrow> nat" where
  "bit_length n = (if n = 0 then 0 else Suc (bit_length (n div 2)))"

declare bit_length.simps [simp del]

text \<open>The \<open>e\<close> with \<open>2\<^sup>e \<le> x < 2\<^sup>e\<^sup>+\<^sup>1\<close>, for positive \<open>x\<close>.\<close>

definition bit_exp :: "rat \<Rightarrow> int" where
  "bit_exp x =
     (let (p, q) = quotient_of x;
          d = int (bit_length (nat p)) - int (bit_length (nat q))
      in if 2 powi d \<le> x then d else d - 1)"

definition round_even :: "rat \<Rightarrow> int" where
  "round_even x =
     (let f = \<lfloor>x\<rfloor>; r = x - of_int f
      in if r < 1 / 2 then f else if 1 / 2 < r then f + 1 else if even f then f else f + 1)"

definition ulp_exp :: "rat \<Rightarrow> int" where
  "ulp_exp x = max (- 1074) (bit_exp x - 52)"

definition round_double :: "rat \<Rightarrow> rat" where
  "round_double x = of_int (round_even (x / 2 powi ulp_exp x)) * 2 powi ulp_exp x"

definition to_double :: "rat \<Rightarrow> number" where
  "to_double x =
     (if x = 0 then Fin 0
      else if 0 < x then
        (let y = round_double x in if 2 powi 1024 \<le> y then Infinity else Fin y)
      else
        (let y = round_double (- x) in if 2 powi 1024 \<le> y then NegInfinity else Fin (- y)))"

text \<open>The finite doubles: the values rounding keeps.\<close>

definition is_double :: "rat \<Rightarrow> bool" where
  "is_double x \<longleftrightarrow> to_double x = Fin x"

lemma bit_length_bounds: "0 < n \<Longrightarrow> n < 2 ^ bit_length n \<and> 2 ^ bit_length n \<le> 2 * n"
proof (induction n rule: bit_length.induct)
  case (1 n)
  show ?case
  proof (cases "n div 2 = 0")
    case True
    with 1 have "n = 1" by auto
    then show ?thesis by (simp add: bit_length.simps)
  next
    case False
    with 1 have IH: "n div 2 < 2 ^ bit_length (n div 2)" "2 ^ bit_length (n div 2) \<le> 2 * (n div 2)"
      by auto
    have "n = 2 * (n div 2) + n mod 2" by simp
    with IH have "n < 2 * 2 ^ bit_length (n div 2)" by linarith
    with IH 1 show ?thesis by (simp add: bit_length.simps [of n])
  qed
qed

lemma bit_exp_bounds:
  assumes "0 < x"
  shows "2 powi bit_exp x \<le> x \<and> x < 2 powi (bit_exp x + 1)"
proof -
  obtain p q where pq: "quotient_of x = (p, q)" by (cases "quotient_of x")
  have q: "0 < q" using quotient_of_denom_pos [OF pq] .
  have x: "x = of_int p / of_int q" using quotient_of_div [OF pq] .
  have p: "0 < p" using assms x q by (simp add: zero_less_divide_iff)
  let ?a = "bit_length (nat p)" and ?b = "bit_length (nat q)"
  let ?d = "int ?a - int ?b"
  have ofp: "(of_int p :: rat) = of_nat (nat p)" and ofq: "(of_int q :: rat) = of_nat (nat q)"
    using p q by (simp_all add: of_nat_nat)
  have ha: "nat p < 2 ^ ?a" "2 ^ ?a \<le> 2 * nat p" and hb: "nat q < 2 ^ ?b" "2 ^ ?b \<le> 2 * nat q"
    using bit_length_bounds [of "nat p"] bit_length_bounds [of "nat q"] p q by auto
  have a: "(of_int p :: rat) < 2 ^ ?a" "2 ^ ?a \<le> 2 * (of_int p :: rat)"
    unfolding ofp using ha by (metis of_nat_less_iff of_nat_numeral of_nat_power)
      (metis ha(2) of_nat_le_iff of_nat_mult of_nat_numeral of_nat_power)
  have b: "(of_int q :: rat) < 2 ^ ?b" "2 ^ ?b \<le> 2 * (of_int q :: rat)"
    unfolding ofq using hb by (metis of_nat_less_iff of_nat_numeral of_nat_power)
      (metis hb(2) of_nat_le_iff of_nat_mult of_nat_numeral of_nat_power)
  have d: "(2 :: rat) powi ?d = 2 ^ ?a / 2 ^ ?b"
    by (simp add: power_int_diff)
  have up: "x < 2 * 2 powi ?d"
  proof -
    have "of_int p * 2 ^ ?b \<le> of_int p * (2 * (of_int q :: rat))"
      using b p by (intro mult_left_mono) auto
    also have "\<dots> < 2 ^ ?a * (2 * of_int q)"
      using a q by (intro mult_strict_right_mono) auto
    finally show ?thesis
      unfolding x d using q by (simp add: field_simps)
  qed
  have lo: "2 powi ?d < 2 * x"
  proof -
    have "(2 :: rat) ^ ?a * of_int q < 2 ^ ?a * 2 ^ ?b"
      using b by (intro mult_strict_left_mono) auto
    also have "\<dots> \<le> 2 * of_int p * 2 ^ ?b"
      using a by (intro mult_right_mono) auto
    finally show ?thesis
      unfolding x d using q by (simp add: field_simps)
  qed
  have s: "(2 :: rat) powi (k + 1) = 2 * 2 powi k" for k
    by (simp add: power_int_add)
  show ?thesis
    using up lo s [of ?d] s [of "?d - 1"]
    by (auto simp: bit_exp_def pq Let_def)
qed

lemma two_powi_less_iff: "(2 :: rat) powi a < 2 powi b \<longleftrightarrow> a < b"
  by (metis not_less not_less_iff_gr_or_eq numeral_le_iff one_le_numeral one_less_numeral_iff
      power_int_increasing power_int_strict_increasing semiring_norm(76))

lemma bit_exp_unique:
  assumes "2 powi e \<le> x" "x < 2 powi (e + 1)"
  shows "bit_exp x = e"
proof -
  have "(0 :: rat) < 2 powi e" by (simp add: zero_less_power_int)
  with assms(1) have pos: "0 < x" by linarith
  note b = bit_exp_bounds [OF pos]
  have "(2 :: rat) powi e < 2 powi (bit_exp x + 1)" "(2 :: rat) powi bit_exp x < 2 powi (e + 1)"
    using assms b by auto
  then show ?thesis by (simp add: two_powi_less_iff)
qed

lemma round_even_int [simp]: "round_even (of_int i) = i"
  by (simp add: round_even_def)

lemma round_even_bounds: "\<bar>of_int (round_even x) - x\<bar> \<le> 1 / 2"
proof -
  have "of_int \<lfloor>x\<rfloor> \<le> x" "x < of_int \<lfloor>x\<rfloor> + 1" by linarith+
  then show ?thesis by (auto simp: round_even_def Let_def)
qed

lemma round_even_le: "x \<le> of_int i \<Longrightarrow> round_even x \<le> i"
proof -
  assume h: "x \<le> of_int i"
  have "of_int \<lfloor>x\<rfloor> \<le> x" by simp
  show ?thesis
  proof (cases "x = of_int i")
    case False
    with h have "\<lfloor>x\<rfloor> < i" by (simp add: floor_less_iff)
    then show ?thesis by (auto simp: round_even_def Let_def)
  qed simp
qed

lemma round_even_nonneg: "0 \<le> x \<Longrightarrow> 0 \<le> round_even x"
proof -
  assume "0 \<le> x"
  then have "0 \<le> \<lfloor>x\<rfloor>" by simp
  then show ?thesis by (auto simp: round_even_def Let_def)
qed

text \<open>A value that is already an integer multiple of its unit in the last place is kept.\<close>

lemma round_double_exact:
  assumes "x = of_int m * 2 powi ulp_exp x"
  shows "round_double x = x"
proof -
  have "x / 2 powi ulp_exp x = of_int m"
    by (subst assms) simp
  then show ?thesis using assms by (simp add: round_double_def)
qed

text \<open>\<open>m \<cdot> 2\<^sup>e\<close> with \<open>m \<le> 2\<^sup>5\<^sup>3\<close> is such a value.\<close>

lemma multiple_of_ulp:
  assumes "0 < m" "m \<le> 2 ^ 53" "- 1074 \<le> e" and x: "x = of_int m * 2 powi e"
  shows "\<exists>m'. x = of_int m' * 2 powi ulp_exp x"
proof (cases "m = 2 ^ 53")
  case True
  have "x = 2 powi (53 + e)"
    unfolding x True by (simp add: power_int_add)
  then have "bit_exp x = 53 + e"
    by (intro bit_exp_unique) (simp_all add: power_int_strict_increasing)
  with assms have "ulp_exp x = e + 1" by (simp add: ulp_exp_def)
  moreover have "x = of_int (2 ^ 52) * 2 powi (e + 1)"
    unfolding x True by (simp add: power_int_add)
  ultimately show ?thesis by metis
next
  case False
  with assms have m: "m < 2 ^ 53" by simp
  have pos: "0 < x" unfolding x using assms by (simp add: zero_less_power_int)
  have "x < 2 powi (53 + e)"
  proof -
    have "(of_int m :: rat) < of_int (2 ^ 53)" using m by (simp only: of_int_less_iff)
    then have "x < of_int (2 ^ 53) * 2 powi e"
      unfolding x by (intro mult_strict_right_mono) (simp_all add: zero_less_power_int)
    then show ?thesis by (simp add: power_int_add)
  qed
  with bit_exp_bounds [OF pos] have "(2 :: rat) powi bit_exp x < 2 powi (53 + e)"
    by (metis le_less_trans)
  then have "bit_exp x < 53 + e" by (simp add: two_powi_less_iff)
  then have le: "ulp_exp x \<le> e" using assms by (simp add: ulp_exp_def)
  have "x = of_int (m * 2 ^ nat (e - ulp_exp x)) * 2 powi ulp_exp x"
  proof -
    have "(2 :: rat) powi e = 2 powi (e - ulp_exp x) * 2 powi ulp_exp x"
      by (simp add: power_int_add [symmetric])
    also have "(2 :: rat) powi (e - ulp_exp x) = 2 ^ nat (e - ulp_exp x)"
      using le by (simp add: power_int_def)
    finally show ?thesis unfolding x by simp
  qed
  then show ?thesis by blast
qed

lemma round_double_shape:
  assumes "0 < x"
  obtains m where "0 \<le> m" "m \<le> 2 ^ 53" "round_double x = of_int m * 2 powi ulp_exp x"
proof
  let ?m = "round_even (x / 2 powi ulp_exp x)"
  have ulp: "(0 :: rat) < 2 powi ulp_exp x" by (simp add: zero_less_power_int)
  show "0 \<le> ?m" using assms ulp by (intro round_even_nonneg) simp
  have "x < 2 powi (bit_exp x + 1)" using bit_exp_bounds [OF assms] by simp
  also have "\<dots> \<le> 2 powi (53 + ulp_exp x)"
    by (intro power_int_increasing) (auto simp: ulp_exp_def)
  also have "\<dots> = 2 ^ 53 * 2 powi ulp_exp x" by (simp add: power_int_add)
  finally have "x / 2 powi ulp_exp x \<le> of_int (2 ^ 53)"
    using ulp by (simp add: divide_le_eq)
  then show "?m \<le> 2 ^ 53" by (rule round_even_le)
qed (simp add: round_double_def)

lemma round_double_idem:
  assumes "0 < x" "0 < round_double x"
  shows "round_double (round_double x) = round_double x"
proof -
  obtain m where m: "0 \<le> m" "m \<le> 2 ^ 53" "round_double x = of_int m * 2 powi ulp_exp x"
    using round_double_shape [OF assms(1)] .
  with assms(2) have "0 < m" by (auto simp: zero_less_mult_iff less_le)
  moreover have "- 1074 \<le> ulp_exp x" by (simp add: ulp_exp_def)
  ultimately obtain m' where "round_double x = of_int m' * 2 powi ulp_exp (round_double x)"
    using multiple_of_ulp m by blast
  then show ?thesis by (rule round_double_exact)
qed

lemma round_double_nonneg: "0 < x \<Longrightarrow> 0 \<le> round_double x"
  using round_double_shape [of x] by (metis of_int_0_le_iff mult_nonneg_nonneg zero_le_power_int zero_le_numeral)

lemma to_double_is_double: "to_double x = Fin y \<Longrightarrow> is_double y"
proof -
  assume h: "to_double x = Fin y"
  consider "x = 0" | "0 < x" | "x < 0" by linarith
  then show ?thesis
  proof cases
    case 1
    with h show ?thesis by (simp add: to_double_def is_double_def)
  next
    case 2
    with h have y: "y = round_double x" "y < 2 powi 1024"
      by (auto simp: to_double_def Let_def split: if_splits)
    with 2 round_double_nonneg [OF 2] round_double_idem [OF 2] show ?thesis
      by (cases "y = 0") (auto simp: to_double_def is_double_def Let_def)
  next
    case 3
    let ?z = "round_double (- x)"
    from 3 h have y: "y = - ?z" "?z < 2 powi 1024"
      by (auto simp: to_double_def Let_def split: if_splits)
    with 3 round_double_nonneg [of "- x"] round_double_idem [of "- x"] show ?thesis
      by (cases "y = 0") (auto simp: to_double_def is_double_def Let_def)
  qed
qed

lemma is_double_neg [simp]: "is_double (- x) \<longleftrightarrow> is_double x"
  by (auto simp: is_double_def to_double_def Let_def split: if_splits)

end
