(* ===== verification/JS_Decimal.thy ===== *)
theory JS_Decimal
  imports JS_Number
begin

text \<open>
  Decimal text of numbers. Reading: the scanner of JSON numbers, \<open>Number(string)\<close> and
  \<open>Number.parseInt(string, 10)\<close>. Printing: \<open>String(number)\<close>, which chooses the shortest
  decimal that rounds to the number, in the five layouts of the language definition.
  \<open>scan_number_text\<close> says that the scanner reads a printed finite double back exactly.
\<close>

section \<open>Digits\<close>

definition is_digit :: "code_unit \<Rightarrow> bool" where
  "is_digit c \<longleftrightarrow> 48 \<le> c \<and> c \<le> 57"

definition digit_val :: "code_unit \<Rightarrow> nat" where
  "digit_val c = unat c - 48"

definition digit :: "nat \<Rightarrow> code_unit" where
  "digit d = of_nat (48 + d)"

fun digits_val :: "nat \<Rightarrow> jstr \<Rightarrow> nat" where
  "digits_val a [] = a"
| "digits_val a (c # cs) = digits_val (10 * a + digit_val c) cs"

fun dec_digits :: "nat \<Rightarrow> jstr" where
  "dec_digits n = (if n < 10 then [digit n] else dec_digits (n div 10) @ [digit (n mod 10)])"

declare dec_digits.simps [simp del]

text \<open>\<open>String(i)\<close> for an integer below \<open>10\<^sup>2\<^sup>1\<close> in size.\<close>

definition int_text :: "int \<Rightarrow> jstr" where
  "int_text i = (if i < 0 then cu CHR ''-'' # dec_digits (nat (- i)) else dec_digits (nat i))"

lemma less_10_cases: "(d :: nat) < 10 \<Longrightarrow> d \<in> {0, 1, 2, 3, 4, 5, 6, 7, 8, 9}"
  by auto

lemma digit_props [simp]:
  "d < 10 \<Longrightarrow> is_digit (digit d)"
  "d < 10 \<Longrightarrow> digit_val (digit d) = d"
  by (auto dest!: less_10_cases simp: digit_def is_digit_def digit_val_def)

lemma digit_eq_48 [simp]: "d < 10 \<Longrightarrow> digit d = 48 \<longleftrightarrow> d = 0"
  by (auto dest!: less_10_cases simp: digit_def)

lemma digits_val_acc: "digits_val a ds = a * 10 ^ length ds + digits_val 0 ds"
proof (induction ds arbitrary: a)
  case (Cons c cs)
  have "digits_val a (c # cs) = (10 * a + digit_val c) * 10 ^ length cs + digits_val 0 cs"
    using Cons.IH [of "10 * a + digit_val c"] by simp
  moreover have "digits_val 0 (c # cs) = digit_val c * 10 ^ length cs + digits_val 0 cs"
    using Cons.IH [of "digit_val c"] by simp
  ultimately show ?case by (simp add: algebra_simps)
qed simp

lemma digits_val_append: "digits_val a (ds @ es) = digits_val (digits_val a ds) es"
  by (induction ds arbitrary: a) auto

lemma digits_val_zeros [simp]: "digits_val a (replicate n (digit 0)) = a * 10 ^ n"
  by (induction n arbitrary: a) (auto simp: algebra_simps)

lemma dec_digits_val [simp]: "digits_val 0 (dec_digits n) = n"
proof (induction n rule: dec_digits.induct)
  case (1 n)
  then show ?case by (subst dec_digits.simps) (auto simp: digits_val_append)
qed

lemma dec_digits_digits: "list_all is_digit (dec_digits n)"
proof (induction n rule: dec_digits.induct)
  case (1 n)
  then show ?case by (subst dec_digits.simps) auto
qed

lemma dec_digits_ne [simp]: "dec_digits n \<noteq> []"
  by (subst dec_digits.simps) simp

lemma dec_digits_hd: "0 < n \<Longrightarrow> hd (dec_digits n) \<noteq> 48"
proof (induction n rule: dec_digits.induct)
  case (1 n)
  then show ?case
    by (cases "n < 10") (auto simp: dec_digits.simps [of n])
qed

lemma dec_digits_length: "10 ^ k \<le> n \<Longrightarrow> n < 10 ^ Suc k \<Longrightarrow> length (dec_digits n) = Suc k"
proof (induction k arbitrary: n)
  case 0
  then show ?case by (simp add: dec_digits.simps)
next
  case (Suc k)
  have "10 ^ k \<le> n div 10" "n div 10 < 10 ^ Suc k"
    using Suc.prems by (auto simp: less_eq_div_iff_mult_less_eq div_less_iff_less_mult algebra_simps)
  moreover have "\<not> n < 10"
  proof -
    have "(10 :: nat) \<le> 10 ^ Suc k" by simp
    with Suc.prems(1) show ?thesis by linarith
  qed
  ultimately show ?case using Suc.IH by (subst dec_digits.simps) simp
qed

section \<open>Reading\<close>

text \<open>An optional fraction \<open>.ddd\<close> and an optional exponent, as in JSON: each part that is
  opened must have a digit.\<close>

definition scan_frac :: "jstr \<Rightarrow> (jstr \<times> jstr) option" where
  "scan_frac s =
     (case s of
        [] \<Rightarrow> Some ([], [])
      | c # t \<Rightarrow>
          if c = cu CHR ''.'' then
            (let ds = takeWhile is_digit t in
             if ds = [] then None else Some (ds, dropWhile is_digit t))
          else Some ([], s))"

definition scan_sign :: "jstr \<Rightarrow> bool \<times> jstr" where
  "scan_sign s =
     (case s of
        [] \<Rightarrow> (False, [])
      | c # t \<Rightarrow> if c = cu CHR ''-'' then (True, t) else if c = cu CHR ''+'' then (False, t) else (False, s))"

definition scan_exp :: "jstr \<Rightarrow> (int \<times> jstr) option" where
  "scan_exp s =
     (case s of
        [] \<Rightarrow> Some (0, [])
      | c # t \<Rightarrow>
          if c = cu CHR ''e'' \<or> c = cu CHR ''E'' then
            (let (neg, u) = scan_sign t; ds = takeWhile is_digit u in
             if ds = [] then None
             else Some (if neg then - int (digits_val 0 ds) else int (digits_val 0 ds),
                        dropWhile is_digit u))
          else Some (0, s))"

definition dec_value :: "jstr \<Rightarrow> jstr \<Rightarrow> int \<Rightarrow> rat" where
  "dec_value ds fs e = of_nat (digits_val 0 (ds @ fs)) * 10 powi (e - int (length fs))"

text \<open>The integer part of a JSON number: a single \<open>0\<close>, or digits that do not start with one.\<close>

definition scan_int :: "jstr \<Rightarrow> (jstr \<times> jstr) option" where
  "scan_int s =
     (case s of
        [] \<Rightarrow> None
      | c # t \<Rightarrow>
          if c = 48 then Some ([c], t)
          else if is_digit c then Some (takeWhile is_digit s, dropWhile is_digit s)
          else None)"

definition scan_unsigned :: "jstr \<Rightarrow> (rat \<times> jstr) option" where
  "scan_unsigned s =
     (case scan_int s of None \<Rightarrow> None
      | Some (ds, s1) \<Rightarrow>
          (case scan_frac s1 of None \<Rightarrow> None
           | Some (fs, s2) \<Rightarrow>
               (case scan_exp s2 of None \<Rightarrow> None
                | Some (e, s3) \<Rightarrow> Some (dec_value ds fs e, s3))))"

definition scan_number :: "jstr \<Rightarrow> (rat \<times> jstr) option" where
  "scan_number s =
     (case s of
        c # t \<Rightarrow>
          if c = cu CHR ''-'' then map_option (\<lambda>(x, r). (- x, r)) (scan_unsigned t)
          else scan_unsigned s
      | [] \<Rightarrow> None)"

text \<open>\<open>Number(string)\<close>: white space trimmed, the empty text is 0, hexadecimal, octal and
  binary literals, signed decimals with optional integer or fraction digits, \<open>Infinity\<close>.\<close>

definition hex_val :: "code_unit \<Rightarrow> nat option" where
  "hex_val c =
     (if is_digit c then Some (digit_val c)
      else if 97 \<le> c \<and> c \<le> 102 then Some (unat c - 87)
      else if 65 \<le> c \<and> c \<le> 70 then Some (unat c - 55) else None)"

fun radix_val :: "nat \<Rightarrow> nat \<Rightarrow> jstr \<Rightarrow> nat option" where
  "radix_val b a [] = Some a"
| "radix_val b a (c # cs) =
     (case hex_val c of None \<Rightarrow> None
      | Some d \<Rightarrow> if d < b then radix_val b (b * a + d) cs else None)"

definition radix_literal :: "jstr \<Rightarrow> (nat \<times> jstr) option" where
  "radix_literal s =
     (case s of
        z # x # t \<Rightarrow>
          if z \<noteq> 48 \<or> t = [] then None
          else if x = cu CHR ''x'' \<or> x = cu CHR ''X'' then Some (16, t)
          else if x = cu CHR ''o'' \<or> x = cu CHR ''O'' then Some (8, t)
          else if x = cu CHR ''b'' \<or> x = cu CHR ''B'' then Some (2, t)
          else None
      | _ \<Rightarrow> None)"

definition decimal_literal :: "jstr \<Rightarrow> rat option" where
  "decimal_literal s =
     (let ds = takeWhile is_digit s; s1 = dropWhile is_digit s;
          (fs, s2) = (case s1 of
             c # t \<Rightarrow> if c = cu CHR ''.'' then (takeWhile is_digit t, dropWhile is_digit t) else ([], s1)
           | [] \<Rightarrow> ([], []))
      in if ds = [] \<and> fs = [] then None
         else (case scan_exp s2 of
                 Some (e, []) \<Rightarrow> Some (dec_value ds fs e)
               | _ \<Rightarrow> None))"

definition js_Number :: "jstr \<Rightarrow> number" where
  "js_Number raw =
     (let t = trim raw in
      if t = [] then Fin 0
      else case radix_literal t of
        Some (b, ds) \<Rightarrow>
          (case radix_val b 0 ds of None \<Rightarrow> NaN | Some n \<Rightarrow> to_double (of_nat n))
      | None \<Rightarrow>
          (let (neg, u) = scan_sign t in
           if u = str ''Infinity'' then (if neg then NegInfinity else Infinity)
           else case decimal_literal u of
             None \<Rightarrow> NaN
           | Some x \<Rightarrow> to_double (if neg then - x else x)))"

text \<open>\<open>Number.parseInt(raw, 10)\<close>: the longest digit prefix after white space and a sign.\<close>

definition js_parseInt :: "jstr \<Rightarrow> number" where
  "js_parseInt raw =
     (let (neg, u) = scan_sign (trim_left raw); ds = takeWhile is_digit u
      in if ds = [] then NaN
         else to_double (if neg then - of_nat (digits_val 0 ds) else of_nat (digits_val 0 ds)))"

definition is_integer :: "number \<Rightarrow> bool" where
  "is_integer x = (case x of Fin r \<Rightarrow> of_int \<lfloor>r\<rfloor> = r | _ \<Rightarrow> False)"

definition is_finite :: "number \<Rightarrow> bool" where
  "is_finite x = (case x of Fin _ \<Rightarrow> True | _ \<Rightarrow> False)"

text \<open>\<open><\<close> on numbers: false as soon as one side is \<open>NaN\<close>.\<close>

fun num_less :: "number \<Rightarrow> number \<Rightarrow> bool" where
  "num_less (Fin a) (Fin b) = (a < b)"
| "num_less NegInfinity (Fin _) = True"
| "num_less NegInfinity Infinity = True"
| "num_less (Fin _) Infinity = True"
| "num_less _ _ = False"

section \<open>Printing\<close>

text \<open>The \<open>n\<close> with \<open>10\<^sup>n\<^sup>-\<^sup>1 \<le> x < 10\<^sup>n\<close>, for positive \<open>x\<close>.\<close>

function lead_zeros :: "nat \<Rightarrow> nat \<Rightarrow> nat" where
  "lead_zeros p q = (if p = 0 \<or> q \<le> p then 0 else Suc (lead_zeros (10 * p) q))"
  by pat_completeness auto
termination
  by (relation "measure (\<lambda>(p, q). q - p)") auto

declare lead_zeros.simps [simp del]

definition dec_exp :: "rat \<Rightarrow> int" where
  "dec_exp x =
     (let (p, q) = quotient_of x in
      if 1 \<le> x then int (length (dec_digits (nat (p div q))))
      else 1 - int (lead_zeros (nat p) (nat q)))"

text \<open>
  The candidates with \<open>k\<close> digits: the two integers around \<open>x \<cdot> 10\<^sup>k\<^sup>-\<^sup>n\<close>, the nearer one first;
  \<open>10\<^sup>k\<close> is written with one digit fewer and the next exponent. A candidate is taken when it
  has \<open>k\<close> digits and rounds to \<open>x\<close>; the least such \<open>k\<close> wins.
\<close>

definition candidates :: "rat \<Rightarrow> nat \<Rightarrow> (int \<times> int) list" where
  "candidates x k =
     (let n = dec_exp x; y = x * 10 powi (int k - n); near = round_even y;
          other = (if near = \<lfloor>y\<rfloor> then near + 1 else \<lfloor>y\<rfloor>)
      in map (\<lambda>s. if s = 10 ^ k then (10 ^ (k - 1), n + 1) else (s, n)) [near, other])"

definition denotes :: "rat \<Rightarrow> nat \<Rightarrow> int \<times> int \<Rightarrow> bool" where
  "denotes x k = (\<lambda>(s, n). 1 \<le> k \<and> 10 ^ (k - 1) \<le> s \<and> s < 10 ^ k \<and>
     to_double (of_int s * 10 powi (n - int k)) = Fin x)"

fun shortest_from :: "nat \<Rightarrow> nat \<Rightarrow> rat \<Rightarrow> (nat \<times> int \<times> int) option" where
  "shortest_from 0 k x = None"
| "shortest_from (Suc fuel) k x =
     (case find (denotes x k) (candidates x k) of
        Some c \<Rightarrow> Some (k, c)
      | None \<Rightarrow> shortest_from fuel (Suc k) x)"

text \<open>Every double has an exact decimal with at most 1383 digits, so this fuel is enough.\<close>

definition shortest :: "rat \<Rightarrow> (nat \<times> int \<times> int) option" where
  "shortest x = shortest_from 1400 1 x"

definition exp_text :: "int \<Rightarrow> jstr" where
  "exp_text e = cu CHR ''e'' # (if e < 0 then cu CHR ''-'' else cu CHR ''+'') # dec_digits (nat \<bar>e\<bar>)"

definition layout :: "nat \<Rightarrow> int \<Rightarrow> int \<Rightarrow> jstr" where
  "layout k s n =
     (let ds = dec_digits (nat s) in
      if int k \<le> n \<and> n \<le> 21 then ds @ replicate (nat n - k) (digit 0)
      else if 0 < n \<and> n \<le> 21 then take (nat n) ds @ cu CHR ''.'' # drop (nat n) ds
      else if - 6 < n \<and> n \<le> 0 then digit 0 # cu CHR ''.'' # replicate (nat (- n)) (digit 0) @ ds
      else if k = 1 then ds @ exp_text (n - 1)
      else hd ds # cu CHR ''.'' # tl ds @ exp_text (n - 1))"

definition pos_text :: "rat \<Rightarrow> jstr" where
  "pos_text x = (case shortest x of None \<Rightarrow> [] | Some (k, s, n) \<Rightarrow> layout k s n)"

definition num_text :: "number \<Rightarrow> jstr" where
  "num_text x =
     (case x of
        NaN \<Rightarrow> str ''NaN''
      | Infinity \<Rightarrow> str ''Infinity''
      | NegInfinity \<Rightarrow> str ''-Infinity''
      | Fin r \<Rightarrow> if r = 0 then str ''0''
                 else if r < 0 then cu CHR ''-'' # pos_text (- r) else pos_text r)"

subsection \<open>The scanner reads every layout\<close>

text \<open>What may follow a number: no digit, point or exponent mark.\<close>

definition stops :: "jstr \<Rightarrow> bool" where
  "stops r \<longleftrightarrow> (case r of [] \<Rightarrow> True
     | c # _ \<Rightarrow> \<not> is_digit c \<and> c \<noteq> cu CHR ''.'' \<and> c \<noteq> cu CHR ''e'' \<and> c \<noteq> cu CHR ''E'')"

lemma unit_values:
  "cu CHR ''.'' = 46" "cu CHR ''e'' = 101" "cu CHR ''E'' = 69" "cu CHR ''-'' = 45" "cu CHR ''+'' = 43"
  by (simp_all add: cu_def)

lemma takeWhile_digits:
  "list_all is_digit ds \<Longrightarrow> r = [] \<or> \<not> is_digit (hd r) \<Longrightarrow>
     takeWhile is_digit (ds @ r) = ds \<and> dropWhile is_digit (ds @ r) = r"
  by (cases r) (auto simp: list_all_iff)

lemma scan_int_digits:
  assumes "list_all is_digit ds" "ds \<noteq> []" "hd ds \<noteq> 48 \<or> ds = [48]" "r = [] \<or> \<not> is_digit (hd r)"
  shows "scan_int (ds @ r) = Some (ds, r)"
proof -
  obtain c cs where ds: "ds = c # cs" using assms(2) by (cases ds) auto
  show ?thesis
    using assms takeWhile_digits [OF assms(1,4)]
    by (auto simp: scan_int_def ds)
qed

lemma scan_exp_stop: "stops r \<Longrightarrow> scan_exp r = Some (0, r)"
  by (auto simp: stops_def scan_exp_def split: list.splits)

lemma scan_exp_text:
  assumes "stops r"
  shows "scan_exp (exp_text e @ r) = Some (e, r)"
proof -
  have "r = [] \<or> \<not> is_digit (hd r)" using assms by (auto simp: stops_def split: list.splits)
  then have t: "takeWhile is_digit (dec_digits n @ r) = dec_digits n"
      "dropWhile is_digit (dec_digits n @ r) = r" for n
    using takeWhile_digits [OF dec_digits_digits] by blast+
  show ?thesis
    by (simp add: exp_text_def scan_exp_def scan_sign_def t unit_values)
qed

lemma scan_frac_none: "r = [] \<or> hd r \<noteq> cu CHR ''.'' \<Longrightarrow> scan_frac r = Some ([], r)"
  by (cases r) (auto simp: scan_frac_def)

lemma scan_frac_digits:
  assumes "list_all is_digit fs" "fs \<noteq> []" "r = [] \<or> \<not> is_digit (hd r)"
  shows "scan_frac (cu CHR ''.'' # fs @ r) = Some (fs, r)"
  using takeWhile_digits [OF assms(1,3)] assms(2) by (simp add: scan_frac_def)

lemma exp_text_hd: "exp_text e @ r \<noteq> [] \<and> \<not> is_digit (hd (exp_text e @ r)) \<and> hd (exp_text e @ r) \<noteq> cu CHR ''.''"
  by (simp add: exp_text_def is_digit_def unit_values)

lemma stops_hd: "stops r \<Longrightarrow> r = [] \<or> (\<not> is_digit (hd r) \<and> hd r \<noteq> cu CHR ''.'')"
  by (cases r) (auto simp: stops_def)

lemma is_digit_zero [simp]: "is_digit 48" "digit 0 = 48"
  by (simp_all add: is_digit_def digit_def)

lemma digits_val_48 [simp]: "digits_val a (replicate n 48) = a * 10 ^ n"
  by (metis digits_val_zeros is_digit_zero(2))

lemma not_digit_point [simp]: "\<not> is_digit (cu CHR ''.'')"
  by (simp add: is_digit_def unit_values)

definition int_part :: "jstr \<Rightarrow> bool" where
  "int_part ds \<longleftrightarrow> list_all is_digit ds \<and> ds \<noteq> [] \<and> (hd ds \<noteq> 48 \<or> ds = [48])"

lemma scan_unsigned_parts:
  assumes "int_part ds" "stops r"
  shows "scan_unsigned (ds @ r) = Some (dec_value ds [] 0, r)"
    and "scan_unsigned (ds @ exp_text e @ r) = Some (dec_value ds [] e, r)"
    and "list_all is_digit fs \<Longrightarrow> fs \<noteq> [] \<Longrightarrow>
      scan_unsigned (ds @ cu CHR ''.'' # fs @ r) = Some (dec_value ds fs 0, r)"
    and "list_all is_digit fs \<Longrightarrow> fs \<noteq> [] \<Longrightarrow>
      scan_unsigned (ds @ cu CHR ''.'' # fs @ exp_text e @ r) = Some (dec_value ds fs e, r)"
proof -
  have i: "u = [] \<or> \<not> is_digit (hd u) \<Longrightarrow> scan_int (ds @ u) = Some (ds, u)" for u
    using assms(1) scan_int_digits unfolding int_part_def by blast
  show "scan_unsigned (ds @ r) = Some (dec_value ds [] 0, r)"
    using i [of r] scan_frac_none [of r] stops_hd [OF assms(2)] scan_exp_stop [OF assms(2)]
    by (auto simp: scan_unsigned_def)
  show "scan_unsigned (ds @ exp_text e @ r) = Some (dec_value ds [] e, r)"
    using i [of "exp_text e @ r"] scan_frac_none [of "exp_text e @ r"] exp_text_hd [of e r]
      scan_exp_text [OF assms(2)]
    by (auto simp: scan_unsigned_def)
  assume fs: "list_all is_digit fs" "fs \<noteq> []"
  have p: "scan_int (ds @ cu CHR ''.'' # u) = Some (ds, cu CHR ''.'' # u)" for u
    using i [of "cu CHR ''.'' # u"] by simp
  show "scan_unsigned (ds @ cu CHR ''.'' # fs @ r) = Some (dec_value ds fs 0, r)"
    using p scan_frac_digits [OF fs, of r] stops_hd [OF assms(2)] scan_exp_stop [OF assms(2)]
    by (auto simp: scan_unsigned_def)
  show "scan_unsigned (ds @ cu CHR ''.'' # fs @ exp_text e @ r) = Some (dec_value ds fs e, r)"
    using p scan_frac_digits [OF fs, of "exp_text e @ r"] exp_text_hd [of e r]
      scan_exp_text [OF assms(2)]
    by (auto simp: scan_unsigned_def)
qed

text \<open>The layout of \<open>s\<close> (with \<open>k\<close> digits) and \<open>n\<close> denotes \<open>s \<cdot> 10\<^sup>n\<^sup>-\<^sup>k\<close>.\<close>

lemma scan_layout:
  assumes k: "1 \<le> k" "10 ^ (k - 1) \<le> s" "s < 10 ^ k" and r: "stops r"
  shows "scan_unsigned (layout k s n @ r) = Some (of_int s * 10 powi (n - int k), r)"
proof -
  define ds where "ds = dec_digits (nat s)"
  have s0: "0 < s" using k(2) by (metis less_le_trans zero_less_numeral zero_less_power)
  have nat_s: "10 ^ (k - 1) \<le> nat s" "nat s < 10 ^ Suc (k - 1)"
    using k s0 by (auto simp: le_nat_iff nat_less_iff)
  have len: "length ds = k"
    unfolding ds_def using dec_digits_length [OF nat_s] k(1) by simp
  have dig: "list_all is_digit ds" unfolding ds_def by (rule dec_digits_digits)
  have hd: "hd ds \<noteq> 48" unfolding ds_def using s0 by (intro dec_digits_hd) simp
  have val: "of_nat (digits_val 0 ds) = (of_int s :: rat)" unfolding ds_def using s0 by simp
  have ne: "ds \<noteq> []" by (simp add: ds_def)
  have dec: "of_nat (digits_val 0 (ds @ replicate j (digit 0))) = (of_int s :: rat) * 10 ^ j" for j
    using val by (simp add: digits_val_append)
  consider (whole) "int k \<le> n" "n \<le> 21" | (point) "0 < n" "n < int k" "n \<le> 21"
    | (small) "- 6 < n" "n \<le> 0" | (exp1) "n \<le> - 6 \<or> 21 < n" "k = 1"
    | (expk) "n \<le> - 6 \<or> 21 < n" "k \<noteq> 1" by linarith
  then show ?thesis
  proof cases
    case whole
    define j where "j = nat n - k"
    let ?ws = "ds @ replicate j (digit 0)"
    have n: "n = int k + int j" using whole by (simp add: j_def)
    have "int_part ?ws" using dig ne hd by (auto simp: int_part_def list_all_iff)
    moreover have "layout k s n = ?ws" using whole by (simp add: layout_def ds_def j_def Let_def)
    moreover have "(10 :: rat) powi (n - int k) = 10 ^ j" unfolding n by simp
    moreover have "dec_value ?ws [] 0 = of_int s * 10 ^ j" using dec [of j] by (simp add: dec_value_def)
    ultimately show ?thesis using scan_unsigned_parts(1) [of ?ws r, OF _ r] by metis
  next
    case point
    have "layout k s n = take (nat n) ds @ cu CHR ''.'' # drop (nat n) ds"
      using point by (simp add: layout_def ds_def Let_def)
    moreover have "int_part (take (nat n) ds)"
      using dig ne hd point by (cases ds) (auto simp: int_part_def list_all_iff take_Cons' dest: in_set_takeD)
    moreover have "list_all is_digit (drop (nat n) ds)" "drop (nat n) ds \<noteq> []"
      using dig point len by (auto simp: list_all_iff dest: in_set_dropD)
    moreover have "int (length (drop (nat n) ds)) = int k - n" using point len by simp
    ultimately show ?thesis
      using scan_unsigned_parts(3) [OF _ r] val by (simp add: dec_value_def)
  next
    case small
    define fs where "fs = replicate (nat (- n)) (digit 0) @ ds"
    have l: "layout k s n = [digit 0] @ cu CHR ''.'' # fs"
      using small k(1) by (simp add: layout_def ds_def Let_def fs_def)
    have "digits_val 0 ([digit 0] @ fs) = digits_val 0 ds"
      unfolding fs_def by (simp only: digits_val_append digits_val_zeros) (simp add: digit_val_def)
    moreover have "int (length fs) = int k - n" using small len by (simp add: fs_def)
    ultimately have v: "dec_value [digit 0] fs 0 = of_int s * 10 powi (n - int k)"
      using val by (simp only: dec_value_def) simp
    have "int_part [digit 0]" by (simp add: int_part_def)
    moreover have "list_all is_digit fs" "fs \<noteq> []"
      using dig ne by (auto simp: list_all_iff fs_def)
    ultimately show ?thesis
      using scan_unsigned_parts(3) [of "[digit 0]" r fs, OF _ r] l v by simp
  next
    case exp1
    have "layout k s n = ds @ exp_text (n - 1)"
      using exp1 by (auto simp: layout_def ds_def Let_def)
    moreover have "int_part ds" using dig ne hd by (simp add: int_part_def)
    ultimately show ?thesis
      using scan_unsigned_parts(2) [OF _ r] val exp1 by (simp add: dec_value_def)
  next
    case expk
    have split: "ds = [hd ds] @ tl ds" using ne by simp
    have "layout k s n = [hd ds] @ cu CHR ''.'' # tl ds @ exp_text (n - 1)"
      using expk k(1) by (auto simp: layout_def ds_def Let_def)
    moreover have "int_part [hd ds]" using dig ne hd by (cases ds) (auto simp: int_part_def)
    moreover have "list_all is_digit (tl ds)" using dig by (cases ds) auto
    moreover have "tl ds \<noteq> []"
    proof -
      have "length (tl ds) \<noteq> 0" using len expk(2) k(1) by simp
      then show ?thesis by (metis list.size(3))
    qed
    moreover have "int (length (tl ds)) = int k - 1" using len k(1) by simp
    moreover have "of_nat (digits_val 0 ([hd ds] @ tl ds)) = (of_int s :: rat)"
      using val split by metis
    ultimately show ?thesis
      using scan_unsigned_parts(4) [of "[hd ds]" r, OF _ r] by (simp add: dec_value_def)
  qed
qed

subsection \<open>A shortest decimal exists\<close>

lemma lead_zeros_bounds:
  "0 < p \<Longrightarrow> p < q \<Longrightarrow>
     q \<le> 10 ^ lead_zeros p q * p \<and> 10 ^ lead_zeros p q * p < 10 * q \<and> 0 < lead_zeros p q"
proof (induction p q rule: lead_zeros.induct)
  case (1 p q)
  have step: "lead_zeros p q = Suc (lead_zeros (10 * p) q)"
    using "1.prems" by (simp add: lead_zeros.simps [of p q])
  show ?case
  proof (cases "q \<le> 10 * p")
    case True
    then have "lead_zeros (10 * p) q = 0" by (simp add: lead_zeros.simps)
    with True step "1.prems" show ?thesis by simp
  next
    case False
    with 1 have "q \<le> 10 ^ lead_zeros (10 * p) q * (10 * p)"
      "10 ^ lead_zeros (10 * p) q * (10 * p) < 10 * q" by auto
    with step show ?thesis by (simp add: algebra_simps)
  qed
qed

lemma length_dec_digits_bounds: "0 < n \<Longrightarrow> 10 ^ (length (dec_digits n) - 1) \<le> n \<and> n < 10 ^ length (dec_digits n)"
proof (induction n rule: dec_digits.induct)
  case (1 n)
  show ?case
  proof (cases "n < 10")
    case True
    with 1 show ?thesis by (simp add: dec_digits.simps [of n])
  next
    case False
    let ?l = "length (dec_digits (n div 10))"
    have IH: "10 ^ (?l - 1) \<le> n div 10" "n div 10 < 10 ^ ?l" using 1 False by auto
    have l: "?l = Suc (?l - 1)" by (cases "dec_digits (n div 10)") auto
    have "10 ^ ?l = 10 * (10 :: nat) ^ (?l - 1)" by (metis l power_Suc)
    then have "10 ^ ?l \<le> n" using IH(1) by linarith
    moreover have "n < 10 * 10 ^ ?l" using IH(2) by linarith
    ultimately show ?thesis using False by (simp add: dec_digits.simps [of n])
  qed
qed

lemma dec_exp_bounds:
  assumes "0 < x"
  shows "10 powi (dec_exp x - 1) \<le> x \<and> x < 10 powi dec_exp x"
proof -
  obtain p q where pq: "quotient_of x = (p, q)" by (cases "quotient_of x")
  have q: "0 < q" using quotient_of_denom_pos [OF pq] .
  have x: "x = of_int p / of_int q" using quotient_of_div [OF pq] .
  have p: "0 < p" using assms x q by (simp add: zero_less_divide_iff)
  show ?thesis
  proof (cases "1 \<le> x")
    case True
    let ?n = "nat (p div q)" and ?l = "length (dec_digits (nat (p div q)))"
    have fl: "\<lfloor>x\<rfloor> = p div q" unfolding x by (simp add: floor_divide_of_int_eq)
    have "1 \<le> \<lfloor>x\<rfloor>" using True by simp
    with fl have pos: "0 < ?n" by simp
    note b = length_dec_digits_bounds [OF pos]
    have l: "0 < ?l" by simp
    have n: "int ?n = p div q" using pos by simp
    have "int (10 ^ (?l - 1)) \<le> int ?n" "int ?n < int (10 ^ ?l)"
      using b by (simp_all only: of_nat_le_iff of_nat_less_iff)
    then have fl': "(10 :: int) ^ (?l - 1) \<le> \<lfloor>x\<rfloor>" "\<lfloor>x\<rfloor> < 10 ^ ?l"
      unfolding n fl by (simp_all only: of_nat_power of_nat_numeral)
    have "(of_int (10 ^ (?l - 1)) :: rat) \<le> x" "x < of_int (10 ^ ?l)"
      by (rule iffD1 [OF le_floor_iff fl'(1)], rule iffD1 [OF floor_less_iff fl'(2)])
    moreover have "dec_exp x = int ?l" using True by (simp add: dec_exp_def pq)
    moreover obtain j where "?l = Suc j" using l gr0_conv_Suc by blast
    ultimately show ?thesis by (simp add: power_int_add)
  next
    case False
    let ?z = "lead_zeros (nat p) (nat q)"
    have "p < q" using False x q by simp
    then have b: "nat q \<le> 10 ^ ?z * nat p" "10 ^ ?z * nat p < 10 * nat q" "0 < ?z"
      using lead_zeros_bounds [of "nat p" "nat q"] p q by auto
    have "int (nat q) \<le> int (10 ^ ?z * nat p)" "int (10 ^ ?z * nat p) < int (10 * nat q)"
      using b(1,2) by (simp_all only: of_nat_le_iff of_nat_less_iff)
    then have "q \<le> 10 ^ ?z * p" "10 ^ ?z * p < 10 * q"
      using p q by simp_all
    then have "(of_int q :: rat) \<le> of_int (10 ^ ?z * p)" "(of_int (10 ^ ?z * p) :: rat) < of_int (10 * q)"
      by (simp_all only: of_int_le_iff of_int_less_iff)
    then have "1 \<le> 10 ^ ?z * x" "10 ^ ?z * x < 10"
      unfolding x using q by (simp_all add: field_simps)
    moreover have e: "dec_exp x = 1 - int ?z" using False by (simp add: dec_exp_def pq)
    ultimately show ?thesis
      unfolding e by (simp add: power_int_diff power_int_minus field_simps)
  qed
qed

lemma double_shape:
  assumes "is_double x" "0 < x"
  obtains m e where "x = of_int m * 2 powi e" "- 1074 \<le> e" "x < 2 powi 1024"
proof -
  have r: "round_double x = x" "x < 2 powi 1024"
    using assms by (auto simp: is_double_def to_double_def Let_def split: if_splits)
  obtain m where "round_double x = of_int m * 2 powi ulp_exp x"
    using round_double_shape [OF assms(2)] by blast
  moreover have "- 1074 \<le> ulp_exp x" by (simp add: ulp_exp_def)
  ultimately show thesis using that r by metis
qed

lemma ten_powi_le_iff: "(10 :: rat) powi a < 10 powi b \<Longrightarrow> a < b"
  by (metis not_le one_le_numeral power_int_increasing)

lemma scaled_integer:
  fixes x :: rat
  assumes "x = of_int m * 2 powi e" "- int N \<le> e"
  shows "x * 10 powi int N = of_int (m * 2 ^ nat (e + int N) * 5 ^ N)"
proof -
  have "(2 :: rat) powi e * 2 ^ N = 2 powi (e + int N)" by (simp add: power_int_add)
  also have "\<dots> = 2 ^ nat (e + int N)" using assms(2) by (simp add: power_int_def)
  finally have "of_int m * ((2 :: rat) powi e * 2 ^ N) * 5 ^ N = of_int (m * 2 ^ nat (e + int N) * 5 ^ N)"
    by simp
  moreover have "(10 :: rat) powi int N = 2 ^ N * 5 ^ N"
    by (simp add: power_mult_distrib [symmetric])
  ultimately show ?thesis unfolding assms(1) by (simp only: mult.assoc)
qed

text \<open>Written with \<open>1074 + n\<close> digits, a double is an exact decimal.\<close>

lemma exact_candidate:
  assumes "is_double x" "0 < x"
  shows "\<exists>K. 1 \<le> K \<and> K < 1400 \<and> (\<exists>c \<in> set (candidates x K). denotes x K c)"
proof -
  define N where "N = (1074 :: nat)"
  define n where "n = dec_exp x"
  obtain m e where me: "x = of_int m * 2 powi e" "- 1074 \<le> e" "x < 2 powi 1024"
    using double_shape [OF assms(1,2)] .
  have b: "10 powi (n - 1) \<le> x" "x < 10 powi n"
    using dec_exp_bounds [OF assms(2)] by (simp_all add: n_def)
  have "- int N \<le> e" using me(2) by (simp add: N_def)
  with me(1) obtain M where M: "x * 10 powi int N = of_int M" using scaled_integer by blast
  have tens: "(0 :: rat) < 10 powi i" for i by (simp add: zero_less_power_int)
  have "0 < x * 10 powi int N" using assms(2) tens by simp
  then have M1: "1 \<le> M" unfolding M by simp
  have up: "of_int M < (10 :: rat) powi (int N + n)"
    using mult_strict_right_mono [OF b(2) tens] unfolding M [symmetric]
    by (simp add: power_int_add mult.commute)
  have lo: "(10 :: rat) powi (int N + n - 1) \<le> of_int M"
  proof -
    have "(10 :: rat) powi (int N + n - 1) = 10 powi (n - 1) * 10 powi int N"
      by (subst power_int_add [symmetric]) (simp_all add: algebra_simps)
    also have "\<dots> \<le> x * 10 powi int N" using b(1) by (intro mult_right_mono less_imp_le [OF tens])
    finally show ?thesis unfolding M .
  qed
  have "10 powi 0 < (10 :: rat) powi (int N + n)" using up M1 by (simp add: le_less_trans)
  then have pos: "0 < int N + n" by (rule ten_powi_le_iff)
  then obtain j where j: "int N + n = int (Suc j)" by (metis not0_implies_Suc of_nat_0_less_iff pos_int_cases zero_less_iff_neq_zero)
  have "10 powi (n - 1) < (10 :: rat) powi 309"
  proof -
    have "10 powi (n - 1) < (2 :: rat) powi 1024" using b(1) me(3) by linarith
    also have "\<dots> \<le> 10 powi 309" by simp
    finally show ?thesis .
  qed
  then have "n - 1 < 309" by (rule ten_powi_le_iff)
  with j have K: "Suc j < 1400" by (simp add: N_def)
  have "(of_int M :: rat) < of_int (10 ^ Suc j)" using up unfolding j by (simp only: power_int_of_nat of_int_power of_int_numeral)
  then have up': "M < 10 ^ Suc j" by (simp only: of_int_less_iff)
  have "int N + n - 1 = int j" using j by simp
  then have "(of_int (10 ^ j) :: rat) \<le> of_int M" using lo by simp
  then have lo': "10 ^ j \<le> M" by (simp only: of_int_le_iff)
  have d: "int (Suc j) - n = int N" "n - int (Suc j) = - int N" using j by linarith+
  have val: "of_int M * 10 powi (n - int (Suc j)) = x"
    unfolding d M [symmetric] by (simp add: power_int_minus)
  have "(M, n) \<in> set (candidates x (Suc j))"
    using up' M by (simp add: candidates_def Let_def n_def [symmetric] d(1) del: of_nat_Suc)
  moreover have "denotes x (Suc j) (M, n)"
    using up' lo' val assms(1) by (simp add: denotes_def is_double_def del: of_nat_Suc)
  ultimately show ?thesis using K by (intro exI [of _ "Suc j"]) auto
qed

lemma shortest_from_sound: "shortest_from fuel k x = Some (j, c) \<Longrightarrow> denotes x j c"
  by (induction fuel k x rule: shortest_from.induct)
    (auto split: option.splits simp: find_Some_iff)

lemma shortest_from_complete:
  "k \<le> K \<Longrightarrow> K < k + fuel \<Longrightarrow> \<exists>c \<in> set (candidates x K). denotes x K c \<Longrightarrow>
     \<exists>r. shortest_from fuel k x = Some r"
proof (induction fuel k x rule: shortest_from.induct)
  case (2 fuel k x)
  show ?case
  proof (cases "find (denotes x k) (candidates x k)")
    case None
    then have "k \<noteq> K" using "2.prems"(3) by (auto simp: find_None_iff)
    with 2 None show ?thesis by simp
  qed simp
qed simp

lemma scan_pos_text:
  assumes "is_double x" "0 < x" "stops r"
  shows "\<exists>y. scan_unsigned (pos_text x @ r) = Some (y, r) \<and> to_double y = Fin x"
proof -
  obtain K where "1 \<le> K" "K < 1400" "\<exists>c \<in> set (candidates x K). denotes x K c"
    using exact_candidate [OF assms(1,2)] by blast
  then obtain c where c: "shortest x = Some c"
    using shortest_from_complete [of 1 K 1400 x] unfolding shortest_def by auto
  obtain k s n where ksn: "c = (k, s, n)" by (cases c)
  have d: "denotes x k (s, n)" using c shortest_from_sound unfolding shortest_def ksn by blast
  then show ?thesis
    using scan_layout [of k s r n] assms(3) c by (auto simp: denotes_def pos_text_def ksn)
qed

text \<open>The printed text starts like a number, never like another JSON token.\<close>

lemma scan_number_text:
  assumes "is_double x" "stops r"
  shows "\<exists>y. scan_number (num_text (Fin x) @ r) = Some (y, r) \<and> to_double y = Fin x"
proof -
  consider "x = 0" | "0 < x" | "x < 0" by linarith
  then show ?thesis
  proof cases
    case 1
    have "int_part [48]" by (simp add: int_part_def)
    then have "scan_unsigned ([48] @ r) = Some (dec_value [48] [] 0, r)"
      using assms(2) by (rule scan_unsigned_parts(1))
    with 1 show ?thesis
      by (simp add: num_text_def scan_number_def str_def cu_def dec_value_def digit_val_def
          unit_values to_double_def)
  next
    case 2
    obtain y where y: "scan_unsigned (pos_text x @ r) = Some (y, r)" "to_double y = Fin x"
      using scan_pos_text [OF assms(1) 2 assms(2)] by blast
    then have "scan_int (pos_text x @ r) \<noteq> None" by (auto simp: scan_unsigned_def split: option.splits)
    then obtain c t where ct: "pos_text x @ r = c # t" "is_digit c \<or> c = 48"
      by (auto simp: scan_int_def split: list.splits if_splits)
    then have "c \<noteq> cu CHR ''-''" by (auto simp: is_digit_def unit_values)
    with 2 y ct show ?thesis by (auto simp: num_text_def scan_number_def)
  next
    case 3
    obtain y where y: "scan_unsigned (pos_text (- x) @ r) = Some (y, r)" "to_double y = Fin (- x)"
      using scan_pos_text [of "- x"] assms 3 by auto
    have "to_double (- y) = Fin x"
      using y(2) by (auto simp: to_double_def Let_def split: if_splits)
    with 3 y show ?thesis by (auto simp: num_text_def scan_number_def)
  qed
qed

end
