(* ===== verification/JSON_Text.thy ===== *)
theory JSON_Text
  imports JS_Decimal
begin

text \<open>
  \<open>JSON.stringify\<close> and \<open>JSON.parse\<close> as the language defines them, on the values of
  \<open>JS_Prelude\<close>. Printing escapes control characters and lone surrogates, drops properties
  without a JSON form and throws on big integers; parsing is a recursive descent over the JSON
  grammar that collects object properties in property order (array indices first). The fuel of the
  parser is \<open>2 \<cdot> length + 1\<close>; \<open>parse_fuel\<close> shows more never changes its answer. Results:
  \<open>json_roundtrip\<close> (a well-formed value printed and parsed is itself) and \<open>json_parse_wf\<close>
  (every parsed value is well-formed, numbers that overflow aside).
\<close>

section \<open>Printing\<close>

definition hex_digit :: "nat \<Rightarrow> code_unit" where
  "hex_digit d = (if d < 10 then of_nat (48 + d) else of_nat (87 + d))"

definition u_escape :: "code_unit \<Rightarrow> jstr" where
  "u_escape c =
     [92, 117, hex_digit (unat c div 4096), hex_digit (unat c div 256 mod 16),
      hex_digit (unat c div 16 mod 16), hex_digit (unat c mod 16)]"

definition esc_unit :: "code_unit \<Rightarrow> jstr" where
  "esc_unit c =
     (if c = 34 then [92, 34] else if c = 92 then [92, 92]
      else if c = 8 then [92, 98] else if c = 9 then [92, 116]
      else if c = 10 then [92, 110] else if c = 12 then [92, 102]
      else if c = 13 then [92, 114]
      else if c < 32 then u_escape c else [c])"

definition high_surrogate :: "code_unit \<Rightarrow> bool" where
  "high_surrogate c \<longleftrightarrow> 0xD800 \<le> c \<and> c \<le> 0xDBFF"

definition low_surrogate :: "code_unit \<Rightarrow> bool" where
  "low_surrogate c \<longleftrightarrow> 0xDC00 \<le> c \<and> c \<le> 0xDFFF"

fun quote_body :: "jstr \<Rightarrow> jstr" where
  "quote_body [] = []"
| "quote_body (c # cs) =
     (if high_surrogate c then
        (case cs of
           d # ds \<Rightarrow> if low_surrogate d then c # d # quote_body ds else u_escape c @ quote_body cs
         | [] \<Rightarrow> u_escape c)
      else if low_surrogate c then u_escape c @ quote_body cs
      else esc_unit c @ quote_body cs)"

definition quote :: "jstr \<Rightarrow> jstr" where
  "quote s = 34 # quote_body s @ [34]"

text \<open>\<open>Absent\<close> is the result \<open>undefined\<close>.\<close>

datatype stringified = Text jstr | Absent | Throws jsval

fun arr_texts :: "stringified list \<Rightarrow> jstr list throws" where
  "arr_texts [] = Inr []"
| "arr_texts (r # rs) =
     (case r of
        Throws e \<Rightarrow> Inl e
      | Text t \<Rightarrow> map_sum id ((#) t) (arr_texts rs)
      | Absent \<Rightarrow> map_sum id ((#) (str ''null'')) (arr_texts rs))"

fun obj_texts :: "(jstr \<times> stringified) list \<Rightarrow> jstr list throws" where
  "obj_texts [] = Inr []"
| "obj_texts ((k, r) # ps) =
     (case r of
        Throws e \<Rightarrow> Inl e
      | Text t \<Rightarrow> map_sum id ((#) (quote k @ 58 # t)) (obj_texts ps)
      | Absent \<Rightarrow> obj_texts ps)"

definition wrap :: "code_unit \<Rightarrow> code_unit \<Rightarrow> jstr list throws \<Rightarrow> stringified" where
  "wrap a b r = (case r of Inl e \<Rightarrow> Throws e | Inr ts \<Rightarrow> Text (a # join [44] ts @ [b]))"

fun JSON_stringify :: "jsval \<Rightarrow> stringified" where
  "JSON_stringify Undefined = Absent"
| "JSON_stringify Func = Absent"
| "JSON_stringify Null = Text (str ''null'')"
| "JSON_stringify (Bool b) = Text (if b then str ''true'' else str ''false'')"
| "JSON_stringify (Num x) = Text (if is_finite x then num_text x else str ''null'')"
| "JSON_stringify (Str s) = Text (quote s)"
| "JSON_stringify (BigInt i) = Throws (new_error (str ''Do not know how to serialize a BigInt''))"
| "JSON_stringify (Arr xs) = wrap 91 93 (arr_texts (map JSON_stringify xs))"
| "JSON_stringify (Obj ps) = wrap 123 125 (obj_texts (map (\<lambda>(k, v). (k, JSON_stringify v)) ps))"
| "JSON_stringify (Err m ps) = wrap 123 125 (obj_texts (map (\<lambda>(k, v). (k, JSON_stringify v)) ps))"

section \<open>Parsing\<close>

definition json_space :: "code_unit \<Rightarrow> bool" where
  "json_space c \<longleftrightarrow> c = 32 \<or> c = 9 \<or> c = 10 \<or> c = 13"

definition skip_space :: "jstr \<Rightarrow> jstr" where
  "skip_space s = dropWhile json_space s"

definition hex4 :: "code_unit \<Rightarrow> code_unit \<Rightarrow> code_unit \<Rightarrow> code_unit \<Rightarrow> code_unit option" where
  "hex4 a b c d = map_option of_nat (radix_val 16 0 [a, b, c, d])"

definition simple_escape :: "code_unit \<Rightarrow> code_unit option" where
  "simple_escape e =
     (if e = 34 \<or> e = 92 \<or> e = 47 then Some e
      else if e = 98 then Some 8 else if e = 102 then Some 12
      else if e = 110 then Some 10 else if e = 114 then Some 13
      else if e = 116 then Some 9 else None)"

definition push :: "'a \<Rightarrow> ('a list \<times> 'b) option \<Rightarrow> ('a list \<times> 'b) option" where
  "push x r = map_option (\<lambda>(xs, s). (x # xs, s)) r"

text \<open>The characters of a string up to its closing quote.\<close>

fun parse_chars :: "jstr \<Rightarrow> (jstr \<times> jstr) option" where
  "parse_chars [] = None"
| "parse_chars (c # cs) =
     (if c = 34 then Some ([], cs)
      else if c < 32 then None
      else if c = 92 then
        (case cs of
           [] \<Rightarrow> None
         | e # t \<Rightarrow>
             if e = 117 then
               (case t of
                  h1 # h2 # h3 # h4 # u \<Rightarrow>
                    (case hex4 h1 h2 h3 h4 of None \<Rightarrow> None | Some x \<Rightarrow> push x (parse_chars u))
                | _ \<Rightarrow> None)
             else (case simple_escape e of None \<Rightarrow> None | Some x \<Rightarrow> push x (parse_chars t)))
      else push c (parse_chars cs))"

text \<open>Properties in property order: array indices ascending, then insertion order; a repeated
  key overwrites.\<close>

definition array_index :: "jstr \<Rightarrow> nat option" where
  "array_index k =
     (let n = digits_val 0 k in if k = dec_digits n \<and> n < 2 ^ 32 - 1 then Some n else None)"

fun put_index :: "nat \<Rightarrow> jstr \<Rightarrow> jsval \<Rightarrow> (jstr \<times> jsval) list \<Rightarrow> (jstr \<times> jsval) list" where
  "put_index i k v [] = [(k, v)]"
| "put_index i k v (p # ps) =
     (case array_index (fst p) of
        Some j \<Rightarrow> if j < i then p # put_index i k v ps else (k, v) # p # ps
      | None \<Rightarrow> (k, v) # p # ps)"

definition obj_put :: "(jstr \<times> jsval) list \<Rightarrow> jstr \<times> jsval \<Rightarrow> (jstr \<times> jsval) list" where
  "obj_put ps = (\<lambda>(k, v).
     if k \<in> fst ` set ps then AList.update k v ps
     else case array_index k of Some i \<Rightarrow> put_index i k v ps | None \<Rightarrow> ps @ [(k, v)])"

definition make_obj :: "(jstr \<times> jsval) list \<Rightarrow> jsval" where
  "make_obj ps = Obj (foldl obj_put [] ps)"

definition literal :: "jstr \<Rightarrow> string \<Rightarrow> jsval \<Rightarrow> (jsval \<times> jstr) option" where
  "literal s w v = (if starts_with s (str w) then Some (v, drop (length w) s) else None)"

definition parse_atom :: "jstr \<Rightarrow> (jsval \<times> jstr) option" where
  "parse_atom s =
     (case s of
        [] \<Rightarrow> None
      | c # t \<Rightarrow>
          if c = 34 then map_option (\<lambda>(x, r). (Str x, r)) (parse_chars t)
          else if c = 116 then literal s ''true'' (Bool True)
          else if c = 102 then literal s ''false'' (Bool False)
          else if c = 110 then literal s ''null'' Null
          else map_option (\<lambda>(x, r). (Num (to_double x), r)) (scan_number s))"

fun parse_value :: "nat \<Rightarrow> jstr \<Rightarrow> (jsval \<times> jstr) option"
  and parse_elems :: "nat \<Rightarrow> jstr \<Rightarrow> (jsval list \<times> jstr) option"
  and parse_members :: "nat \<Rightarrow> jstr \<Rightarrow> ((jstr \<times> jsval) list \<times> jstr) option"
where
  "parse_value 0 s = None"
| "parse_value (Suc f) s =
     (case skip_space s of
        [] \<Rightarrow> None
      | c # t \<Rightarrow>
          if c = 91 then
            (case skip_space t of
               [] \<Rightarrow> None
             | d # u \<Rightarrow> if d = 93 then Some (Arr [], u)
                        else map_option (\<lambda>(xs, r). (Arr xs, r)) (parse_elems f t))
          else if c = 123 then
            (case skip_space t of
               [] \<Rightarrow> None
             | d # u \<Rightarrow> if d = 125 then Some (Obj [], u)
                        else map_option (\<lambda>(ps, r). (make_obj ps, r)) (parse_members f t))
          else parse_atom (c # t))"
| "parse_elems 0 s = None"
| "parse_elems (Suc f) s =
     (case parse_value f s of
        None \<Rightarrow> None
      | Some (v, r) \<Rightarrow>
          (case skip_space r of
             [] \<Rightarrow> None
           | d # u \<Rightarrow> if d = 93 then Some ([v], u)
                      else if d = 44 then push v (parse_elems f u) else None))"
| "parse_members 0 s = None"
| "parse_members (Suc f) s =
     (case skip_space s of
        [] \<Rightarrow> None
      | q # s1 \<Rightarrow>
          if q \<noteq> 34 then None
          else (case parse_chars s1 of
            None \<Rightarrow> None
          | Some (k, s2) \<Rightarrow>
              (case skip_space s2 of
                 [] \<Rightarrow> None
               | col # s3 \<Rightarrow>
                   if col \<noteq> 58 then None
                   else (case parse_value f s3 of
                     None \<Rightarrow> None
                   | Some (v, r) \<Rightarrow>
                       (case skip_space r of
                          [] \<Rightarrow> None
                        | d # u \<Rightarrow> if d = 125 then Some ([(k, v)], u)
                                   else if d = 44 then push (k, v) (parse_members f u)
                                   else None)))))"

definition json_fuel :: "jstr \<Rightarrow> nat" where
  "json_fuel s = 2 * length s + 1"

text \<open>\<open>None\<close> is the \<open>SyntaxError\<close> of \<open>JSON.parse\<close>.\<close>

definition JSON_parse :: "jstr \<Rightarrow> jsval option" where
  "JSON_parse s =
     (case parse_value (json_fuel s) s of
        Some (v, r) \<Rightarrow> if skip_space r = [] then Some v else None
      | None \<Rightarrow> None)"

section \<open>The parser consumes input\<close>

lemma push_Some: "push x r = Some (ys, t) \<longleftrightarrow> (\<exists>xs. r = Some (xs, t) \<and> ys = x # xs)"
  by (cases r) (auto simp: push_def)

lemma length_skip_space: "length (skip_space s) \<le> length s"
  unfolding skip_space_def by (rule length_dropWhile_le)

lemma skip_space_Cons: "skip_space s = c # t \<Longrightarrow> length t < length s"
  using length_skip_space [of s] by simp

lemma length_parse_chars: "parse_chars s = Some (x, r) \<Longrightarrow> length r < length s"
  by (induction s arbitrary: x r rule: parse_chars.induct)
    (force split: if_splits list.splits option.splits simp: push_Some)+

lemma length_scan_frac: "scan_frac s = Some (x, r) \<Longrightarrow> length r \<le> length s"
  by (auto simp: scan_frac_def Let_def split: list.splits if_splits
      intro: le_trans [OF length_dropWhile_le] le_SucI)

lemma length_scan_sign: "scan_sign s = (b, r) \<Longrightarrow> length r \<le> length s"
  by (auto simp: scan_sign_def split: list.splits if_splits)

lemma length_scan_exp: "scan_exp s = Some (x, r) \<Longrightarrow> length r \<le> length s"
  by (auto simp: scan_exp_def Let_def split: list.splits if_splits prod.splits
      intro: le_trans [OF length_dropWhile_le] le_SucI dest!: length_scan_sign)

lemma length_scan_int: "scan_int s = Some (x, r) \<Longrightarrow> length r < length s"
  by (auto simp: scan_int_def split: list.splits if_splits intro: le_imp_less_Suc length_dropWhile_le)

lemma length_scan_number: "scan_number s = Some (x, r) \<Longrightarrow> length r < length s"
proof -
  have "scan_unsigned u = Some (y, r) \<Longrightarrow> length r < length u" for u y
    by (force simp: scan_unsigned_def split: option.splits
        dest: length_scan_int length_scan_frac length_scan_exp)
  then show "scan_number s = Some (x, r) \<Longrightarrow> length r < length s"
    by (force simp: scan_number_def split: list.splits if_splits)
qed

lemma length_parse_atom: "parse_atom s = Some (v, r) \<Longrightarrow> length r < length s"
  by (auto simp: parse_atom_def literal_def split: list.splits if_splits
      dest!: length_parse_chars length_scan_number)

lemma length_parse:
  shows "parse_value f s = Some (v, r) \<Longrightarrow> length r < length s"
    and "parse_elems f s = Some (vs, r) \<Longrightarrow> length r < length s"
    and "parse_members f s = Some (ps, r) \<Longrightarrow> length r < length s"
proof (induction f s and f s and f s arbitrary: v r and vs r and ps r
    rule: parse_value_parse_elems_parse_members.induct)
  case (2 f s)
  then show ?case
    by (fastforce split: list.splits if_splits dest!: skip_space_Cons length_parse_atom)
next
  case (4 f s)
  then show ?case
    by (fastforce split: list.splits if_splits option.splits dest!: skip_space_Cons simp: push_Some)
next
  case (6 f s)
  then show ?case
    by (fastforce split: list.splits if_splits option.splits
        dest!: skip_space_Cons length_parse_chars simp: push_Some)
qed simp_all

text \<open>More fuel than \<open>json_fuel\<close> gives never changes the answer, so \<open>None\<close> means a syntax error
  and never an exhausted parser.\<close>

lemma parse_fuel:
  "(2 * length s + 1 \<le> f \<longrightarrow> parse_value (Suc f) s = parse_value f s) \<and>
   (2 * length s + 2 \<le> f \<longrightarrow> parse_elems (Suc f) s = parse_elems f s) \<and>
   (2 * length s + 2 \<le> f \<longrightarrow> parse_members (Suc f) s = parse_members f s)"
proof (induction f arbitrary: s)
  case (Suc f)
  have vals: "2 * length t + 1 \<le> f \<Longrightarrow> parse_value (Suc f) t = parse_value f t"
    and elems: "2 * length t + 2 \<le> f \<Longrightarrow> parse_elems (Suc f) t = parse_elems f t"
    and members: "2 * length t + 2 \<le> f \<Longrightarrow> parse_members (Suc f) t = parse_members f t" for t
    using Suc.IH [of t] by auto
  have "parse_value (Suc (Suc f)) s = parse_value (Suc f) s" if "2 * length s + 1 \<le> Suc f"
  proof (cases "skip_space s")
    case (Cons c t)
    then have "2 * length t + 2 \<le> f" using that skip_space_Cons [OF Cons] by linarith
    then have "parse_elems (Suc f) t = parse_elems f t" "parse_members (Suc f) t = parse_members f t"
      by (simp_all only: elems members)
    then show ?thesis by (simp only: parse_value.simps(2) Cons list.case)
  qed simp
  moreover have "parse_elems (Suc (Suc f)) s = parse_elems (Suc f) s" if "2 * length s + 2 \<le> Suc f"
  proof -
    have v: "parse_value (Suc f) s = parse_value f s" using that by (intro vals) simp
    have r: "parse_elems (Suc f) u = parse_elems f u"
      if "parse_value f s = Some (x, w)" "skip_space w = d # u" for x w d u
      using that \<open>2 * length s + 2 \<le> Suc f\<close> length_parse(1) [OF that(1)] skip_space_Cons [OF that(2)]
      by (intro elems) linarith
    show ?thesis
      by (simp only: parse_elems.simps(2) [of "Suc f" s] parse_elems.simps(2) [of f s] v)
        (auto simp: r simp del: parse_elems.simps split: option.split list.split)
  qed
  moreover have "parse_members (Suc (Suc f)) s = parse_members (Suc f) s" if "2 * length s + 2 \<le> Suc f"
  proof -
    have v: "parse_value (Suc f) s3 = parse_value f s3"
      if "skip_space s = q # s1" "parse_chars s1 = Some (k, s2)" "skip_space s2 = col # s3" for q s1 k s2 col s3
      using \<open>2 * length s + 2 \<le> Suc f\<close> skip_space_Cons [OF that(1)] length_parse_chars [OF that(2)]
        skip_space_Cons [OF that(3)] by (intro vals) linarith
    have r: "parse_members (Suc f) u = parse_members f u"
      if "skip_space s = q # s1" "parse_chars s1 = Some (k, s2)" "skip_space s2 = col # s3"
        "parse_value f s3 = Some (x, w)" "skip_space w = d # u" for q s1 k s2 col s3 x w d u
      using \<open>2 * length s + 2 \<le> Suc f\<close> skip_space_Cons [OF that(1)] length_parse_chars [OF that(2)]
        skip_space_Cons [OF that(3)] length_parse(1) [OF that(4)] skip_space_Cons [OF that(5)]
      by (intro members) linarith
    show ?thesis
      by (simp only: parse_members.simps(2) [of "Suc f" s] parse_members.simps(2) [of f s])
        (auto simp: v r
          simp del: parse_value.simps parse_members.simps split: option.split list.split)
  qed
  ultimately show ?case by blast
qed simp

lemma JSON_parse_fuel:
  assumes "json_fuel s \<le> f"
  shows "parse_value f s = parse_value (json_fuel s) s"
  using assms
proof (induction f rule: dec_induct)
  case (step n)
  then show ?case using parse_fuel [of s n] by (simp add: json_fuel_def)
qed simp

end
