(* ===== verification/JSON_Roundtrip.thy ===== *)
theory JSON_Roundtrip
  imports JSON_Text
begin

text \<open>
  Printing and parsing JSON are inverse to each other: a well-formed value is the parse of its
  text, and every parsed text yields a well-formed value up to numbers that overflow to infinity.
\<close>

section \<open>Strings\<close>

lemma hex_val_digit [simp]: "d < 16 \<Longrightarrow> hex_val (hex_digit d) = Some d"
proof -
  have "list_all (\<lambda>d. hex_val (hex_digit d) = Some d) [0..<16]"
    by code_simp
  then show "d < 16 \<Longrightarrow> ?thesis" by (simp add: list_all_iff)
qed

lemma hex4_digits:
  fixes c :: code_unit
  shows "hex4 (hex_digit (unat c div 4096)) (hex_digit (unat c div 256 mod 16))
    (hex_digit (unat c div 16 mod 16)) (hex_digit (unat c mod 16)) = Some c"
proof -
  have c: "unat c < 65536" using unsigned_less [of c, where ?'a = nat] by simp
  then have "unat c div 4096 < 16" by (simp add: div_less_iff_less_mult)
  moreover have "16 * (16 * (16 * (unat c div 4096) + unat c div 256 mod 16) + unat c div 16 mod 16)
      + unat c mod 16 = unat c"
  proof -
    have "unat c div 4096 = unat c div 16 div 16 div 16" "unat c div 256 = unat c div 16 div 16"
      by (simp_all add: div_mult2_eq [symmetric])
    then show ?thesis by (simp only: mult_div_mod_eq)
  qed
  ultimately show ?thesis by (simp add: hex4_def)
qed

lemma parse_u_escape: "parse_chars (u_escape c @ r) = push c (parse_chars r)"
  by (simp add: u_escape_def hex4_digits)

lemma parse_esc_unit: "parse_chars (esc_unit c @ r) = push c (parse_chars r)"
  by (auto simp: esc_unit_def parse_u_escape simple_escape_def)

lemma surrogate_plain: "high_surrogate c \<or> low_surrogate c \<Longrightarrow> c \<noteq> 34 \<and> c \<noteq> 92 \<and> \<not> c < 32"
  by (auto simp: high_surrogate_def low_surrogate_def word_le_nat_alt word_less_nat_alt)

lemma parse_plain: "c \<noteq> 34 \<Longrightarrow> c \<noteq> 92 \<Longrightarrow> \<not> c < 32 \<Longrightarrow> parse_chars (c # r) = push c (parse_chars r)"
  by simp

lemma parse_quote_body: "parse_chars (quote_body s @ 34 # r) = Some (s, r)"
proof (induction s rule: quote_body.induct)
  case (2 c cs)
  show ?case
  proof (cases "high_surrogate c")
    case True
    show ?thesis
    proof (cases cs)
      case Nil
      with True show ?thesis by (simp add: parse_u_escape push_def)
    next
      case (Cons d ds)
      then show ?thesis
        using True 2 surrogate_plain [of c] surrogate_plain [of d]
        by (cases "low_surrogate d")
          (simp_all add: parse_u_escape parse_plain push_def del: parse_chars.simps(2))
    qed
  next
    case False
    then show ?thesis
      using 2 by (simp add: parse_u_escape parse_esc_unit push_def del: parse_chars.simps(2))
  qed
qed simp

section \<open>Objects\<close>

text \<open>The order of own property keys.\<close>

definition key_less :: "jstr \<Rightarrow> jstr \<Rightarrow> bool" where
  "key_less k k' =
     (case (array_index k, array_index k') of
        (Some i, Some j) \<Rightarrow> i < j
      | (Some i, None) \<Rightarrow> True
      | (None, Some j) \<Rightarrow> False
      | (None, None) \<Rightarrow> k \<noteq> k')"

definition canonical :: "(jstr \<times> jsval) list \<Rightarrow> bool" where
  "canonical ps \<longleftrightarrow> sorted_wrt key_less (map fst ps)"

lemma array_index_inj: "array_index k = Some i \<Longrightarrow> array_index k' = Some i \<Longrightarrow> k = k'"
  by (auto simp: array_index_def Let_def split: if_splits)

lemma key_less_neq: "key_less k k' \<Longrightarrow> k \<noteq> k'"
  by (auto simp: key_less_def split: option.splits)

lemma put_index_last:
  "\<forall>p \<in> set ps. key_less (fst p) k \<Longrightarrow> array_index k = Some i \<Longrightarrow> put_index i k v ps = ps @ [(k, v)]"
  by (induction ps) (auto simp: key_less_def split: option.splits)

lemma obj_put_last: "\<forall>p \<in> set ps. key_less (fst p) k \<Longrightarrow> obj_put ps (k, v) = ps @ [(k, v)]"
  using key_less_neq by (fastforce simp: obj_put_def put_index_last split: option.splits)

lemma obj_put_canonical: "canonical ps \<Longrightarrow> foldl obj_put [] ps = ps"
proof (induction ps rule: rev_induct)
  case (snoc p ps)
  then show ?case
    by (cases p) (auto simp: canonical_def sorted_wrt_append intro!: obj_put_last)
qed simp

lemma canonical_append:
  "canonical ps \<Longrightarrow> k \<notin> fst ` set ps \<Longrightarrow> array_index k = None \<Longrightarrow> canonical (ps @ [(k, v)])"
  by (force simp: canonical_def sorted_wrt_append key_less_def split: option.splits)

lemma set_put_index: "set (put_index i k v ps) = insert (k, v) (set ps)"
  by (induction ps) (auto split: option.splits)

lemma canonical_put_index:
  "canonical ps \<Longrightarrow> k \<notin> fst ` set ps \<Longrightarrow> array_index k = Some i \<Longrightarrow> canonical (put_index i k v ps)"
proof (induction ps)
  case (Cons p ps)
  have tail: "canonical ps" and hd: "\<forall>q \<in> set ps. key_less (fst p) (fst q)"
    using Cons.prems by (auto simp: canonical_def)
  show ?case
  proof (cases "array_index (fst p)")
    case None
    then have "\<forall>q \<in> set ps. array_index (fst q) = None"
      using hd by (auto simp: key_less_def split: option.splits)
    with None Cons.prems show ?thesis
      by (auto simp: canonical_def key_less_def split: option.splits)
  next
    case (Some j)
    have ne: "j \<noteq> i" using Cons.prems Some array_index_inj by fastforce
    show ?thesis
    proof (cases "j < i")
      case True
      then have "key_less (fst p) k" using Some Cons.prems by (simp add: key_less_def)
      moreover have "canonical (put_index i k v ps)" using Cons tail by simp
      ultimately show ?thesis
        using True Some hd by (auto simp: canonical_def set_put_index)
    next
      case False
      with ne have "i < j" by simp
      then have "\<forall>q \<in> set (p # ps). key_less k (fst q)"
        using Some hd Cons.prems by (auto simp: key_less_def split: option.splits)
      with False Some Cons.prems show ?thesis by (auto simp: canonical_def)
    qed
  qed
qed (simp add: canonical_def)

lemma canonical_obj_put: "canonical ps \<Longrightarrow> canonical (obj_put ps p)"
proof (cases p)
  case (Pair k v)
  assume c: "canonical ps"
  have "map fst (AList.update k v ps) = map fst ps" if "k \<in> fst ` set ps"
    using that by (simp add: update_keys)
  then have "canonical (AList.update k v ps)" if "k \<in> fst ` set ps"
    using that c by (simp add: canonical_def)
  with c show ?thesis
    unfolding Pair obj_put_def
    by (cases "k \<in> fst ` set ps") (simp_all add: canonical_append canonical_put_index split: option.split)
qed

lemma canonical_fold: "canonical ps \<Longrightarrow> canonical (foldl obj_put ps qs)"
  by (induction qs arbitrary: ps) (auto simp: canonical_obj_put)

section \<open>Values\<close>

text \<open>The values \<open>JSON.parse\<close> builds: finite doubles, properties in property order.\<close>

fun wf_json :: "jsval \<Rightarrow> bool" where
  "wf_json Null = True"
| "wf_json (Bool b) = True"
| "wf_json (Num x) = (case x of Fin r \<Rightarrow> is_double r | _ \<Rightarrow> False)"
| "wf_json (Str s) = True"
| "wf_json (Arr xs) = (\<forall>x \<in> set xs. wf_json x)"
| "wf_json (Obj ps) = (canonical ps \<and> (\<forall>p \<in> set ps. wf_json (snd p)))"
| "wf_json _ = False"

text \<open>\<open>reads t v\<close>: in front of any text that cannot continue a number, the parser reads \<open>t\<close> as
  \<open>v\<close> and stops behind it.\<close>

definition reads :: "jstr \<Rightarrow> jsval \<Rightarrow> bool" where
  "reads t v \<longleftrightarrow> t \<noteq> [] \<and> \<not> json_space (hd t) \<and> hd t \<notin> {93, 125} \<and>
     (\<forall>r f. stops r \<longrightarrow> 2 * length (t @ r) + 1 \<le> f \<longrightarrow> parse_value f (t @ r) = Some (v, r))"

definition entry_reads :: "jstr \<Rightarrow> jstr \<times> jsval \<Rightarrow> bool" where
  "entry_reads t p \<longleftrightarrow> (\<exists>u. t = quote (fst p) @ 58 # u \<and> reads u (snd p))"

lemma readsD: "reads t v \<Longrightarrow> stops r \<Longrightarrow> 2 * length (t @ r) + 1 \<le> f \<Longrightarrow> parse_value f (t @ r) = Some (v, r)"
  by (simp add: reads_def)

lemma skip_space_plain: "\<not> json_space c \<Longrightarrow> skip_space (c # s) = c # s"
  by (simp add: skip_space_def)

lemma plain_units [simp]: "\<not> json_space 34" "\<not> json_space 44" "\<not> json_space 58" "\<not> json_space 93"
  "\<not> json_space 125" "\<not> json_space 91" "\<not> json_space 123"
  by (simp_all add: json_space_def)

lemma stops_units [simp]: "stops (44 # s)" "stops (93 # s)" "stops (125 # s)" "stops []"
  by (simp_all add: stops_def is_digit_def unit_values)

lemma reads_atom:
  assumes "t \<noteq> []" "\<not> json_space (hd t)" "hd t \<notin> {91, 93, 123, 125}"
    and "\<And>r. stops r \<Longrightarrow> parse_atom (t @ r) = Some (v, r)"
  shows "reads t v"
proof -
  obtain c u where t: "t = c # u" using assms(1) by (cases t) auto
  have "parse_value f (t @ r) = Some (v, r)" if "stops r" "0 < f" for r f
    using that assms by (cases f) (auto simp: t skip_space_plain)
  with assms show ?thesis by (auto simp: reads_def)
qed

lemma scan_number_hd: "scan_number (c # t) = Some y \<Longrightarrow> c = 45 \<or> is_digit c"
  by (auto simp: scan_number_def scan_unsigned_def scan_int_def unit_values is_digit_def
      split: if_splits option.splits)

lemma reads_number: "is_double x \<Longrightarrow> reads (num_text (Fin x)) (Num (Fin x))"
proof (rule reads_atom)
  assume d: "is_double x"
  let ?t = "num_text (Fin x)"
  obtain y where "scan_number (?t @ []) = Some (y, [])" using scan_number_text [OF d, of "[]"] by auto
  moreover from this have ne: "?t \<noteq> []" by (cases ?t) (auto simp: scan_number_def)
  ultimately have hd: "hd ?t = 45 \<or> is_digit (hd ?t)"
    by (metis append_Nil2 list.collapse scan_number_hd)
  show "?t \<noteq> []" by (rule ne)
  show "\<not> json_space (hd ?t)" "hd ?t \<notin> {91, 93, 123, 125}"
    using hd by (auto simp: json_space_def is_digit_def)
  fix r assume "stops r"
  then obtain y where "scan_number (?t @ r) = Some (y, r)" "to_double y = Fin x"
    using scan_number_text [OF d] by blast
  moreover have "hd ?t \<notin> {34, 116, 102, 110}" using hd by (auto simp: is_digit_def)
  ultimately show "parse_atom (?t @ r) = Some (Num (Fin x), r)"
    using ne by (cases ?t) (auto simp: parse_atom_def)
qed

lemma reads_string: "reads (quote s) (Str s)"
  by (rule reads_atom) (auto simp: quote_def parse_atom_def parse_quote_body)

lemma reads_literals:
  "reads (str ''null'') Null" "reads (str ''true'') (Bool True)" "reads (str ''false'') (Bool False)"
  by (rule reads_atom;
      simp add: str_def cu_def json_space_def parse_atom_def literal_def starts_with_def)+

lemma parse_elems_join:
  assumes "list_all2 reads ts xs" "xs \<noteq> []" "2 * length (join [44] ts @ 93 # r) + 2 \<le> f"
  shows "parse_elems f (join [44] ts @ 93 # r) = Some (xs, r)"
  using assms
proof (induction ts xs arbitrary: f rule: list_all2_induct)
  case (Cons t ts x xs)
  obtain g where f: "f = Suc g" using Cons.prems by (cases f) auto
  show ?case
  proof (cases "xs = []")
    case True
    with Cons have "ts = []" by simp
    with True Cons f show ?thesis by (simp add: readsD skip_space_plain)
  next
    case False
    with Cons.hyps obtain u us where ts: "ts = u # us" by (cases ts) auto
    have "parse_value g (t @ 44 # join [44] ts @ 93 # r) = Some (x, 44 # join [44] ts @ 93 # r)"
      using Cons.prems Cons.hyps f ts by (intro readsD) auto
    moreover have "parse_elems g (join [44] ts @ 93 # r) = Some (xs, r)"
      using Cons.prems f ts False by (intro Cons.IH) auto
    ultimately show ?thesis by (simp add: f ts skip_space_plain push_def)
  qed
qed simp

lemma parse_members_join:
  assumes "list_all2 entry_reads ts ps" "ps \<noteq> []"
    "2 * length (join [44] ts @ 125 # r) + 2 \<le> f"
  shows "parse_members f (join [44] ts @ 125 # r) = Some (ps, r)"
  using assms
proof (induction ts ps arbitrary: f rule: list_all2_induct)
  case (Cons t ts p ps)
  obtain g where f: "f = Suc g" using Cons.prems by (cases f) auto
  obtain u where t: "t = 34 # quote_body (fst p) @ 34 # 58 # u" and u: "reads u (snd p)"
    using Cons.hyps by (auto simp: quote_def entry_reads_def)
  show ?case
  proof (cases "ps = []")
    case True
    with Cons have "ts = []" by simp
    moreover have "parse_value g (u @ 125 # r) = Some (snd p, 125 # r)"
      using Cons.prems f t u \<open>ts = []\<close> by (intro readsD) auto
    ultimately show ?thesis using True by (simp add: f t parse_quote_body skip_space_plain)
  next
    case False
    with Cons.hyps obtain w ws where ts: "ts = w # ws" by (cases ts) auto
    have "parse_value g (u @ 44 # join [44] ts @ 125 # r) = Some (snd p, 44 # join [44] ts @ 125 # r)"
      using Cons.prems f t u ts by (intro readsD) auto
    moreover have "parse_members g (join [44] ts @ 125 # r) = Some (ps, r)"
      using Cons.prems f ts False by (intro Cons.IH) auto
    ultimately show ?thesis by (simp add: f t ts parse_quote_body skip_space_plain push_def)
  qed
qed simp

lemma reads_array:
  assumes "list_all2 reads ts xs"
  shows "reads (91 # join [44] ts @ [93]) (Arr xs)"
proof -
  have "parse_value f ((91 # join [44] ts @ [93]) @ r) = Some (Arr xs, r)"
    if f: "2 * length ((91 # join [44] ts @ [93]) @ r) + 1 \<le> f" for r f
  proof -
    obtain g where g: "f = Suc g" using f by (cases f) auto
    show ?thesis
    proof (cases "xs = []")
      case True
      with assms g show ?thesis by (simp add: skip_space_plain)
    next
      case False
      with assms obtain t us where ts: "ts = t # us" and t: "reads t (hd xs)"
        by (cases xs) (auto simp: list_all2_Cons2)
      obtain c w where cw: "t = c # w" "\<not> json_space c" "c \<noteq> 93"
        using t by (cases t) (auto simp: reads_def)
      have "parse_elems g (join [44] ts @ 93 # r) = Some (xs, r)"
        using f g by (intro parse_elems_join [OF assms False]) auto
      moreover have "\<exists>z. join [44] ts @ 93 # r = c # z" using ts cw by (cases us) auto
      ultimately show ?thesis using cw g by (auto simp: skip_space_plain)
    qed
  qed
  then show ?thesis by (simp add: reads_def)
qed

lemma reads_object:
  assumes "list_all2 entry_reads ts ps" "canonical ps"
  shows "reads (123 # join [44] ts @ [125]) (Obj ps)"
proof -
  have "parse_value f ((123 # join [44] ts @ [125]) @ r) = Some (Obj ps, r)"
    if f: "2 * length ((123 # join [44] ts @ [125]) @ r) + 1 \<le> f" for r f
  proof -
    obtain g where g: "f = Suc g" using f by (cases f) auto
    show ?thesis
    proof (cases "ps = []")
      case True
      with assms g show ?thesis by (simp add: skip_space_plain)
    next
      case False
      with assms obtain t us where ts: "ts = t # us" and t: "\<exists>w. t = 34 # w"
        by (cases ps) (auto simp: list_all2_Cons2 quote_def entry_reads_def)
      have "parse_members g (join [44] ts @ 125 # r) = Some (ps, r)"
        using f g by (intro parse_members_join [OF assms(1) False]) auto
      moreover have "\<exists>z. join [44] ts @ 125 # r = 34 # z" using ts t by (cases us) auto
      moreover have "make_obj ps = Obj ps" by (simp add: make_obj_def obj_put_canonical assms(2))
      ultimately show ?thesis using g by (auto simp: skip_space_plain)
    qed
  qed
  then show ?thesis by (simp add: reads_def)
qed

lemma arr_texts_reads:
  assumes "\<And>x. x \<in> set xs \<Longrightarrow> \<exists>t. JSON_stringify x = Text t \<and> reads t x"
  shows "\<exists>ts. arr_texts (map JSON_stringify xs) = Inr ts \<and> list_all2 reads ts xs"
  using assms
proof (induction xs)
  case (Cons x xs)
  then obtain t ts where "JSON_stringify x = Text t" "reads t x"
    "arr_texts (map JSON_stringify xs) = Inr ts" "list_all2 reads ts xs" by force
  then show ?case by (auto intro!: exI [of _ "t # ts"])
qed simp

lemma obj_texts_reads:
  assumes "\<And>p. p \<in> set ps \<Longrightarrow> \<exists>t. JSON_stringify (snd p) = Text t \<and> reads t (snd p)"
  shows "\<exists>ts. obj_texts (map (\<lambda>(k, v). (k, JSON_stringify v)) ps) = Inr ts \<and>
    list_all2 entry_reads ts ps"
  using assms
proof (induction ps)
  case (Cons p ps)
  obtain t where t: "JSON_stringify (snd p) = Text t" "reads t (snd p)"
    using Cons.prems [of p] by auto
  obtain ts where ts: "obj_texts (map (\<lambda>(k, v). (k, JSON_stringify v)) ps) = Inr ts"
    "list_all2 entry_reads ts ps"
    using Cons.IH Cons.prems by auto
  obtain k v where p: "p = (k, v)" by (cases p)
  have "entry_reads (quote k @ 58 # t) p" using t p by (auto simp: entry_reads_def)
  then show ?case
    by (intro exI [of _ "(quote k @ 58 # t) # ts"]) (use t ts p in auto)
qed simp

lemma stringify_reads: "wf_json v \<Longrightarrow> \<exists>t. JSON_stringify v = Text t \<and> reads t v"
proof (induction v)
  case (Num x)
  then show ?case by (auto simp: is_finite_def reads_number split: number.splits)
next
  case (Arr xs)
  then have "\<exists>ts. arr_texts (map JSON_stringify xs) = Inr ts \<and> list_all2 reads ts xs"
    by (intro arr_texts_reads) auto
  then show ?case by (auto simp: wrap_def reads_array)
next
  case (Obj ps)
  then have "\<exists>ts. obj_texts (map (\<lambda>(k, v). (k, JSON_stringify v)) ps) = Inr ts \<and>
      list_all2 entry_reads ts ps"
    by (intro obj_texts_reads) (force simp: snds.simps)
  with Obj.prems show ?case by (auto simp: wrap_def reads_object)
qed (auto simp: reads_literals reads_string)

lemma json_roundtrip:
  assumes "wf_json v"
  obtains t where "JSON_stringify v = Text t" "JSON_parse t = Some v"
proof -
  obtain t where t: "JSON_stringify v = Text t" "reads t v" using stringify_reads [OF assms] by blast
  have "parse_value (json_fuel t) (t @ []) = Some (v, [])"
    using t(2) by (rule readsD) (simp_all add: json_fuel_def)
  then have "JSON_parse t = Some v" by (simp add: JSON_parse_def skip_space_def)
  with t(1) show thesis by (rule that)
qed

section \<open>Parsed values\<close>

text \<open>
  What \<open>JSON.parse\<close> returns: well-formed but for numbers too big for a double, which it reads as
  an infinity. \<open>JSON.stringify\<close> prints those as \<open>null\<close>; \<open>nullify\<close> is the value after such a
  detour.
\<close>

fun parsed_json :: "jsval \<Rightarrow> bool" where
  "parsed_json (Num x) = (case x of Fin r \<Rightarrow> is_double r | NaN \<Rightarrow> False | _ \<Rightarrow> True)"
| "parsed_json (Arr xs) = (\<forall>x \<in> set xs. parsed_json x)"
| "parsed_json (Obj ps) = (canonical ps \<and> (\<forall>p \<in> set ps. parsed_json (snd p)))"
| "parsed_json Null = True"
| "parsed_json (Bool b) = True"
| "parsed_json (Str s) = True"
| "parsed_json _ = False"

fun nullify :: "jsval \<Rightarrow> jsval" where
  "nullify (Num x) = (if is_finite x then Num x else Null)"
| "nullify (Arr xs) = Arr (map nullify xs)"
| "nullify (Obj ps) = Obj (map (\<lambda>(k, v). (k, nullify v)) ps)"
| "nullify v = v"

lemma nullify_wf: "parsed_json v \<Longrightarrow> wf_json (nullify v)"
proof (induction v rule: nullify.induct)
  case (1 x)
  then show ?case by (cases x) (auto simp: is_finite_def)
next
  case (3 ps)
  have "map fst (map (\<lambda>(k, v). (k, nullify v)) ps) = map fst ps" by (induction ps) auto
  then have "canonical (map (\<lambda>(k, v). (k, nullify v)) ps) = canonical ps"
    by (simp only: canonical_def)
  with 3 show ?case by auto
qed auto

lemma stringify_nullify: "JSON_stringify (nullify v) = JSON_stringify v"
proof (induction v rule: nullify.induct)
  case (2 xs)
  then have "map (JSON_stringify \<circ> nullify) xs = map JSON_stringify xs" by simp
  then show ?case by (simp only: nullify.simps JSON_stringify.simps map_map)
next
  case (3 ps)
  then have "map ((\<lambda>(k, v). (k, JSON_stringify v)) \<circ> (\<lambda>(k, v). (k, nullify v))) ps =
      map (\<lambda>(k, v). (k, JSON_stringify v)) ps" by (auto simp: case_prod_unfold)
  then show ?case by (simp only: nullify.simps JSON_stringify.simps map_map)
qed (simp_all add: is_finite_def)

lemma map_of_nullify: "map_of (map (\<lambda>(k, v). (k, nullify v)) ps) k = map_option nullify (map_of ps k)"
  by (induction ps) auto

lemma to_double_parsed: "parsed_json (Num (to_double x))"
proof (cases "to_double x")
  case NaN
  then show ?thesis by (auto simp: to_double_def Let_def split: if_splits)
qed (auto dest: to_double_is_double)

lemma set_update: "set (AList.update k v ps) \<subseteq> insert (k, v) (set ps)"
  by (induction ps) auto

lemma set_obj_put: "set (obj_put ps p) \<subseteq> insert p (set ps)"
proof (cases p)
  case (Pair k v)
  then show ?thesis
    using set_update [of k v ps] by (auto simp: obj_put_def set_put_index split: option.splits)
qed

lemma set_fold_obj_put: "set (foldl obj_put ps qs) \<subseteq> set ps \<union> set qs"
proof (induction qs arbitrary: ps)
  case (Cons q qs)
  then show ?case using set_obj_put [of ps q] by fastforce
qed simp

lemma parsed_make_obj: "\<forall>p \<in> set ps. parsed_json (snd p) \<Longrightarrow> parsed_json (make_obj ps)"
  using set_fold_obj_put [of "[]" ps] canonical_fold [of "[]" ps]
  by (auto simp: make_obj_def canonical_def)

lemma parsed_atom: "parse_atom s = Some (v, r) \<Longrightarrow> parsed_json v"
  by (auto simp: parse_atom_def literal_def to_double_parsed split: list.splits if_splits
      simp del: parsed_json.simps(1))

lemma parse_parsed:
  shows "parse_value f s = Some (v, r) \<Longrightarrow> parsed_json v"
    and "parse_elems f s = Some (vs, r) \<Longrightarrow> \<forall>v \<in> set vs. parsed_json v"
    and "parse_members f s = Some (ps, r) \<Longrightarrow> \<forall>p \<in> set ps. parsed_json (snd p)"
proof (induction f s and f s and f s arbitrary: v r and vs r and ps r
    rule: parse_value_parse_elems_parse_members.induct)
  case (2 f s)
  then show ?case
    by (fastforce split: list.splits if_splits dest: parsed_atom intro: parsed_make_obj
        simp: canonical_def)
next
  case (4 f s)
  then show ?case
    by (fastforce split: list.splits if_splits option.splits simp: push_Some)
next
  case (6 f s)
  then show ?case
    by (fastforce split: list.splits if_splits option.splits simp: push_Some)
qed simp_all

lemma JSON_parse_parsed: "JSON_parse s = Some v \<Longrightarrow> parsed_json v"
  by (auto simp: JSON_parse_def split: option.splits if_splits dest: parse_parsed(1))

text \<open>A parsed value printed and parsed again is the value with infinities replaced.\<close>

lemma json_reparse:
  assumes "parsed_json v"
  obtains t where "JSON_stringify v = Text t" "JSON_parse t = Some (nullify v)"
proof -
  obtain t where "JSON_stringify (nullify v) = Text t" "JSON_parse t = Some (nullify v)"
    using json_roundtrip [OF nullify_wf [OF assms]] .
  then show thesis using that stringify_nullify by metis
qed

end
