(* ===== verification/Common.thy ===== *)
theory Common
  imports JSON_Roundtrip
begin

text \<open>
  The helpers of \<open>src/common\<close>: environment flags and bounded integers (\<open>env.ts\<close>), the match of
  AWS errors by name or code (\<open>aws-error.ts\<close>) and the bounded retry with exponential backoff
  (\<open>retry.ts\<close>). Console warnings and retry hooks are returned as output lists; the task of a
  retry is a function on an explicit world.
\<close>

section \<open>Environment flags\<close>

text \<open>\<open>process.env\<close>.\<close>

type_synonym environment = "jstr \<Rightarrow> jstr option"

definition ENABLED_VALUES :: "jstr list" where
  "ENABLED_VALUES = [str ''true'', str ''1'', str ''yes'']"

definition DISABLED_VALUES :: "jstr list" where
  "DISABLED_VALUES = [str ''false'', str ''0'', str ''no'']"

record env_flag_options =
  flag_defaultValue :: "bool option"
  flag_warnOnUnknown :: "bool option"
  flag_label :: "jstr option"

definition no_flag_options :: env_flag_options where
  "no_flag_options = \<lparr>flag_defaultValue = None, flag_warnOnUnknown = None, flag_label = None\<rparr>"

definition or_default :: "'a \<Rightarrow> 'a option \<Rightarrow> 'a" where
  "or_default d x = (case x of None \<Rightarrow> d | Some v \<Rightarrow> v)"

definition parseEnvFlag :: "jstr option \<Rightarrow> env_flag_options \<Rightarrow> bool \<times> jstr list" where
  "parseEnvFlag value options =
     (let defaultValue = or_default False (flag_defaultValue options);
          warnOnUnknown = or_default False (flag_warnOnUnknown options);
          normalized = (case value of None \<Rightarrow> [] | Some v \<Rightarrow> to_lower (trim v))
      in if normalized = [] then (defaultValue, [])
         else if normalized \<in> set ENABLED_VALUES then (True, [])
         else if normalized \<in> set DISABLED_VALUES then (False, [])
         else if warnOnUnknown then
           (defaultValue,
            [str ''[env] unknown '' @ or_default (str ''flag'') (flag_label options) @ str '' \"''
             @ or_default [] value @ str ''\", defaulting to ''
             @ (if defaultValue then str ''enabled'' else str ''disabled'')])
         else (defaultValue, []))"

section \<open>Bounded integers\<close>

record bounded_int_options =
  int_defaultValue :: number
  int_min :: number
  int_max :: "number option"
  int_label :: jstr

definition parseBoundedInt :: "jstr option \<Rightarrow> bounded_int_options \<Rightarrow> number throws" where
  "parseBoundedInt raw options =
     (case raw of
        None \<Rightarrow> Inr (int_defaultValue options)
      | Some r \<Rightarrow>
          if r = [] then Inr (int_defaultValue options)
          else (let parsed = js_Number r in
                if \<not> is_integer parsed \<or> num_less parsed (int_min options)
                   \<or> (case int_max options of None \<Rightarrow> False | Some m \<Rightarrow> num_less m parsed)
                then Inl (new_error (str ''Invalid '' @ int_label options @ str '': '' @ r))
                else Inr parsed))"

definition in_bounds :: "bounded_int_options \<Rightarrow> number \<Rightarrow> bool" where
  "in_bounds options x \<longleftrightarrow> is_integer x \<and> \<not> num_less x (int_min options) \<and>
     (case int_max options of None \<Rightarrow> True | Some m \<Rightarrow> \<not> num_less m x)"

section \<open>AWS errors\<close>

definition isAwsError :: "jsval \<Rightarrow> jstr \<Rightarrow> bool" where
  "isAwsError err code \<longleftrightarrow> is_object err \<and>
     (get_prop err (str ''name'') = Str code \<or> get_prop err (str ''code'') = Str code)"

section \<open>Bounded retry\<close>

definition DEFAULT_ATTEMPTS :: int where "DEFAULT_ATTEMPTS = 10"
definition DEFAULT_INITIAL_DELAY_MS :: int where "DEFAULT_INITIAL_DELAY_MS = 500"
definition DEFAULT_MAX_DELAY_MS :: int where "DEFAULT_MAX_DELAY_MS = 5000"

record retry_options =
  attempts :: "int option"
  initialDelayMs :: "int option"
  maxDelayMs :: "int option"
  onAttemptFailed :: bool \<comment> \<open>whether a hook is given\<close>
  failureMessage :: "jstr option"

datatype retry_event = AttemptFailed int int jsval | Sleep int

definition retry_attempts :: "retry_options \<Rightarrow> int" where
  "retry_attempts options = or_default DEFAULT_ATTEMPTS (attempts options)"

text \<open>\<open>Math.min(initialDelayMs * 2 ** (attempt - 1), maxDelayMs)\<close>.\<close>

definition backoff_delay :: "retry_options \<Rightarrow> int \<Rightarrow> int" where
  "backoff_delay options attempt =
     min (or_default DEFAULT_INITIAL_DELAY_MS (initialDelayMs options) * 2 ^ nat (attempt - 1))
         (or_default DEFAULT_MAX_DELAY_MS (maxDelayMs options))"

text \<open>What a failed attempt that is not the last one does before the next.\<close>

definition after_failure :: "retry_options \<Rightarrow> int \<Rightarrow> jsval \<Rightarrow> retry_event list" where
  "after_failure options attempt err =
     (if attempt < retry_attempts options then
        (if onAttemptFailed options then [AttemptFailed attempt (retry_attempts options) err] else [])
        @ [Sleep (backoff_delay options attempt)]
      else [])"

definition retry_failure :: "retry_options \<Rightarrow> jsval \<Rightarrow> jsval" where
  "retry_failure options lastError =
     (if is_error lastError then lastError
      else new_error (or_default (str ''Failed after '' @ int_text (retry_attempts options) @ str '' attempts'')
                        (failureMessage options)))"

function retry_loop ::
  "('w \<Rightarrow> 'a throws \<times> 'w) \<Rightarrow> retry_options \<Rightarrow> int \<Rightarrow> jsval \<Rightarrow> 'w
     \<Rightarrow> 'a throws \<times> 'w \<times> retry_event list" where
  "retry_loop task options attempt lastError w =
     (if attempt \<le> retry_attempts options then
        (case task w of
           (Inr v, w') \<Rightarrow> (Inr v, w', [])
         | (Inl err, w') \<Rightarrow>
             (case retry_loop task options (attempt + 1) err w' of
                (r, w'', evs) \<Rightarrow> (r, w'', after_failure options attempt err @ evs)))
      else (Inl (retry_failure options lastError), w, []))"
  by pat_completeness auto
termination
  by (relation "measure (\<lambda>(_, options, attempt, _). nat (retry_attempts options + 1 - attempt))") auto

declare retry_loop.simps [simp del]

definition withBoundedRetry ::
  "('w \<Rightarrow> 'a throws \<times> 'w) \<Rightarrow> retry_options \<Rightarrow> 'w \<Rightarrow> 'a throws \<times> 'w \<times> retry_event list" where
  "withBoundedRetry task options w = retry_loop task options 1 Undefined w"

section \<open>Facts\<close>

lemma parseBoundedInt_Inr:
  "parseBoundedInt raw options = Inr x \<Longrightarrow> x = int_defaultValue options \<or> in_bounds options x"
  by (auto simp: parseBoundedInt_def in_bounds_def Let_def split: option.splits if_splits)

text \<open>The decimal text of an integer a double can hold is read as that integer.\<close>

lemma to_double_nat:
  assumes "n \<le> 2 ^ 53"
  shows "to_double (of_nat n) = Fin (of_nat n)"
proof (cases "n = 0")
  case False
  have "int n \<le> int (2 ^ 53)" using assms by (simp only: of_nat_le_iff)
  then have le: "int n \<le> 2 ^ 53" by (simp only: of_nat_power of_nat_numeral)
  then obtain m' where "(of_nat n :: rat) = of_int m' * 2 powi ulp_exp (of_nat n)"
    using multiple_of_ulp [of "int n" 0 "of_nat n"] False by auto
  then have r: "round_double (of_nat n) = of_nat n" by (rule round_double_exact)
  have "(of_int (int n) :: rat) \<le> of_int (2 ^ 53)" using le by (simp only: of_int_le_iff)
  also have "\<dots> < 2 powi 1024" by simp
  finally have "\<not> (2 :: rat) powi 1024 \<le> of_nat n" by simp
  with r False show ?thesis by (simp add: to_double_def)
qed (simp add: to_double_def)

lemma to_double_int:
  assumes "\<bar>i\<bar> \<le> 2 ^ 53"
  shows "to_double (of_int i) = Fin (of_int i)"
proof -
  have "nat \<bar>i\<bar> \<le> 2 ^ 53" using assms by simp
  then have "is_double (of_nat (nat \<bar>i\<bar>))" unfolding is_double_def by (rule to_double_nat)
  then have "is_double (of_int \<bar>i\<bar>)" by simp
  then show ?thesis by (cases "0 \<le> i") (simp_all add: is_double_def [symmetric])
qed

lemma digit_not_space: "is_digit c \<Longrightarrow> \<not> js_space c"
  by (auto simp: is_digit_def js_space_def word_le_nat_alt)

lemma digits_trim:
  assumes "list_all is_digit ds" "ds \<noteq> []"
  shows "trim ds = ds"
  using assms by (intro trim_id) (auto simp: list_all_iff intro!: digit_not_space)

lemma decimal_literal_digits:
  assumes "list_all is_digit ds" "ds \<noteq> []"
  shows "decimal_literal ds = Some (of_nat (digits_val 0 ds))"
proof -
  have tw: "takeWhile is_digit ds = ds" "dropWhile is_digit ds = []"
    using assms takeWhile_digits [of ds "[]"] by auto
  show ?thesis
    unfolding decimal_literal_def tw using assms by (simp add: scan_exp_def dec_value_def)
qed

lemma radix_literal_digits: "list_all is_digit ds \<Longrightarrow> radix_literal ds = None"
  by (auto simp: radix_literal_def is_digit_def cu_def split: list.splits)

lemma js_Number_dec_digits:
  assumes "n \<le> 2 ^ 53"
  shows "js_Number (dec_digits n) = Fin (of_nat n)"
proof -
  note d = dec_digits_digits [of n]
  obtain c t where ct: "dec_digits n = c # t" by (cases "dec_digits n") auto
  have c: "is_digit c" using d ct by simp
  then have s: "scan_sign (dec_digits n) = (False, dec_digits n)"
    by (auto simp: scan_sign_def ct is_digit_def unit_values)
  have "dec_digits n \<noteq> str ''Infinity''"
    using c ct by (auto simp: str_def cu_def is_digit_def)
  with s d assms show ?thesis
    by (simp add: js_Number_def digits_trim radix_literal_digits decimal_literal_digits to_double_nat)
qed

text \<open>The retry loop on a task whose outcomes are given in advance.\<close>

fun scripted :: "'a throws list \<Rightarrow> 'a throws \<times> 'a throws list" where
  "scripted (r # rs) = (r, rs)"
| "scripted [] = (Inl Undefined, [])"

fun failures :: "retry_options \<Rightarrow> int \<Rightarrow> jsval list \<Rightarrow> retry_event list" where
  "failures options attempt [] = []"
| "failures options attempt (e # es) =
     after_failure options attempt e @ failures options (attempt + 1) es"

lemma retry_loop_success:
  "attempt + int (length es) \<le> retry_attempts options \<Longrightarrow>
     retry_loop scripted options attempt lst (map Inl es @ Inr v # rest) =
       (Inr v, rest, failures options attempt es)"
  by (induction es arbitrary: attempt lst) (simp_all add: retry_loop.simps)

lemma retry_loop_exhausted:
  "attempt + int (length es) = retry_attempts options + 1 \<Longrightarrow>
     retry_loop scripted options attempt lst (map Inl es @ rest) =
       (Inl (retry_failure options (last (lst # es))), rest, failures options attempt es)"
  by (induction es arbitrary: attempt lst) (simp_all add: retry_loop.simps)

fun sleeps :: "retry_event list \<Rightarrow> int list" where
  "sleeps [] = []"
| "sleeps (Sleep d # evs) = d # sleeps evs"
| "sleeps (AttemptFailed _ _ _ # evs) = sleeps evs"

lemma sleeps_append [simp]: "sleeps (a @ b) = sleeps a @ sleeps b"
  by (induction a rule: sleeps.induct) auto

lemma sleeps_failures:
  "attempt + int (length es) \<le> retry_attempts options \<Longrightarrow>
     sleeps (failures options attempt es) =
       map (\<lambda>i. backoff_delay options (attempt + int i)) [0..<length es]"
proof (induction es arbitrary: attempt)
  case (Cons e es)
  have "map (\<lambda>i. backoff_delay options (attempt + int i)) [0..<length (e # es)] =
      backoff_delay options attempt # map (\<lambda>i. backoff_delay options (attempt + 1 + int i)) [0..<length es]"
    by (simp add: upt_conv_Cons map_Suc_upt [symmetric] comp_def algebra_simps del: upt_Suc)
  with Cons show ?case by (simp add: after_failure_def)
qed simp

lemma backoff_le: "backoff_delay options attempt \<le> or_default DEFAULT_MAX_DELAY_MS (maxDelayMs options)"
  by (simp add: backoff_delay_def)

lemma backoff_nonneg:
  "0 \<le> or_default DEFAULT_INITIAL_DELAY_MS (initialDelayMs options) \<Longrightarrow>
   0 \<le> or_default DEFAULT_MAX_DELAY_MS (maxDelayMs options) \<Longrightarrow> 0 \<le> backoff_delay options attempt"
  by (simp add: backoff_delay_def)

section \<open>Properties\<close>

text \<open>C21: A task that fails fewer times than the attempt budget allows is retried until its first
  success, whose value is returned without a further attempt; before the \<open>i\<close>-th retry the loop
  sleeps the initial delay doubled \<open>i\<close> times, capped at the maximum.\<close>

theorem retry_returns_first_success:
  assumes "int (length es) < retry_attempts options"
  shows "\<exists>evs. withBoundedRetry scripted options (map Inl es @ Inr v # rest) = (Inr v, rest, evs) \<and>
    sleeps evs = map (\<lambda>i. min (or_default DEFAULT_INITIAL_DELAY_MS (initialDelayMs options) * 2 ^ i)
                             (or_default DEFAULT_MAX_DELAY_MS (maxDelayMs options))) [0..<length es]"
proof (intro exI conjI)
  show "withBoundedRetry scripted options (map Inl es @ Inr v # rest) = (Inr v, rest, failures options 1 es)"
    using assms by (simp add: withBoundedRetry_def retry_loop_success)
  show "sleeps (failures options 1 es) =
      map (\<lambda>i. min (or_default DEFAULT_INITIAL_DELAY_MS (initialDelayMs options) * 2 ^ i)
               (or_default DEFAULT_MAX_DELAY_MS (maxDelayMs options))) [0..<length es]"
    using sleeps_failures [of 1 es options] assms by (simp add: backoff_delay_def)
qed

theorem retry_returns_first_success_witness:
  "\<exists>evs. withBoundedRetry scripted
       \<lparr>attempts = Some 5, initialDelayMs = Some 50, maxDelayMs = Some 500, onAttemptFailed = False, failureMessage = None\<rparr>
       [Inl Null, Inl Null, Inr (7 :: nat)] = (Inr 7, [], evs) \<and> sleeps evs = [50, 100]"
  using retry_returns_first_success [of "[Null, Null]"
      "\<lparr>attempts = Some 5, initialDelayMs = Some 50, maxDelayMs = Some 500, onAttemptFailed = False, failureMessage = None\<rparr>"
      "7 :: nat" "[]"]
  by (simp add: retry_attempts_def or_default_def)

text \<open>C22: A task that fails as often as the budget allows is attempted exactly that often and then
  the last error is rethrown, or replaced by one with the configured message when it is not an
  \<open>Error\<close>.\<close>

theorem retry_rethrows_last_error:
  assumes "int (length es) = retry_attempts options" and "es \<noteq> []"
  shows "\<exists>evs. withBoundedRetry scripted options (map Inl es @ rest) =
      (Inl (if is_error (last es) then last es
            else new_error (or_default (str ''Failed after '' @ int_text (retry_attempts options) @ str '' attempts'')
                              (failureMessage options))), rest, evs) \<and>
    length (sleeps evs) + 1 = length es"
proof -
  have run: "withBoundedRetry scripted options (map Inl es @ rest) =
      (Inl (retry_failure options (last es)), rest, failures options 1 es)"
    using retry_loop_exhausted [of 1 es options Undefined rest] assms by (simp add: withBoundedRetry_def)
  obtain fs e where es: "es = fs @ [e]" using assms(2) by (metis append_butlast_last_id)
  have split: "failures options k (fs @ [e]) = failures options k fs @ after_failure options (k + int (length fs)) e" for k
    by (induction fs arbitrary: k) (simp_all add: algebra_simps)
  have "after_failure options (1 + int (length fs)) e = []" using assms(1) es by (simp add: after_failure_def)
  then have "length (sleeps (failures options 1 es)) + 1 = length es"
    using sleeps_failures [of 1 fs options] assms(1) es by (simp add: split)
  with run show ?thesis by (auto simp: retry_failure_def)
qed

theorem retry_rethrows_last_error_witness:
  "\<exists>evs. withBoundedRetry scripted
       \<lparr>attempts = Some 2, initialDelayMs = None, maxDelayMs = None, onAttemptFailed = False, failureMessage = Some (str ''down'')\<rparr>
       [Inl Null, Inl Null :: nat throws] = (Inl (new_error (str ''down'')), [], evs) \<and> length (sleeps evs) + 1 = 2"
  using retry_rethrows_last_error [of "[Null, Null]"
      "\<lparr>attempts = Some 2, initialDelayMs = None, maxDelayMs = None, onAttemptFailed = False, failureMessage = Some (str ''down'')\<rparr>"
      "[] :: nat throws list"]
  by (simp add: retry_attempts_def or_default_def)

text \<open>C40: Reading a bounded integer never yields a value outside its bounds other than the default
  of an unset variable, refuses with the variable's label otherwise, and accepts the decimal text
  of every natural number up to \<open>2\<^sup>5\<^sup>3\<close> within the bounds.\<close>

theorem bounded_int_is_bounded:
  "(case parseBoundedInt raw options of
      Inr x \<Rightarrow> raw \<in> {None, Some []} \<and> x = int_defaultValue options \<or> in_bounds options x
    | Inl e \<Rightarrow> \<exists>r. raw = Some r \<and> r \<noteq> [] \<and> e = new_error (str ''Invalid '' @ int_label options @ str '': '' @ r)) \<and>
   (n \<le> 2 ^ 53 \<and> in_bounds options (Fin (of_nat n)) \<longrightarrow>
      parseBoundedInt (Some (dec_digits n)) options = Inr (Fin (of_nat n)))"
proof -
  have "n \<le> 2 ^ 53 \<Longrightarrow> in_bounds options (Fin (of_nat n)) \<Longrightarrow>
      parseBoundedInt (Some (dec_digits n)) options = Inr (Fin (of_nat n))"
    using js_Number_dec_digits [of n]
    by (auto simp: parseBoundedInt_def in_bounds_def Let_def split: option.splits)
  then show ?thesis
    by (auto simp: parseBoundedInt_def in_bounds_def Let_def split: option.splits)
qed

theorem bounded_int_is_bounded_witness:
  "parseBoundedInt (Some (dec_digits 8080))
     \<lparr>int_defaultValue = Fin 3000, int_min = Fin 1, int_max = Some (Fin 65535), int_label = str ''PORT''\<rparr> = Inr (Fin 8080)"
  using bounded_int_is_bounded [of None
      "\<lparr>int_defaultValue = Fin 3000, int_min = Fin 1, int_max = Some (Fin 65535), int_label = str ''PORT''\<rparr>" 8080]
  by (simp add: in_bounds_def is_integer_def)

text \<open>An environment flag depends only on the trimmed, lower-cased text: a recognised value is
  taken whatever the default and never warned about, and anything else gives the default.\<close>

theorem env_flag_normalizes:
  "parseEnvFlag (Some value) options =
     (let n = to_lower (trim value); d = or_default False (flag_defaultValue options) in
      if n \<in> {str ''true'', str ''1'', str ''yes''} then (True, [])
      else if n \<in> {str ''false'', str ''0'', str ''no''} then (False, [])
      else (d, snd (parseEnvFlag (Some value) options))) \<and>
   fst (parseEnvFlag (Some (trim value)) options) = fst (parseEnvFlag (Some value) options) \<and>
   parseEnvFlag None options = (or_default False (flag_defaultValue options), [])"
  by (auto simp: parseEnvFlag_def Let_def ENABLED_VALUES_def DISABLED_VALUES_def)

end
