(* ===== verification/Identity.thy ===== *)
theory Identity
  imports Common
begin

text \<open>
  \<open>src/ws/session.interface.ts\<close>: the identifiers of a WebSocket session, the routing decision
  for an inbound frame and the authorization of an upgrade request. The WHATWG URL parser and the
  token verifier are parameters: \<open>url_params\<close> gives the query lookup of a request URL resolved
  against \<open>http://localhost\<close> (\<open>None\<close> when the URL constructor throws), \<open>verify\<close> the claims of a
  token or the error it throws.
\<close>

type_synonym user_id = jstr
type_synonym client_id = jstr

definition SEND_MESSAGE_OP :: jstr where "SEND_MESSAGE_OP = str ''sendMessage''"
definition SEND_MESSAGE_ERROR_OP :: jstr where "SEND_MESSAGE_ERROR_OP = str ''error''"

section \<open>Identifiers\<close>

definition parseNonBlank :: "jsval \<Rightarrow> jstr option" where
  "parseNonBlank v = (case v of Str s \<Rightarrow> if trim s = [] then None else Some s | _ \<Rightarrow> None)"

definition parseUserId :: "jsval \<Rightarrow> user_id option" where
  "parseUserId v = (case parseNonBlank v of None \<Rightarrow> None | Some p \<Rightarrow> Some p)"

definition parseClientId :: "jsval \<Rightarrow> client_id option" where
  "parseClientId v = (case parseNonBlank v of None \<Rightarrow> None | Some p \<Rightarrow> Some p)"

definition parseToken :: "jsval \<Rightarrow> jstr option" where
  "parseToken v = parseNonBlank v"

section \<open>Inbound frames\<close>

text \<open>A socket payload is a string or an object (a \<open>Buffer\<close>), given by the text \<open>String(data)\<close>
  has.\<close>

datatype raw_data = RawString jstr | RawObject jstr

fun raw_text :: "raw_data \<Rightarrow> jstr" where
  "raw_text (RawString s) = s"
| "raw_text (RawObject s) = s"

datatype inbound_frame = Send user_id jsval | Ignore jstr | Invalid jstr

definition parseInboundFrame :: "raw_data \<Rightarrow> inbound_frame" where
  "parseInboundFrame raw =
     (case JSON_parse (raw_text raw) of
        None \<Rightarrow> Ignore (str ''non-JSON'')
      | Some parsed \<Rightarrow>
          if \<not> is_object parsed then Ignore (str ''non-object'')
          else if get_prop parsed (str ''op'') \<noteq> Str SEND_MESSAGE_OP then Ignore (str ''unknown op'')
          else (case parseUserId (get_prop parsed (str ''target'')) of
             None \<Rightarrow> Invalid (str ''invalid target'')
           | Some target \<Rightarrow>
               if \<not> has_prop parsed (str ''message'') \<or> get_prop parsed (str ''message'') = Undefined
               then Ignore (str ''missing message'')
               else Send target (get_prop parsed (str ''message''))))"

definition canSendTo :: "user_id \<Rightarrow> user_id \<Rightarrow> bool" where
  "canSendTo sender target = True"

section \<open>Gateway identity\<close>

record gateway_identity =
  gi_userId :: "user_id option"
  gi_clientId :: "client_id option"
  gi_token :: "jstr option"

datatype resolve_result = Authorized user_id client_id number | Rejected jstr

definition no_identity :: gateway_identity where
  "no_identity = \<lparr>gi_userId = None, gi_clientId = None, gi_token = None\<rparr>"

definition hasUpgradeUrl :: "jsval \<Rightarrow> bool" where
  "hasUpgradeUrl v \<longleftrightarrow>
     is_object v \<and> has_prop v (str ''url'') \<and>
     (case get_prop v (str ''url'') of Undefined \<Rightarrow> True | Str _ \<Rightarrow> True | _ \<Rightarrow> False)"

text \<open>\<open>URLSearchParams.get\<close>: the value or \<open>null\<close>.\<close>

definition or_null :: "jstr option \<Rightarrow> jsval" where
  "or_null v = (case v of None \<Rightarrow> Null | Some s \<Rightarrow> Str s)"

type_synonym url_params = "jstr \<Rightarrow> (jstr \<Rightarrow> jstr option) option"

definition extractGatewayIdentity :: "url_params \<Rightarrow> jsval list \<Rightarrow> gateway_identity" where
  "extractGatewayIdentity url_params args =
     (let request = (case args of [] \<Rightarrow> Undefined | a # _ \<Rightarrow> a) in
      if \<not> hasUpgradeUrl request then no_identity
      else (case get_prop request (str ''url'') of
         Str url \<Rightarrow>
           (case url_params url of
              None \<Rightarrow> no_identity
            | Some params \<Rightarrow>
                \<lparr>gi_userId = parseUserId (or_null (params (str ''userId''))),
                 gi_clientId = parseClientId (or_null (params (str ''clientId''))),
                 gi_token = parseToken (or_null (params (str ''token'')))\<rparr>)
       | _ \<Rightarrow> no_identity))"

text \<open>The claims the gateway reads. The verifier checks the type of \<open>exp\<close> only, so \<open>sub\<close> is any
  value.\<close>

record gateway_claims =
  claim_sub :: jsval
  claim_exp :: number

definition seconds_to_ms :: "number \<Rightarrow> number" where
  "seconds_to_ms x = (case x of Fin r \<Rightarrow> to_double (r * 1000) | _ \<Rightarrow> x)"

definition resolveGatewayIdentity ::
  "gateway_identity \<Rightarrow> (jstr \<Rightarrow> gateway_claims throws) \<Rightarrow> resolve_result" where
  "resolveGatewayIdentity identity verify =
     (case gi_token identity of
        None \<Rightarrow> Rejected (str ''missing token'')
      | Some token \<Rightarrow>
          (case verify token of
             Inl _ \<Rightarrow> Rejected (str ''invalid token'')
           | Inr payload \<Rightarrow>
               if claim_sub payload = Undefined then Rejected (str ''missing token subject'')
               else (case (gi_userId identity, gi_clientId identity) of
                  (Some userId, Some clientId) \<Rightarrow>
                    if claim_sub payload \<noteq> Str userId then Rejected (str ''token subject mismatch'')
                    else Authorized userId clientId (seconds_to_ms (claim_exp payload))
                | _ \<Rightarrow> Rejected (str ''missing userId/clientId''))))"

section \<open>Facts\<close>

definition non_blank :: "jstr \<Rightarrow> bool" where
  "non_blank s \<longleftrightarrow> trim s \<noteq> []"

lemma parseNonBlank_iff: "parseNonBlank v = Some s \<longleftrightarrow> v = Str s \<and> non_blank s"
  by (auto simp: parseNonBlank_def non_blank_def split: jsval.splits if_splits)

lemma parse_ids: "parseUserId v = parseNonBlank v" "parseClientId v = parseNonBlank v"
  "parseToken v = parseNonBlank v"
  by (simp_all add: parseUserId_def parseClientId_def parseToken_def split: option.split)

lemma parseNonBlank_None: "parseNonBlank v = None \<longleftrightarrow> (\<forall>s. v = Str s \<longrightarrow> \<not> non_blank s)"
  by (auto simp: parseNonBlank_def non_blank_def split: jsval.splits)

lemma or_null_iff: "or_null v = Str s \<longleftrightarrow> v = Some s"
  by (auto simp: or_null_def split: option.splits)

lemma parseInboundFrame_Send:
  "parseInboundFrame raw = Send t m \<longleftrightarrow>
     (\<exists>v. JSON_parse (raw_text raw) = Some v \<and> get_prop v (str ''op'') = Str SEND_MESSAGE_OP \<and>
        get_prop v (str ''target'') = Str t \<and> non_blank t \<and> has_prop v (str ''message'') \<and>
        get_prop v (str ''message'') = m \<and> m \<noteq> Undefined)"
proof (cases "JSON_parse (raw_text raw)")
  case (Some v)
  have o: "get_prop v (str ''op'') = Str SEND_MESSAGE_OP \<Longrightarrow> is_object v" by (cases v) auto
  show ?thesis
    using o parseNonBlank_iff [of "get_prop v (str ''target'')" t]
    by (cases "parseNonBlank (get_prop v (str ''target''))")
      (auto simp: parseInboundFrame_def Some parse_ids)
qed (simp add: parseInboundFrame_def)

lemma get_prop_parsed: "parsed_json v \<Longrightarrow> has_prop v k \<Longrightarrow> parsed_json (get_prop v k)"
proof (cases v)
  case (Obj ps)
  assume "parsed_json v" "has_prop v k"
  with Obj obtain x where x: "map_of ps k = Some x" and "\<forall>p \<in> set ps. parsed_json (snd p)" by auto
  then have "parsed_json x" by (metis map_of_SomeD snd_conv)
  with Obj x show ?thesis by (simp add: or_undefined_def)
qed auto

text \<open>A routed message is a value of \<open>JSON.parse\<close>.\<close>

lemma parseInboundFrame_parsed: "parseInboundFrame raw = Send t m \<Longrightarrow> parsed_json m \<and> non_blank t"
  using JSON_parse_parsed get_prop_parsed unfolding parseInboundFrame_Send by blast

lemma resolve_Authorized:
  "resolveGatewayIdentity identity verify = Authorized u c e \<longleftrightarrow>
     (\<exists>token p. gi_token identity = Some token \<and> verify token = Inr p \<and> claim_sub p = Str u \<and>
        gi_userId identity = Some u \<and> gi_clientId identity = Some c \<and> e = seconds_to_ms (claim_exp p))"
  by (auto simp: resolveGatewayIdentity_def split: option.splits sum.splits if_splits)

lemma array_index_digits: "array_index k = Some i \<Longrightarrow> list_all is_digit k"
  using dec_digits_digits by (auto simp: array_index_def Let_def split: if_splits)

lemma str_key_not_index: "\<not> is_digit (cu c) \<Longrightarrow> array_index (str (c # cs)) = None"
  using array_index_digits [of "str (c # cs)"] by (cases "array_index (str (c # cs))") (auto simp: str_def)

lemma frame_keys [simp]:
  "array_index (str ''op'') = None" "array_index (str ''target'') = None" "array_index (str ''message'') = None"
  by (rule str_key_not_index, simp add: cu_def is_digit_def)+

text \<open>The frame a client sends for \<open>sendMessage\<close>.\<close>

definition send_frame :: "user_id \<Rightarrow> jsval \<Rightarrow> jsval" where
  "send_frame target message =
     Obj [(str ''op'', Str SEND_MESSAGE_OP), (str ''target'', Str target), (str ''message'', message)]"

lemma send_frame_routed:
  assumes "wf_json message"
  shows "\<exists>text. JSON_stringify (send_frame target message) = Text text \<and>
    parseInboundFrame (RawString text) =
      (if non_blank target then Send target message else Invalid (str ''invalid target''))"
proof -
  have "wf_json (send_frame target message)"
    using assms by (simp add: send_frame_def canonical_def key_less_def)
  then obtain t where t: "JSON_stringify (send_frame target message) = Text t"
    "JSON_parse t = Some (send_frame target message)" by (rule json_roundtrip)
  have "message \<noteq> Undefined" using assms by auto
  moreover have "parseNonBlank (Str target) = (if non_blank target then Some target else None)"
    by (simp add: parseNonBlank_def non_blank_def)
  ultimately have "parseInboundFrame (RawString t) =
      (if non_blank target then Send target message else Invalid (str ''invalid target''))"
    by (simp add: parseInboundFrame_def t(2) send_frame_def or_undefined_def parse_ids)
  with t(1) show ?thesis by blast
qed

section \<open>Properties\<close>

text \<open>An upgrade is authorized exactly when it carries a token the verifier accepts whose
  subject is the requested user, with a client id; the session then expires with the token. Any
  other request is rejected.\<close>

theorem authorized_means_verified:
  "resolveGatewayIdentity identity verify = Authorized u c e \<longleftrightarrow>
     (\<exists>token claims. gi_token identity = Some token \<and> verify token = Inr claims \<and> claim_sub claims = Str u \<and>
        gi_userId identity = Some u \<and> gi_clientId identity = Some c \<and> e = seconds_to_ms (claim_exp claims))"
  by (rule resolve_Authorized)

text \<open>The identity of an upgrade is read from its query string only: a user, client or token is
  present exactly when the URL parses and has that parameter with a value that is not blank.\<close>

theorem identity_from_query:
  "(gi_userId (extractGatewayIdentity url_params args) = Some u \<longleftrightarrow>
      (\<exists>req rest url q. args = req # rest \<and> get_prop req (str ''url'') = Str url \<and> url_params url = Some q \<and>
         q (str ''userId'') = Some u \<and> non_blank u)) \<and>
   (gi_clientId (extractGatewayIdentity url_params args) = Some c \<longleftrightarrow>
      (\<exists>req rest url q. args = req # rest \<and> get_prop req (str ''url'') = Str url \<and> url_params url = Some q \<and>
         q (str ''clientId'') = Some c \<and> non_blank c)) \<and>
   (gi_token (extractGatewayIdentity url_params args) = Some t \<longleftrightarrow>
      (\<exists>req rest url q. args = req # rest \<and> get_prop req (str ''url'') = Str url \<and> url_params url = Some q \<and>
         q (str ''token'') = Some t \<and> non_blank t))"
proof (cases args)
  case (Cons req rest)
  have url: "get_prop req (str ''url'') = Str url \<Longrightarrow> hasUpgradeUrl req" for url
    by (cases req) (auto simp: hasUpgradeUrl_def or_undefined_def split: option.splits if_splits)
  show ?thesis
  proof (cases "\<exists>url. get_prop req (str ''url'') = Str url")
    case True
    then show ?thesis using url
      by (auto simp: extractGatewayIdentity_def Cons no_identity_def parse_ids parseNonBlank_iff or_null_iff
          split: option.splits)
  next
    case False
    then show ?thesis
      by (auto simp: extractGatewayIdentity_def Cons no_identity_def split: jsval.split)
  qed
qed (simp add: extractGatewayIdentity_def hasUpgradeUrl_def no_identity_def)

text \<open>The text a client prints for a \<open>sendMessage\<close> frame is routed to that target with that
  message, whatever JSON value the message is; with a blank target it is refused instead.\<close>

theorem client_frame_is_routed:
  assumes "wf_json message"
  shows "\<exists>text. JSON_stringify (send_frame target message) = Text text \<and>
    parseInboundFrame (RawString text) =
      (if non_blank target then Send target message else Invalid (str ''invalid target''))"
  by (rule send_frame_routed [OF assms])

theorem client_frame_is_routed_witness:
  "\<exists>text. JSON_stringify (send_frame (str ''bob'') (Arr [Bool True])) = Text text \<and>
     parseInboundFrame (RawString text) = Send (str ''bob'') (Arr [Bool True])"
proof -
  have "non_blank (str ''bob'')" by (simp add: non_blank_def trim_eq_Nil str_def cu_def js_space_def)
  with client_frame_is_routed [of "Arr [Bool True]" "str ''bob''"] show ?thesis by simp
qed

end
