(* ===== verification/Topic_Message.thy ===== *)
theory Topic_Message
  imports Identity
begin

text \<open>
  \<open>src/user-topics/user-topic.message.ts\<close>: the Redis channel of a user and the JSON envelope
  published on it. The properties say that the channel name determines the user and that a
  published envelope is read back with the payload and the excluded client it was built from.
\<close>

definition USER_CHANNEL_PREFIX :: jstr where "USER_CHANNEL_PREFIX = str ''user:''"

datatype envelope_result = EnvelopeOk jsval "client_id option" | EnvelopeInvalid jstr

definition channelFor :: "user_id \<Rightarrow> jstr" where
  "channelFor userId = USER_CHANNEL_PREFIX @ userId"

definition topic_envelope :: "jsval \<Rightarrow> client_id option \<Rightarrow> jsval" where
  "topic_envelope payload excludeClientId =
     Obj ((str ''payload'', payload) #
          (case excludeClientId of None \<Rightarrow> [] | Some c \<Rightarrow> [(str ''excludeClientId'', Str c)]))"

text \<open>\<open>JSON.stringify\<close> of an object is a string or throws.\<close>

definition buildUserTopicEnvelope :: "jsval \<Rightarrow> client_id option \<Rightarrow> jstr throws" where
  "buildUserTopicEnvelope payload excludeClientId =
     (case JSON_stringify (topic_envelope payload excludeClientId) of
        Text t \<Rightarrow> Inr t
      | Throws e \<Rightarrow> Inl e
      | Absent \<Rightarrow> Inl Undefined)"

definition parseUserTopicEnvelope :: "jstr \<Rightarrow> envelope_result" where
  "parseUserTopicEnvelope raw =
     (case JSON_parse raw of
        None \<Rightarrow> EnvelopeInvalid (str ''malformed JSON'')
      | Some parsed \<Rightarrow>
          if \<not> is_object parsed then EnvelopeInvalid (str ''envelope is not an object'')
          else if \<not> has_prop parsed (str ''payload'') then EnvelopeInvalid (str ''missing payload'')
          else (let raw_exclude = get_prop parsed (str ''excludeClientId'');
                    excludeClientId =
                      (case raw_exclude of Str _ \<Rightarrow> parseClientId raw_exclude | _ \<Rightarrow> None)
                in if raw_exclude \<noteq> Undefined \<and> excludeClientId = None
                   then EnvelopeInvalid (str ''invalid excludeClientId'')
                   else EnvelopeOk (get_prop parsed (str ''payload'')) excludeClientId))"

definition userIdFromChannel :: "jstr \<Rightarrow> user_id option" where
  "userIdFromChannel channel =
     (if \<not> starts_with channel USER_CHANNEL_PREFIX then None
      else parseUserId (Str (drop (length USER_CHANNEL_PREFIX) channel)))"

section \<open>Facts\<close>

lemma channelFor_inject [simp]: "channelFor u = channelFor v \<longleftrightarrow> u = v"
  by (simp add: channelFor_def)

lemma userIdFromChannel_iff: "userIdFromChannel ch = Some u \<longleftrightarrow> ch = channelFor u \<and> non_blank u"
  by (auto simp: userIdFromChannel_def parse_ids parseNonBlank_iff channelFor_def starts_with_split)

lemma envelope_keys [simp]:
  "array_index (str ''payload'') = None" "array_index (str ''excludeClientId'') = None"
  by (rule str_key_not_index, simp add: cu_def is_digit_def)+

lemma topic_envelope_wf: "wf_json p \<Longrightarrow> wf_json (topic_envelope p c)"
  by (cases c) (simp_all add: topic_envelope_def canonical_def key_less_def)

lemma topic_envelope_stringify:
  "JSON_stringify (topic_envelope (nullify p) c) = JSON_stringify (topic_envelope p c)"
  by (cases c) (simp_all add: topic_envelope_def stringify_nullify)

lemma envelope_built_and_parsed:
  assumes "parsed_json p" "pred_option non_blank c"
  obtains t where "buildUserTopicEnvelope p c = Inr t" "parseUserTopicEnvelope t = EnvelopeOk (nullify p) c"
proof -
  obtain t where t: "JSON_stringify (topic_envelope (nullify p) c) = Text t"
    "JSON_parse t = Some (topic_envelope (nullify p) c)"
    using json_roundtrip [OF topic_envelope_wf [OF nullify_wf [OF assms(1)]]] .
  have b: "buildUserTopicEnvelope p c = Inr t"
    using t(1) by (simp add: buildUserTopicEnvelope_def topic_envelope_stringify)
  have "parseUserTopicEnvelope t = EnvelopeOk (nullify p) c"
  proof (cases c)
    case None
    then show ?thesis by (simp add: parseUserTopicEnvelope_def t(2) topic_envelope_def or_undefined_def)
  next
    case (Some x)
    then have "parseNonBlank (Str x) = Some x" using assms(2) by (simp add: parseNonBlank_iff)
    with Some show ?thesis
      by (simp add: parseUserTopicEnvelope_def t(2) topic_envelope_def or_undefined_def parse_ids)
  qed
  with b show thesis by (rule that)
qed

section \<open>Properties\<close>

text \<open>C16: The envelope built for a parsed message and an optional non-blank origin client is never
  rejected by the receiving side: it parses to the same payload (numbers beyond the double range
  arriving as null, as \<open>JSON.stringify\<close> prints them) and the same excluded client.\<close>

theorem envelope_roundtrip:
  assumes "parsed_json payload" and "pred_option non_blank excludeClientId"
  shows "\<exists>t. buildUserTopicEnvelope payload excludeClientId = Inr t \<and>
    parseUserTopicEnvelope t = EnvelopeOk (nullify payload) excludeClientId"
  using envelope_built_and_parsed [OF assms] by metis

theorem envelope_roundtrip_witness:
  "\<exists>t. buildUserTopicEnvelope (Arr [Null, Str (str ''hi'')]) (Some (str ''c1'')) = Inr t \<and>
     parseUserTopicEnvelope t = EnvelopeOk (Arr [Null, Str (str ''hi'')]) (Some (str ''c1''))"
proof -
  have "pred_option non_blank (Some (str ''c1''))"
    by (simp add: non_blank_def trim_eq_Nil str_def cu_def js_space_def)
  with envelope_roundtrip [of "Arr [Null, Str (str ''hi'')]" "Some (str ''c1'')"] show ?thesis by simp
qed

text \<open>The channel of a non-blank user names exactly that user, no other channel does, and two
  users never share a channel.\<close>

theorem channel_identifies_user:
  "(userIdFromChannel channel = Some u \<longleftrightarrow> channel = channelFor u \<and> non_blank u) \<and>
   (channelFor u = channelFor v \<longleftrightarrow> u = v)"
  by (simp add: userIdFromChannel_iff)

text \<open>A broadcast of \<open>undefined\<close> (or a function) is not refused when its envelope is built:
  the envelope is printed without a payload and every receiver drops it as having none.\<close>

theorem undefined_broadcast_is_published_and_dropped:
  "v \<in> {Undefined, Func} \<Longrightarrow>
     \<exists>t. buildUserTopicEnvelope v None = Inr t \<and>
         parseUserTopicEnvelope t = EnvelopeInvalid (str ''missing payload'')"
proof (rule exI [of _ "[123, 125]"])
  assume "v \<in> {Undefined, Func}"
  moreover have "JSON_parse [123, 125] = Some (Obj [])"
    using json_roundtrip [of "Obj []"] by (auto simp: wrap_def canonical_def)
  ultimately show "buildUserTopicEnvelope v None = Inr [123, 125] \<and>
      parseUserTopicEnvelope [123, 125] = EnvelopeInvalid (str ''missing payload'')"
    by (auto simp: buildUserTopicEnvelope_def topic_envelope_def wrap_def parseUserTopicEnvelope_def)
qed

theorem undefined_broadcast_witness:
  "\<exists>t. buildUserTopicEnvelope Undefined None = Inr t \<and>
     parseUserTopicEnvelope t = EnvelopeInvalid (str ''missing payload'')"
  using undefined_broadcast_is_published_and_dropped [of Undefined] by simp

end
