(* ===== verification/Ws_Registry.thy ===== *)
theory Ws_Registry
  imports Topic_Message
begin

text \<open>
  \<open>src/ws/ws.service.ts\<close> and \<open>src/ws/ws.constants.ts\<close>: the registry of WebSocket sessions of one
  replica. Session objects live on a heap and are compared by reference, as \<open>release\<close> compares
  them; \<open>sessions\<close> and \<open>userClients\<close> are the two maps of the service, \<open>timers\<close> the timeouts
  Node holds for it and \<open>inflight\<close> the broadcasts whose promise has not settled. Every operation
  returns the new state and the calls it makes to sockets, trackers, publisher and logger, in
  order. The clock, the random token, the ready state of a socket and whether \<open>send\<close> throws are
  arguments.
\<close>

section \<open>Constants\<close>

definition WS_CLOSE_POLICY_VIOLATION :: nat where "WS_CLOSE_POLICY_VIOLATION = 1008"
definition MAX_LOGGED_PAYLOAD_CHARS :: nat where "MAX_LOGGED_PAYLOAD_CHARS = 500"
definition DEFAULT_WS_MAX_PAYLOAD_BYTES :: number where
  "DEFAULT_WS_MAX_PAYLOAD_BYTES = Fin (2 * 1024 * 1024)"
definition WS_CLOSE_MESSAGE_TOO_BIG :: nat where "WS_CLOSE_MESSAGE_TOO_BIG = 1009"
definition MAX_TIMER_DELAY_MS :: number where "MAX_TIMER_DELAY_MS = Fin 2147483647"
definition WS_ERR_UNSUPPORTED_MESSAGE_LENGTH :: jstr where
  "WS_ERR_UNSUPPORTED_MESSAGE_LENGTH = str ''WS_ERR_UNSUPPORTED_MESSAGE_LENGTH''"

definition parseMaxPayloadBytes :: "jstr option \<Rightarrow> number throws" where
  "parseMaxPayloadBytes raw =
     parseBoundedInt raw \<lparr>int_defaultValue = DEFAULT_WS_MAX_PAYLOAD_BYTES, int_min = Fin 1,
       int_max = None, int_label = str ''WS_MAX_PAYLOAD_BYTES''\<rparr>"

definition isWsPayloadTooBigError :: "jsval \<Rightarrow> bool" where
  "isWsPayloadTooBigError err \<longleftrightarrow> is_error err \<and> has_prop err (str ''code'') \<and>
     get_prop err (str ''code'') = Str WS_ERR_UNSUPPORTED_MESSAGE_LENGTH"

section \<open>State and effects\<close>

type_synonym socket = nat
type_synonym session_ref = nat
type_synonym timer = nat

text \<open>\<open>WebSocket.OPEN\<close>.\<close>

definition OPEN :: nat where "OPEN = 1"

record session =
  s_userId :: user_id
  s_clientId :: client_id
  s_socket :: socket
  s_presenceToken :: jstr
  s_expiresAt :: number
  s_expiryTimer :: "timer option"

record lifecycle_event =
  e_userId :: user_id
  e_clientId :: client_id
  e_token :: jstr
  e_userSessionCount :: nat

datatype tracker = PresenceTracker | UserTopicTracker
datatype phase = Connect | Disconnect
datatype log_level = Debug | Info | Warn | Error
datatype register_result = Registered | Duplicate | RejectedConnection

text \<open>A broadcast whose promise is pending: the sending session's user and client, the channel and
  the envelope handed to the publisher, or the error the envelope was refused with.\<close>

record broadcast =
  b_userId :: user_id
  b_clientId :: client_id
  b_channel :: jstr
  b_envelope :: "jstr throws"

datatype ws_effect =
    CloseSocket socket nat jstr
  | TerminateSocket socket
  | SendSocket socket jstr
  | ListenSocket socket session_ref
  | NotifyConnect tracker lifecycle_event
  | NotifyDisconnect tracker lifecycle_event
  | Publish jstr jstr
  | Log log_level jstr "jstr option"

record ws_state =
  trackers :: "tracker list"
  heap :: "session list"
  sessions :: "(client_id, session_ref) jsmap"
  userClients :: "(user_id, client_id list) jsmap"
  timers :: "(timer, session_ref \<times> int) jsmap"
  next_timer :: timer
  inflight :: "broadcast list"

record socket_env =
  readyState :: "socket \<Rightarrow> nat"
  sendThrows :: "socket \<Rightarrow> bool"

record connection_params =
  p_socket :: socket
  p_userId :: "user_id option"
  p_clientId :: "client_id option"
  p_expiresAt :: number

definition new_registry :: "tracker list \<Rightarrow> ws_state" where
  "new_registry ts = \<lparr>trackers = ts, heap = [], sessions = [], userClients = [], timers = [],
     next_timer = 0, inflight = []\<rparr>"

text \<open>\<open>`${userId} #${clientId}`\<close>, the name of a session in the log.\<close>

definition session_name :: "user_id \<Rightarrow> client_id \<Rightarrow> jstr" where
  "session_name userId clientId = userId @ str '' #'' @ clientId"

section \<open>Arithmetic on numbers\<close>

fun num_sub :: "number \<Rightarrow> number \<Rightarrow> number" where
  "num_sub (Fin a) (Fin b) = to_double (a - b)"
| "num_sub NaN _ = NaN"
| "num_sub _ NaN = NaN"
| "num_sub Infinity Infinity = NaN"
| "num_sub NegInfinity NegInfinity = NaN"
| "num_sub Infinity _ = Infinity"
| "num_sub _ Infinity = NegInfinity"
| "num_sub NegInfinity _ = NegInfinity"
| "num_sub _ NegInfinity = Infinity"

text \<open>\<open>x <= y\<close>, false when either is \<open>NaN\<close>, and \<open>Math.min\<close>.\<close>

definition num_le :: "number \<Rightarrow> number \<Rightarrow> bool" where
  "num_le x y \<longleftrightarrow> x \<noteq> NaN \<and> y \<noteq> NaN \<and> \<not> num_less y x"

definition num_min :: "number \<Rightarrow> number \<Rightarrow> number" where
  "num_min x y = (if x = NaN \<or> y = NaN then NaN else if num_less x y then x else y)"

text \<open>The delay Node arms a timeout with: a value outside 1 to 2147483647 becomes 1, a fraction
  is truncated.\<close>

definition node_delay :: "number \<Rightarrow> int" where
  "node_delay d =
     (case d of Fin r \<Rightarrow> if 1 \<le> r \<and> r \<le> 2147483647 then \<lfloor>r\<rfloor> else 1 | _ \<Rightarrow> 1)"

section \<open>Membership and notifications\<close>

definition countUserSessions :: "ws_state \<Rightarrow> user_id \<Rightarrow> nat" where
  "countUserSessions st userId =
     (case map_get (userClients st) userId of None \<Rightarrow> 0 | Some members \<Rightarrow> length members)"

definition trackMembership :: "user_id \<Rightarrow> client_id \<Rightarrow> ws_state \<Rightarrow> ws_state" where
  "trackMembership userId clientId st =
     (let members = (case map_get (userClients st) userId of None \<Rightarrow> [] | Some m \<Rightarrow> m)
      in st\<lparr>userClients := map_set userId (set_add clientId members) (userClients st)\<rparr>)"

definition untrackMembership :: "user_id \<Rightarrow> client_id \<Rightarrow> ws_state \<Rightarrow> ws_state" where
  "untrackMembership userId clientId st =
     (case map_get (userClients st) userId of
        None \<Rightarrow> st
      | Some members \<Rightarrow>
          (let members' = set_remove clientId members in
           if length members' = 0 then st\<lparr>userClients := map_delete userId (userClients st)\<rparr>
           else st\<lparr>userClients := map_set userId members' (userClients st)\<rparr>))"

definition notifyTracker :: "tracker \<Rightarrow> lifecycle_event \<Rightarrow> phase \<Rightarrow> ws_effect" where
  "notifyTracker tracker event phase =
     (case phase of Connect \<Rightarrow> NotifyConnect tracker event | Disconnect \<Rightarrow> NotifyDisconnect tracker event)"

definition lifecycle_of :: "ws_state \<Rightarrow> session \<Rightarrow> lifecycle_event" where
  "lifecycle_of st s =
     \<lparr>e_userId = s_userId s, e_clientId = s_clientId s, e_token = s_presenceToken s,
      e_userSessionCount = countUserSessions st (s_userId s)\<rparr>"

definition fanOut :: "ws_state \<Rightarrow> session \<Rightarrow> phase \<Rightarrow> ws_effect list" where
  "fanOut st s phase = map (\<lambda>t. notifyTracker t (lifecycle_of st s) phase) (trackers st)"

definition phase_text :: "phase \<Rightarrow> jstr" where
  "phase_text p = (case p of Connect \<Rightarrow> str ''connect'' | Disconnect \<Rightarrow> str ''disconnect'')"

text \<open>The callback of \<open>Promise.allSettled\<close> in \<open>fanOut\<close>.\<close>

fun fanOut_settled :: "phase \<Rightarrow> nat \<Rightarrow> unit throws list \<Rightarrow> ws_effect list" where
  "fanOut_settled phase index [] = []"
| "fanOut_settled phase index (Inr _ # rs) = fanOut_settled phase (Suc index) rs"
| "fanOut_settled phase index (Inl reason # rs) =
     Log Warn (str ''Session tracker '' @ dec_digits index @ str '' '' @ phase_text phase
       @ str '' failed: '' @ error_detail reason) None # fanOut_settled phase (Suc index) rs"

section \<open>Release and expiry\<close>

definition set_timer :: "session_ref \<Rightarrow> timer option \<Rightarrow> ws_state \<Rightarrow> ws_state" where
  "set_timer r t st = st\<lparr>heap := (heap st)[r := (heap st ! r)\<lparr>s_expiryTimer := t\<rparr>]\<rparr>"

definition clearExpiryTimer :: "session_ref \<Rightarrow> ws_state \<Rightarrow> ws_state" where
  "clearExpiryTimer r st =
     (case s_expiryTimer (heap st ! r) of
        None \<Rightarrow> st
      | Some t \<Rightarrow> set_timer r None (st\<lparr>timers := map_delete t (timers st)\<rparr>))"

definition release :: "session_ref \<Rightarrow> ws_state \<Rightarrow> bool \<times> ws_state \<times> ws_effect list" where
  "release r st =
     (let s = heap st ! r in
      if map_get (sessions st) (s_clientId s) \<noteq> Some r then (False, st, [])
      else
        (let st1 = clearExpiryTimer r st;
             st2 = st1\<lparr>sessions := map_delete (s_clientId s) (sessions st1)\<rparr>;
             st3 = untrackMembership (s_userId s) (s_clientId s) st2
         in (True, st3, fanOut st3 s Disconnect)))"

definition handleExpiry :: "session_ref \<Rightarrow> ws_state \<Rightarrow> ws_state \<times> ws_effect list" where
  "handleExpiry r st =
     (let s = heap st ! r in
      case release r st of
        (False, st', effs) \<Rightarrow> (st', effs)
      | (True, st', effs) \<Rightarrow>
          (st', effs @ [Log Info (session_name (s_userId s) (s_clientId s) @ str '' token expired'') None,
                        TerminateSocket (s_socket s)]))"

definition scheduleExpiry :: "int \<Rightarrow> session_ref \<Rightarrow> ws_state \<Rightarrow> ws_state \<times> ws_effect list" where
  "scheduleExpiry now r st =
     (let remaining = num_sub (s_expiresAt (heap st ! r)) (Fin (of_int now)) in
      if num_le remaining (Fin 0) then handleExpiry r st
      else
        (let t = next_timer st;
             delay = node_delay (num_min remaining MAX_TIMER_DELAY_MS)
         in (set_timer r (Some t)
               (st\<lparr>timers := map_set t (r, delay) (timers st), next_timer := Suc t\<rparr>), [])))"

text \<open>\<open>handleExpiryTimer\<close> reads the clock, and \<open>scheduleExpiry\<close> reads it again.\<close>

definition handleExpiryTimer ::
  "int \<Rightarrow> int \<Rightarrow> session_ref \<Rightarrow> ws_state \<Rightarrow> ws_state \<times> ws_effect list" where
  "handleExpiryTimer now now' r st =
     (if num_less (Fin 0) (num_sub (s_expiresAt (heap st ! r)) (Fin (of_int now)))
      then scheduleExpiry now' r st
      else handleExpiry r st)"

definition onModuleDestroy :: "ws_state \<Rightarrow> ws_state" where
  "onModuleDestroy st = fold clearExpiryTimer (map snd (sessions st)) st"

section \<open>Connections\<close>

definition handleConnection ::
  "jstr \<Rightarrow> int \<Rightarrow> connection_params \<Rightarrow> ws_state \<Rightarrow> register_result \<times> ws_state \<times> ws_effect list" where
  "handleConnection uuid now params st =
     (case (p_userId params, p_clientId params) of
        (Some userId, Some clientId) \<Rightarrow>
          if map_get (sessions st) clientId \<noteq> None then
            (Duplicate, st,
             [Log Warn (str ''Rejecting duplicate connection'') (Some clientId),
              CloseSocket (p_socket params) WS_CLOSE_POLICY_VIOLATION (str ''duplicate clientId'')])
          else
            (let r = length (heap st);
                 session = \<lparr>s_userId = userId, s_clientId = clientId, s_socket = p_socket params,
                   s_presenceToken = uuid, s_expiresAt = p_expiresAt params, s_expiryTimer = None\<rparr>;
                 st1 = st\<lparr>heap := heap st @ [session], sessions := map_set clientId r (sessions st)\<rparr>;
                 st2 = trackMembership userId clientId st1;
                 (st3, effs) = scheduleExpiry now r st2
             in (Registered, st3,
                 fanOut st2 session Connect
                 @ [ListenSocket (p_socket params) r,
                    Log Info (session_name userId clientId @ str '' connected'') None]
                 @ effs))
      | _ \<Rightarrow>
          (RejectedConnection, st,
           [Log Warn (str ''Rejecting connection with missing userId/clientId'') None,
            CloseSocket (p_socket params) WS_CLOSE_POLICY_VIOLATION (str ''missing userId/clientId'')]))"

text \<open>The \<open>close\<close> listener that \<open>handleConnection\<close> installs.\<close>

definition on_close :: "session_ref \<Rightarrow> ws_state \<Rightarrow> ws_state \<times> ws_effect list" where
  "on_close r st =
     (let s = heap st ! r in
      case release r st of
        (_, st', effs) \<Rightarrow>
          (st', effs @ [Log Info (session_name (s_userId s) (s_clientId s) @ str '' disconnected'') None]))"

definition getSession :: "client_id \<Rightarrow> ws_state \<Rightarrow> session option" where
  "getSession clientId st = map_option ((!) (heap st)) (map_get (sessions st) clientId)"

definition getSessionCount :: "ws_state \<Rightarrow> nat" where
  "getSessionCount st = length (sessions st)"

section \<open>Delivery\<close>

definition sendToClient ::
  "socket_env \<Rightarrow> client_id \<Rightarrow> jsval \<Rightarrow> ws_state \<Rightarrow> bool \<times> ws_effect list" where
  "sendToClient env clientId message st =
     (case getSession clientId st of
        None \<Rightarrow> (False, [])
      | Some session \<Rightarrow>
          if readyState env (s_socket session) \<noteq> OPEN then (False, [])
          else (case JSON_stringify message of
             Text payload \<Rightarrow>
               if sendThrows env (s_socket session)
               then (False, [Log Warn (str ''Failed to send message'') (Some clientId)])
               else (True, [SendSocket (s_socket session) payload])
           | _ \<Rightarrow> (False, [Log Warn (str ''Dropping unserializable message'') (Some clientId)])))"

fun local_delivery ::
  "socket_env \<Rightarrow> client_id list \<Rightarrow> jsval \<Rightarrow> client_id option \<Rightarrow> ws_state \<Rightarrow> nat \<times> ws_effect list" where
  "local_delivery env [] message excludeClientId st = (0, [])"
| "local_delivery env (clientId # cs) message excludeClientId st =
     (if excludeClientId = Some clientId then local_delivery env cs message excludeClientId st
      else
        (let (sent, effs) = sendToClient env clientId message st;
             (delivered, effs') = local_delivery env cs message excludeClientId st
         in (if sent then Suc delivered else delivered, effs @ effs')))"

definition sendToLocalUser ::
  "socket_env \<Rightarrow> user_id \<Rightarrow> jsval \<Rightarrow> client_id option \<Rightarrow> ws_state \<Rightarrow> nat \<times> ws_effect list" where
  "sendToLocalUser env userId message excludeClientId st =
     (case map_get (userClients st) userId of
        None \<Rightarrow> (0, [])
      | Some members \<Rightarrow> local_delivery env members message excludeClientId st)"

text \<open>\<open>sendToUser\<close> up to its first suspension: the promise it leaves pending and the calls made.\<close>

definition sendToUser ::
  "user_id \<Rightarrow> jsval \<Rightarrow> client_id option \<Rightarrow> jstr throws \<times> ws_effect list" where
  "sendToUser userId message excludeClientId =
     (let channel = channelFor userId in
      case buildUserTopicEnvelope message excludeClientId of
        Inl _ \<Rightarrow>
          (Inl (new_error (str ''Broadcast payload for '' @ channel @ str '' is not serializable'')),
           [Log Warn (str ''Dropping unserializable broadcast'') (Some channel)])
      | Inr envelope \<Rightarrow> (Inr envelope, [Publish channel envelope]))"

text \<open>\<open>sendToUser\<close> after the publisher answered with the number of receivers or an error.\<close>

definition sendToUser_published ::
  "jstr \<Rightarrow> jstr \<Rightarrow> number throws \<Rightarrow> unit throws \<times> ws_effect list" where
  "sendToUser_published channel envelope answer =
     (case answer of
        Inr receivers \<Rightarrow>
          (Inr (),
           [Log Debug (str ''Broadcast to '' @ channel @ str '': '' @ dec_digits (utf8_length envelope)
              @ str '' bytes, '' @ num_text receivers @ str '' subscribers'') None])
      | Inl err \<Rightarrow>
          (Inl (if is_error err then err else new_error (error_detail err)),
           [Log Warn (str ''Failed to broadcast to '' @ channel @ str '': '' @ error_detail err) None]))"

section \<open>Inbound messages\<close>

definition sendNack :: "socket_env \<Rightarrow> client_id \<Rightarrow> jstr \<Rightarrow> ws_state \<Rightarrow> ws_effect list" where
  "sendNack env clientId reason st =
     snd (sendToClient env clientId
       (Obj [(str ''op'', Str SEND_MESSAGE_ERROR_OP), (str ''reason'', Str reason)]) st)"

definition payload_preview :: "jstr \<Rightarrow> jstr" where
  "payload_preview raw =
     (if length raw > MAX_LOGGED_PAYLOAD_CHARS
      then take MAX_LOGGED_PAYLOAD_CHARS raw @ [0x2026] @ str '' (truncated ''
           @ dec_digits (length raw) @ str '' chars)''
      else raw)"

definition handleMessage ::
  "socket_env \<Rightarrow> user_id \<Rightarrow> client_id \<Rightarrow> raw_data \<Rightarrow> ws_state \<Rightarrow> ws_state \<times> ws_effect list" where
  "handleMessage env userId clientId data st =
     (let who = session_name userId clientId;
          received = Log Debug (str ''Message received from '' @ who @ str '': ''
                       @ payload_preview (raw_text data)) None
      in case parseInboundFrame data of
           Ignore reason \<Rightarrow>
             (st, [received, Log Debug (str ''Ignoring message from '' @ who @ str '': '' @ reason) None])
         | Invalid reason \<Rightarrow>
             (st, [received, Log Warn (str ''Dropping sendMessage with invalid target from '' @ who
                     @ str '': '' @ reason) None] @ sendNack env clientId reason st)
         | Send target message \<Rightarrow>
             if \<not> canSendTo userId target then
               (st, [received, Log Warn (str ''Dropping sendMessage not allowed from '' @ who) None]
                    @ sendNack env clientId (str ''not allowed'') st)
             else
               (let (envelope, effs) = sendToUser target message (Some clientId) in
                (st\<lparr>inflight := inflight st @ [\<lparr>b_userId = userId, b_clientId = clientId,
                    b_channel = channelFor target, b_envelope = envelope\<rparr>]\<rparr>,
                 received # effs)))"

text \<open>The rejection handler of the broadcast in \<open>handleMessage\<close>.\<close>

definition delivery_failed ::
  "socket_env \<Rightarrow> user_id \<Rightarrow> client_id \<Rightarrow> jsval \<Rightarrow> ws_state \<Rightarrow> ws_effect list" where
  "delivery_failed env userId clientId err st =
     Log Warn (str ''Failed to deliver message from '' @ session_name userId clientId @ str '': ''
       @ error_detail err) None # sendNack env clientId (str ''delivery failed'') st"

text \<open>The \<open>k\<close>-th pending broadcast settles; \<open>answer\<close> is what the publisher gave, if it was asked.\<close>

definition settle_broadcast ::
  "socket_env \<Rightarrow> nat \<Rightarrow> number throws \<Rightarrow> ws_state \<Rightarrow> ws_state \<times> ws_effect list" where
  "settle_broadcast env k answer st =
     (let b = inflight st ! k;
          st' = st\<lparr>inflight := take k (inflight st) @ drop (Suc k) (inflight st)\<rparr>;
          (outcome, effs) =
            (case b_envelope b of
               Inl err \<Rightarrow> (Inl err, [])
             | Inr envelope \<Rightarrow> sendToUser_published (b_channel b) envelope answer)
      in case outcome of
           Inr _ \<Rightarrow> (st', effs)
         | Inl err \<Rightarrow> (st', effs @ delivery_failed env (b_userId b) (b_clientId b) err st'))"

definition handleError :: "user_id \<Rightarrow> client_id \<Rightarrow> jsval \<Rightarrow> ws_effect list" where
  "handleError userId clientId err =
     (if isWsPayloadTooBigError err then
        [Log Warn (str ''Oversize frame rejected for '' @ session_name userId clientId
           @ str '' (code '' @ dec_digits WS_CLOSE_MESSAGE_TOO_BIG @ str '')'') None]
      else [Log Error (str ''Socket error: '' @ error_detail err) (Some clientId)])"

section \<open>Runs\<close>

text \<open>What may happen to the registry: a connection, an event of a socket it listens to, a timeout
  Node holds, the settlement of a pending broadcast, a message from the user's channel, shutdown.\<close>

datatype ws_event =
    Connection jstr int connection_params
  | Message session_ref raw_data
  | SocketError session_ref jsval
  | Closed session_ref
  | TimerFired timer int int
  | BroadcastSettled nat "number throws"
  | TopicDelivery user_id jsval "client_id option"
  | Shutdown

fun ws_exec :: "socket_env \<Rightarrow> ws_event \<Rightarrow> ws_state \<Rightarrow> ws_state \<times> ws_effect list" where
  "ws_exec env (Connection uuid now params) st = snd (handleConnection uuid now params st)"
| "ws_exec env (Message r data) st =
     handleMessage env (s_userId (heap st ! r)) (s_clientId (heap st ! r)) data st"
| "ws_exec env (SocketError r err) st =
     (st, handleError (s_userId (heap st ! r)) (s_clientId (heap st ! r)) err)"
| "ws_exec env (Closed r) st = on_close r st"
| "ws_exec env (TimerFired t now now') st =
     (case map_get (timers st) t of
        None \<Rightarrow> (st, [])
      | Some (r, _) \<Rightarrow> handleExpiryTimer now now' r (st\<lparr>timers := map_delete t (timers st)\<rparr>))"
| "ws_exec env (BroadcastSettled k answer) st = settle_broadcast env k answer st"
| "ws_exec env (TopicDelivery userId message excludeClientId) st =
     (st, snd (sendToLocalUser env userId message excludeClientId st))"
| "ws_exec env Shutdown st = (onModuleDestroy st, [])"

fun ws_enabled :: "ws_event \<Rightarrow> ws_state \<Rightarrow> bool" where
  "ws_enabled (Message r _) st = (r < length (heap st))"
| "ws_enabled (SocketError r _) st = (r < length (heap st))"
| "ws_enabled (Closed r) st = (r < length (heap st))"
| "ws_enabled (TimerFired t _ _) st = (map_get (timers st) t \<noteq> None)"
| "ws_enabled (BroadcastSettled k _) st = (k < length (inflight st))"
| "ws_enabled _ st = True"

inductive ws_step :: "ws_state \<Rightarrow> ws_event \<Rightarrow> ws_effect list \<Rightarrow> ws_state \<Rightarrow> bool" where
  ws_step: "ws_enabled ev st \<Longrightarrow> ws_exec env ev st = (st', effs) \<Longrightarrow> ws_step st ev effs st'"

type_synonym ws_trace = "(ws_event \<times> ws_effect list) list"

inductive ws_run :: "ws_state \<Rightarrow> ws_trace \<Rightarrow> ws_state \<Rightarrow> bool" for st where
  ws_start: "ws_run st [] st"
| ws_next: "ws_run st tr st' \<Longrightarrow> ws_step st' ev effs st'' \<Longrightarrow> ws_run st (tr @ [(ev, effs)]) st''"

definition trace_effects :: "ws_trace \<Rightarrow> ws_effect list" where
  "trace_effects tr = concat (map snd tr)"

inductive_cases ws_stepE [elim]: "ws_step st ev effs st'"

end
