(* ===== verification/Ws_Invariants.thy ===== *)
theory Ws_Invariants
  imports Ws_Registry
begin

text \<open>
  The invariant of the session registry and its preservation by every operation and step. The
  index part relates \<open>sessions\<close> and \<open>userClients\<close>: a client is a member of a user exactly when its
  registered session belongs to that user. The timer part says that a pending timeout is the one
  its registered session remembers, with a delay Node takes as it is.
\<close>

section \<open>The invariant\<close>

definition members_of :: "(user_id, client_id list) jsmap \<Rightarrow> user_id \<Rightarrow> client_id list" where
  "members_of U u = (case map_get U u of None \<Rightarrow> [] | Some m \<Rightarrow> m)"

text \<open>The owner and the client of each allocated session; no operation changes them.\<close>

definition idents :: "ws_state \<Rightarrow> (user_id \<times> client_id) list" where
  "idents st = map (\<lambda>s. (s_userId s, s_clientId s)) (heap st)"

definition index_ok ::
  "(client_id, session_ref) jsmap \<Rightarrow> (user_id, client_id list) jsmap \<Rightarrow> (user_id \<times> client_id) list \<Rightarrow> bool" where
  "index_ok S U I \<longleftrightarrow>
     map_ok S \<and> map_ok U
     \<and> (\<forall>c r. map_get S c = Some r \<longrightarrow> r < length I \<and> snd (I ! r) = c)
     \<and> (\<forall>u m. map_get U u = Some m \<longrightarrow> distinct m \<and> m \<noteq> [])
     \<and> (\<forall>u c. c \<in> set (members_of U u) \<longleftrightarrow> (\<exists>r. map_get S c = Some r \<and> fst (I ! r) = u))"

definition registered :: "ws_state \<Rightarrow> session_ref \<Rightarrow> bool" where
  "registered st r \<longleftrightarrow> r < length (heap st) \<and> map_get (sessions st) (s_clientId (heap st ! r)) = Some r"

definition timers_ok :: "ws_state \<Rightarrow> bool" where
  "timers_ok st \<longleftrightarrow>
     (\<forall>t r d. map_get (timers st) t = Some (r, d) \<longrightarrow>
        registered st r \<and> s_expiryTimer (heap st ! r) = Some t \<and> 1 \<le> d \<and> d \<le> 2147483647)
     \<and> (\<forall>r t. r < length (heap st) \<longrightarrow> s_expiryTimer (heap st ! r) = Some t \<longrightarrow>
          t < next_timer st \<and> (\<forall>r' d. map_get (timers st) t = Some (r', d) \<longrightarrow> r' = r))"

definition ws_inv :: "ws_state \<Rightarrow> bool" where
  "ws_inv st \<longleftrightarrow> index_ok (sessions st) (userClients st) (idents st) \<and> timers_ok st"

text \<open>Every registered session has its expiry timeout pending.\<close>

definition has_timer :: "ws_state \<Rightarrow> session_ref \<Rightarrow> bool" where
  "has_timer st r \<longleftrightarrow> (\<exists>t d. s_expiryTimer (heap st ! r) = Some t \<and> map_get (timers st) t = Some (r, d))"

definition armed :: "ws_state \<Rightarrow> bool" where
  "armed st \<longleftrightarrow> (\<forall>r. registered st r \<longrightarrow> has_timer st r)"

text \<open>The clients a user has registered, and the live sessions of the registry.\<close>

definition online :: "ws_state \<Rightarrow> user_id \<Rightarrow> client_id set" where
  "online st u = {c. \<exists>r. map_get (sessions st) c = Some r \<and> s_userId (heap st ! r) = u}"

lemma registered_less: "registered st r \<Longrightarrow> r < length (heap st)"
  by (simp add: registered_def)

section \<open>The index\<close>

lemma index_okD:
  assumes "index_ok S U I"
  shows "map_ok S" "map_ok U" "map_get S c = Some r \<Longrightarrow> r < length I \<and> snd (I ! r) = c"
    "map_get U u = Some m \<Longrightarrow> distinct m \<and> m \<noteq> []"
    "c \<in> set (members_of U u) \<longleftrightarrow> (\<exists>r. map_get S c = Some r \<and> fst (I ! r) = u)"
  using assms unfolding index_ok_def by blast+

lemma index_okI:
  assumes "map_ok S" "map_ok U" "\<And>c r. map_get S c = Some r \<Longrightarrow> r < length I \<and> snd (I ! r) = c"
    "\<And>u m. map_get U u = Some m \<Longrightarrow> distinct m \<and> m \<noteq> []"
    "\<And>u c. c \<in> set (members_of U u) \<longleftrightarrow> (\<exists>r. map_get S c = Some r \<and> fst (I ! r) = u)"
  shows "index_ok S U I"
  unfolding index_ok_def using assms by blast

lemma members_of_set: "members_of (map_set u m U) u' = (if u' = u then m else members_of U u')"
  by (simp add: members_of_def js_simps)

lemma members_of_delete: "members_of (map_delete u U) u' = (if u' = u then [] else members_of U u')"
  by (simp add: members_of_def js_simps)

lemma members_distinct: "index_ok S U I \<Longrightarrow> distinct (members_of U u)"
  by (auto simp: members_of_def dest: index_okD(4) split: option.split)

lemma index_add:
  assumes ok: "index_ok S U I" and new: "map_get S c = None"
  shows "index_ok (map_set c (length I) S) (map_set u (set_add c (members_of U u)) U) (I @ [(u, c)])"
proof (rule index_okI)
  note D = index_okD [OF ok]
  show "map_ok (map_set c (length I) S)" "map_ok (map_set u (set_add c (members_of U u)) U)"
    using D(1,2) by (simp_all add: js_simps)
  show "map_get (map_set c (length I) S) c' = Some r \<Longrightarrow>
      r < length (I @ [(u, c)]) \<and> snd ((I @ [(u, c)]) ! r) = c'" for c' r
    using D(3) [of c' r] by (auto simp: js_simps nth_append split: if_splits)
  show "map_get (map_set u (set_add c (members_of U u)) U) u' = Some m \<Longrightarrow> distinct m \<and> m \<noteq> []" for u' m
    using D(4) [of u' m] members_distinct [OF ok] jss.ok_add [of "members_of U u" c]
    by (auto simp: js_simps set_add_def split: if_splits)
  show "c' \<in> set (members_of (map_set u (set_add c (members_of U u)) U) u') \<longleftrightarrow>
      (\<exists>r. map_get (map_set c (length I) S) c' = Some r \<and> fst ((I @ [(u, c)]) ! r) = u')" for u' c'
  proof (cases "c' = c")
    case True
    then show ?thesis using D(5) [of c u'] new by (auto simp: members_of_set js_simps)
  next
    case False
    have "(\<exists>r. map_get S c' = Some r \<and> fst ((I @ [(u, c)]) ! r) = u') \<longleftrightarrow>
        (\<exists>r. map_get S c' = Some r \<and> fst (I ! r) = u')"
      using D(3) [of c'] by (auto simp: nth_append)
    with False D(5) [of c' u'] show ?thesis by (auto simp: members_of_set js_simps)
  qed
qed

lemma index_remove_members:
  assumes ok: "index_ok S U I" and r: "map_get S c = Some r" "fst (I ! r) = u"
    and U': "map_ok U'" "\<And>u' m. map_get U' u' = Some m \<Longrightarrow> distinct m \<and> m \<noteq> []"
      "\<And>u'. set (members_of U' u') = (if u' = u then set (members_of U u) - {c} else set (members_of U u'))"
  shows "index_ok (map_delete c S) U' I"
proof (rule index_okI)
  note D = index_okD [OF ok]
  show "map_ok (map_delete c S)" using D(1) by (simp add: js_simps)
  show "map_get (map_delete c S) c' = Some r' \<Longrightarrow> r' < length I \<and> snd (I ! r') = c'" for c' r'
    using D(3) [of c' r'] by (simp add: js_simps split: if_splits)
  show "c' \<in> set (members_of U' u') \<longleftrightarrow> (\<exists>r'. map_get (map_delete c S) c' = Some r' \<and> fst (I ! r') = u')" for u' c'
    using D(5) [of c' u'] r by (auto simp: U'(3) js_simps)
qed (use U' in auto)

section \<open>What the operations leave alone\<close>

lemma trackMembership_fields [simp]:
  "trackers (trackMembership u c st) = trackers st" "heap (trackMembership u c st) = heap st"
  "sessions (trackMembership u c st) = sessions st" "timers (trackMembership u c st) = timers st"
  "next_timer (trackMembership u c st) = next_timer st" "inflight (trackMembership u c st) = inflight st"
  by (simp_all add: trackMembership_def Let_def)

lemma untrackMembership_fields [simp]:
  "trackers (untrackMembership u c st) = trackers st" "heap (untrackMembership u c st) = heap st"
  "sessions (untrackMembership u c st) = sessions st" "timers (untrackMembership u c st) = timers st"
  "next_timer (untrackMembership u c st) = next_timer st" "inflight (untrackMembership u c st) = inflight st"
  by (simp_all add: untrackMembership_def Let_def split: option.split)

lemma set_timer_fields [simp]:
  "trackers (set_timer r t st) = trackers st" "sessions (set_timer r t st) = sessions st"
  "userClients (set_timer r t st) = userClients st" "timers (set_timer r t st) = timers st"
  "next_timer (set_timer r t st) = next_timer st" "inflight (set_timer r t st) = inflight st"
  "length (heap (set_timer r t st)) = length (heap st)"
  by (simp_all add: set_timer_def)

lemma set_timer_heap:
  "r < length (heap st) \<Longrightarrow> heap (set_timer r t st) ! r' =
     (if r' = r then (heap st ! r)\<lparr>s_expiryTimer := t\<rparr> else heap st ! r')"
  by (simp add: set_timer_def)

lemma clearExpiryTimer_fields [simp]:
  "trackers (clearExpiryTimer r st) = trackers st" "sessions (clearExpiryTimer r st) = sessions st"
  "userClients (clearExpiryTimer r st) = userClients st" "next_timer (clearExpiryTimer r st) = next_timer st"
  "inflight (clearExpiryTimer r st) = inflight st" "length (heap (clearExpiryTimer r st)) = length (heap st)"
  by (simp_all add: clearExpiryTimer_def split: option.split)

lemma clearExpiryTimer_heap:
  "r < length (heap st) \<Longrightarrow> heap (clearExpiryTimer r st) ! r' =
     (if r' = r then (heap st ! r)\<lparr>s_expiryTimer := None\<rparr> else heap st ! r')"
  by (cases "s_expiryTimer (heap st ! r)") (simp_all add: clearExpiryTimer_def set_timer_heap)

lemma clearExpiryTimer_timers:
  "map_get (timers (clearExpiryTimer r st)) t =
     (if s_expiryTimer (heap st ! r) = Some t then None else map_get (timers st) t)"
  by (auto simp: clearExpiryTimer_def js_simps split: option.split)

lemma idents_nth: "r < length (heap st) \<Longrightarrow> idents st ! r = (s_userId (heap st ! r), s_clientId (heap st ! r))"
  by (simp add: idents_def)

lemma length_idents [simp]: "length (idents st) = length (heap st)"
  by (simp add: idents_def)

lemma idents_clearExpiryTimer [simp]: "r < length (heap st) \<Longrightarrow> idents (clearExpiryTimer r st) = idents st"
  by (rule nth_equalityI) (auto simp: idents_nth clearExpiryTimer_heap)

lemma idents_set_timer [simp]: "r < length (heap st) \<Longrightarrow> idents (set_timer r t st) = idents st"
  by (rule nth_equalityI) (auto simp: idents_nth set_timer_heap)

lemma idents_heap: "heap st = heap st' \<Longrightarrow> idents st = idents st'"
  by (simp add: idents_def)

section \<open>Membership\<close>

lemma trackMembership_userClients:
  "userClients (trackMembership u c st) =
     map_set u (set_add c (members_of (userClients st) u)) (userClients st)"
  by (simp add: trackMembership_def members_of_def Let_def)

lemma untrackMembership_members:
  "members_of (userClients (untrackMembership u c st)) u' =
     (if u' = u then set_remove c (members_of (userClients st) u) else members_of (userClients st) u')"
  by (auto simp: untrackMembership_def Let_def members_of_def js_simps set_remove_def split: option.split)

lemma untrackMembership_ok: "map_ok (userClients st) \<Longrightarrow> map_ok (userClients (untrackMembership u c st))"
  by (simp add: untrackMembership_def Let_def js_simps split: option.split)

lemma countUserSessions_members: "countUserSessions st u = length (members_of (userClients st) u)"
  by (simp add: countUserSessions_def members_of_def split: option.split)

lemma members_online:
  assumes "ws_inv st"
  shows "set (members_of (userClients st) u) = online st u" "distinct (members_of (userClients st) u)"
proof -
  have ok: "index_ok (sessions st) (userClients st) (idents st)" using assms by (simp add: ws_inv_def)
  have "map_get (sessions st) c = Some r \<Longrightarrow> fst (idents st ! r) = s_userId (heap st ! r)" for c r
    using index_okD(3) [OF ok, of c r] by (simp add: idents_nth)
  with index_okD(5) [OF ok] show "set (members_of (userClients st) u) = online st u"
    by (auto simp: online_def)
qed (use assms members_distinct in \<open>auto simp: ws_inv_def\<close>)

text \<open>The count the trackers are told is the number of registered sessions of the user.\<close>

lemma countUserSessions_online: "ws_inv st \<Longrightarrow> countUserSessions st u = card (online st u)"
  using members_online [of st u] distinct_card by (fastforce simp: countUserSessions_members)

section \<open>Release\<close>

definition released :: "session_ref \<Rightarrow> ws_state \<Rightarrow> ws_state" where
  "released r st =
     (let s = heap st ! r; st1 = clearExpiryTimer r st in
      untrackMembership (s_userId s) (s_clientId s)
        (st1\<lparr>sessions := map_delete (s_clientId s) (sessions st1)\<rparr>))"

lemma release_eq:
  "r < length (heap st) \<Longrightarrow> release r st =
     (if registered st r then (True, released r st, fanOut (released r st) (heap st ! r) Disconnect)
      else (False, st, []))"
  by (simp add: release_def registered_def released_def Let_def)

lemma released_fields [simp]:
  "trackers (released r st) = trackers st" "next_timer (released r st) = next_timer st"
  "inflight (released r st) = inflight st" "length (heap (released r st)) = length (heap st)"
  "heap (released r st) = heap (clearExpiryTimer r st)"
  "timers (released r st) = timers (clearExpiryTimer r st)"
  "sessions (released r st) = map_delete (s_clientId (heap st ! r)) (sessions st)"
  by (simp_all add: released_def Let_def)

lemma released_registered:
  assumes "registered st r"
  shows "registered (released r st) r' \<longleftrightarrow> r' \<noteq> r \<and> registered st r'"
  using assms by (auto simp: registered_def clearExpiryTimer_heap js_simps)

lemma released_index:
  assumes "ws_inv st" "registered st r"
  shows "index_ok (sessions (released r st)) (userClients (released r st)) (idents (released r st))"
proof -
  let ?s = "heap st ! r"
  have ok: "index_ok (sessions st) (userClients st) (idents st)" using assms(1) by (simp add: ws_inv_def)
  have r: "r < length (heap st)" "map_get (sessions st) (s_clientId ?s) = Some r"
    using assms(2) by (simp_all add: registered_def)
  define st2 where "st2 = (clearExpiryTimer r st)\<lparr>sessions := map_delete (s_clientId ?s) (sessions st)\<rparr>"
  have st2: "released r st = untrackMembership (s_userId ?s) (s_clientId ?s) st2"
    by (simp add: released_def st2_def Let_def)
  have uc: "userClients st2 = userClients st" by (simp add: st2_def)
  have ids: "idents (released r st) = idents st"
    using r(1) idents_heap [of "released r st" "clearExpiryTimer r st"] by simp
  have "index_ok (map_delete (s_clientId ?s) (sessions st))
      (userClients (untrackMembership (s_userId ?s) (s_clientId ?s) st2)) (idents st)"
  proof (rule index_remove_members [OF ok r(2)])
    show "fst (idents st ! r) = s_userId ?s" using r(1) by (simp add: idents_nth)
    show "map_ok (userClients (untrackMembership (s_userId ?s) (s_clientId ?s) st2))"
      using index_okD(2) [OF ok] uc by (simp add: untrackMembership_ok)
    show "map_get (userClients (untrackMembership (s_userId ?s) (s_clientId ?s) st2)) u' = Some m \<Longrightarrow>
        distinct m \<and> m \<noteq> []" for u' m
      using index_okD(4) [OF ok] uc
      by (auto simp: untrackMembership_def Let_def js_simps set_remove_def split: option.splits if_splits)
  qed (auto simp: untrackMembership_members uc set_remove_def)
  then show ?thesis using ids by (simp add: st2 [symmetric])
qed

lemma timers_okD:
  assumes "timers_ok st"
  shows "map_get (timers st) t = Some (r, d) \<Longrightarrow>
      registered st r \<and> s_expiryTimer (heap st ! r) = Some t \<and> 1 \<le> d \<and> d \<le> 2147483647"
    "r < length (heap st) \<Longrightarrow> s_expiryTimer (heap st ! r) = Some t \<Longrightarrow> t < next_timer st"
    "r < length (heap st) \<Longrightarrow> s_expiryTimer (heap st ! r) = Some t \<Longrightarrow> map_get (timers st) t = Some (r', d)
       \<Longrightarrow> r' = r"
  using assms unfolding timers_ok_def by blast+

lemma timers_okI:
  assumes "\<And>t r d. map_get (timers st) t = Some (r, d) \<Longrightarrow>
      registered st r \<and> s_expiryTimer (heap st ! r) = Some t \<and> 1 \<le> d \<and> d \<le> 2147483647"
    "\<And>r t. r < length (heap st) \<Longrightarrow> s_expiryTimer (heap st ! r) = Some t \<Longrightarrow> t < next_timer st"
    "\<And>r t r' d. r < length (heap st) \<Longrightarrow> s_expiryTimer (heap st ! r) = Some t \<Longrightarrow>
       map_get (timers st) t = Some (r', d) \<Longrightarrow> r' = r"
  shows "timers_ok st"
  unfolding timers_ok_def using assms by blast

lemma released_timers:
  assumes ok: "timers_ok st" and reg: "registered st r"
  shows "timers_ok (released r st)"
proof (rule timers_okI)
  have r: "r < length (heap st)" using reg by (simp add: registered_def)
  note D = timers_okD [OF ok]
  show "map_get (timers (released r st)) t = Some (r', d) \<Longrightarrow> registered (released r st) r' \<and>
      s_expiryTimer (heap (released r st) ! r') = Some t \<and> 1 \<le> d \<and> d \<le> 2147483647" for t r' d
    using D(1) [of t r' d] r
    by (auto simp: released_registered [OF reg] clearExpiryTimer_timers clearExpiryTimer_heap split: if_splits)
  show "r' < length (heap (released r st)) \<Longrightarrow> s_expiryTimer (heap (released r st) ! r') = Some t \<Longrightarrow>
      t < next_timer (released r st)" for r' t
    using D(2) [of r' t] r by (auto simp: clearExpiryTimer_heap split: if_splits)
  show "r' < length (heap (released r st)) \<Longrightarrow> s_expiryTimer (heap (released r st) ! r') = Some t \<Longrightarrow>
      map_get (timers (released r st)) t = Some (r'', d) \<Longrightarrow> r'' = r'" for r' t r'' d
    using D(3) [of r' t r'' d] r
    by (auto simp: clearExpiryTimer_heap clearExpiryTimer_timers split: if_splits)
qed

lemma released_inv [inv_intros]: "ws_inv st \<Longrightarrow> registered st r \<Longrightarrow> ws_inv (released r st)"
  using released_index released_timers by (simp add: ws_inv_def)

lemma released_has_timer:
  assumes "timers_ok st" "registered st r" "r' \<noteq> r" "has_timer st r'"
  shows "has_timer (released r st) r'"
proof -
  obtain t d where t: "s_expiryTimer (heap st ! r') = Some t" "map_get (timers st) t = Some (r', d)"
    using assms(4) by (auto simp: has_timer_def)
  have r: "r < length (heap st)" using assms(2) by (simp add: registered_def)
  have "s_expiryTimer (heap st ! r) \<noteq> Some t" using timers_okD(3) [OF assms(1) r _ t(2)] assms(3) by auto
  with t r assms(3) show ?thesis by (auto simp: has_timer_def clearExpiryTimer_heap clearExpiryTimer_timers)
qed

lemma released_armed: "timers_ok st \<Longrightarrow> registered st r \<Longrightarrow> armed st \<Longrightarrow> armed (released r st)"
  by (simp add: armed_def released_registered released_has_timer)

lemma released_online:
  assumes "registered st r"
  shows "online (released r st) u =
    (if u = s_userId (heap st ! r) then online st u - {s_clientId (heap st ! r)} else online st u)"
  using assms by (auto simp: online_def registered_def clearExpiryTimer_heap js_simps split: if_splits)

section \<open>Arming the expiry timeout\<close>

lemma node_delay_bounds: "1 \<le> node_delay d \<and> node_delay d \<le> 2147483647"
  by (auto simp: node_delay_def le_floor_iff floor_le_iff split: number.split)

definition arm :: "session_ref \<Rightarrow> int \<Rightarrow> ws_state \<Rightarrow> ws_state" where
  "arm r d st = set_timer r (Some (next_timer st))
     (st\<lparr>timers := map_set (next_timer st) (r, d) (timers st), next_timer := Suc (next_timer st)\<rparr>)"

lemma handleExpiry_eq:
  "r < length (heap st) \<Longrightarrow> handleExpiry r st =
     (if registered st r
      then (released r st, fanOut (released r st) (heap st ! r) Disconnect
             @ [Log Info (session_name (s_userId (heap st ! r)) (s_clientId (heap st ! r))
                  @ str '' token expired'') None, TerminateSocket (s_socket (heap st ! r))])
      else (st, []))"
  by (simp add: handleExpiry_def release_eq Let_def)

lemma scheduleExpiry_eq:
  "scheduleExpiry now r st =
     (let remaining = num_sub (s_expiresAt (heap st ! r)) (Fin (of_int now)) in
      if num_le remaining (Fin 0) then handleExpiry r st
      else (arm r (node_delay (num_min remaining MAX_TIMER_DELAY_MS)) st, []))"
  by (simp add: scheduleExpiry_def arm_def Let_def)

lemma arm_fields [simp]:
  "trackers (arm r d st) = trackers st" "sessions (arm r d st) = sessions st"
  "userClients (arm r d st) = userClients st" "inflight (arm r d st) = inflight st"
  "next_timer (arm r d st) = Suc (next_timer st)" "length (heap (arm r d st)) = length (heap st)"
  "timers (arm r d st) = map_set (next_timer st) (r, d) (timers st)"
  by (simp_all add: arm_def)

lemma arm_heap:
  "r < length (heap st) \<Longrightarrow> heap (arm r d st) ! r' =
     (if r' = r then (heap st ! r)\<lparr>s_expiryTimer := Some (next_timer st)\<rparr> else heap st ! r')"
  by (simp add: arm_def set_timer_heap)

lemma arm_idents: "r < length (heap st) \<Longrightarrow> idents (arm r d st) = idents st"
  by (rule nth_equalityI) (auto simp: idents_nth arm_heap)

lemma arm_registered: "r < length (heap st) \<Longrightarrow> registered (arm r d st) r' \<longleftrightarrow> registered st r'"
  by (auto simp: registered_def arm_heap)

lemma arm_online: "r < length (heap st) \<Longrightarrow> online (arm r d st) u = online st u"
  by (auto simp: online_def arm_heap)

lemma arm_inv [inv_intros]:
  assumes inv: "ws_inv st" and reg: "registered st r" and none: "\<And>t d. map_get (timers st) t \<noteq> Some (r, d)"
    and d: "1 \<le> d" "d \<le> 2147483647"
  shows "ws_inv (arm r d st)"
proof -
  have r: "r < length (heap st)" using reg by (simp add: registered_def)
  have ok: "timers_ok st" using inv by (simp add: ws_inv_def)
  note D = timers_okD [OF ok]
  have "timers_ok (arm r d st)"
  proof (rule timers_okI)
    show "map_get (timers (arm r d st)) t = Some (r', d') \<Longrightarrow> registered (arm r d st) r' \<and>
        s_expiryTimer (heap (arm r d st) ! r') = Some t \<and> 1 \<le> d' \<and> d' \<le> 2147483647" for t r' d'
      using D(1) [of t r' d'] none [of t d'] reg d
      by (auto simp: arm_registered [OF r] arm_heap [OF r] js_simps split: if_splits)
    show "r' < length (heap (arm r d st)) \<Longrightarrow> s_expiryTimer (heap (arm r d st) ! r') = Some t \<Longrightarrow>
        t < next_timer (arm r d st)" for r' t
      using D(2) [of r' t] by (auto simp: arm_heap [OF r] split: if_splits)
    show "r' < length (heap (arm r d st)) \<Longrightarrow> s_expiryTimer (heap (arm r d st) ! r') = Some t \<Longrightarrow>
        map_get (timers (arm r d st)) t = Some (r'', d') \<Longrightarrow> r'' = r'" for r' t r'' d'
      using D(2,3) [of r' t] D(2) [of r''] D(1) [of t r'' d']
      by (auto simp: arm_heap [OF r] js_simps registered_def split: if_splits)
  qed
  with inv r show ?thesis by (simp add: ws_inv_def arm_idents)
qed

lemma arm_has_timer:
  assumes "timers_ok st" "r < length (heap st)"
  shows "has_timer (arm r d st) r"
    "r' \<noteq> r \<Longrightarrow> r' < length (heap st) \<Longrightarrow> has_timer st r' \<Longrightarrow> has_timer (arm r d st) r'"
  using assms timers_okD(2) [OF assms(1)] by (fastforce simp: has_timer_def arm_heap js_simps)+

text \<open>Scheduling the expiry of a registered session that has no timeout pending releases it or arms
  one for it; the other sessions keep theirs.\<close>

lemma scheduleExpiry_inv:
  assumes inv: "ws_inv st" and reg: "registered st r" and none: "\<And>t d. map_get (timers st) t \<noteq> Some (r, d)"
    and others: "\<And>r'. registered st r' \<Longrightarrow> r' \<noteq> r \<Longrightarrow> armd \<Longrightarrow> has_timer st r'"
    and step: "scheduleExpiry now r st = (st', effs)"
  shows "ws_inv st' \<and> (armd \<longrightarrow> armed st')"
proof -
  have r: "r < length (heap st)" and ok: "timers_ok st"
    using reg inv by (simp_all add: registered_def ws_inv_def)
  let ?d = "node_delay (num_min (num_sub (s_expiresAt (heap st ! r)) (Fin (of_int now))) MAX_TIMER_DELAY_MS)"
  consider "st' = released r st" | "st' = arm r ?d st"
    using step reg r by (auto simp: scheduleExpiry_eq Let_def handleExpiry_eq split: if_splits)
  then show ?thesis
  proof cases
    case 1
    with reg others have "armd \<Longrightarrow> armed st'"
      by (auto simp: armed_def released_registered intro: released_has_timer [OF ok])
    with 1 released_inv [OF inv reg] show ?thesis by simp
  next
    case 2
    have "registered st r' \<Longrightarrow> armd \<Longrightarrow> has_timer (arm r ?d st) r'" for r'
      using arm_has_timer [OF ok r] others [of r'] by (cases "r' = r") (auto simp: registered_def)
    with 2 have "armd \<Longrightarrow> armed st'" by (simp add: armed_def arm_registered [OF r])
    with 2 arm_inv [OF inv reg none] node_delay_bounds show ?thesis by simp
  qed
qed

section \<open>Connections\<close>

definition enrolled :: "user_id \<Rightarrow> client_id \<Rightarrow> session \<Rightarrow> ws_state \<Rightarrow> ws_state" where
  "enrolled u c s st = trackMembership u c
     (st\<lparr>heap := heap st @ [s], sessions := map_set c (length (heap st)) (sessions st)\<rparr>)"

lemma enrolled_fields [simp]:
  "trackers (enrolled u c s st) = trackers st" "timers (enrolled u c s st) = timers st"
  "next_timer (enrolled u c s st) = next_timer st" "inflight (enrolled u c s st) = inflight st"
  "heap (enrolled u c s st) = heap st @ [s]"
  "sessions (enrolled u c s st) = map_set c (length (heap st)) (sessions st)"
  "userClients (enrolled u c s st) = map_set u (set_add c (members_of (userClients st) u)) (userClients st)"
  by (simp_all add: enrolled_def trackMembership_userClients)

definition new_session :: "jstr \<Rightarrow> user_id \<Rightarrow> client_id \<Rightarrow> connection_params \<Rightarrow> session" where
  "new_session uuid userId clientId params =
     \<lparr>s_userId = userId, s_clientId = clientId, s_socket = p_socket params,
      s_presenceToken = uuid, s_expiresAt = p_expiresAt params, s_expiryTimer = None\<rparr>"

lemma handleConnection_eq:
  assumes "p_userId params = Some u" "p_clientId params = Some c" "map_get (sessions st) c = None"
  shows "handleConnection uuid now params st =
    (let s = new_session uuid u c params; st2 = enrolled u c s st;
         (st3, effs) = scheduleExpiry now (length (heap st)) st2
     in (Registered, st3, fanOut st2 s Connect @ [ListenSocket (p_socket params) (length (heap st)),
           Log Info (session_name u c @ str '' connected'') None] @ effs))"
  using assms by (simp add: handleConnection_def enrolled_def new_session_def Let_def split: prod.split)

lemma handleConnection_refused:
  assumes "p_userId params = None \<or> p_clientId params = None
    \<or> (\<exists>c. p_clientId params = Some c \<and> map_get (sessions st) c \<noteq> None)"
  shows "fst (snd (handleConnection uuid now params st)) = st"
  using assms by (auto simp: handleConnection_def split: option.split)

lemma enrolled_registered:
  assumes "s_clientId s = c" "map_get (sessions st) c = None"
  shows "registered (enrolled u c s st) r \<longleftrightarrow> r = length (heap st) \<or> registered st r"
  using assms by (auto simp: registered_def js_simps nth_append less_Suc_eq)

lemma enrolled_online:
  assumes "ws_inv st" "s_clientId s = c" "s_userId s = u" "map_get (sessions st) c = None"
  shows "online (enrolled u c s st) u' = (if u' = u then insert c (online st u) else online st u')"
proof -
  have "map_get (sessions st) c' = Some r \<Longrightarrow> r < length (heap st)" for c' r
    using assms(1) index_okD(3) by (fastforce simp: ws_inv_def)
  with assms show ?thesis by (auto simp: online_def js_simps nth_append)
qed

lemma enrolled_inv:
  assumes inv: "ws_inv st" and new: "map_get (sessions st) c = None"
    and s: "s_clientId s = c" "s_userId s = u" "s_expiryTimer s = None"
  shows "ws_inv (enrolled u c s st)"
proof -
  have ok: "timers_ok st" and ix: "index_ok (sessions st) (userClients st) (idents st)"
    using inv by (simp_all add: ws_inv_def)
  note D = timers_okD [OF ok]
  have "idents (enrolled u c s st) = idents st @ [(u, c)]" using s by (simp add: idents_def)
  with index_add [OF ix new, of u] have "index_ok (sessions (enrolled u c s st))
      (userClients (enrolled u c s st)) (idents (enrolled u c s st))" by simp
  moreover have "timers_ok (enrolled u c s st)"
  proof (rule timers_okI)
    show "map_get (timers (enrolled u c s st)) t = Some (r, d) \<Longrightarrow> registered (enrolled u c s st) r \<and>
        s_expiryTimer (heap (enrolled u c s st) ! r) = Some t \<and> 1 \<le> d \<and> d \<le> 2147483647" for t r d
      using D(1) [of t r d] by (auto simp: enrolled_registered [OF s(1) new] nth_append dest: registered_less)
  qed (use D(2,3) s(3) in \<open>auto simp: nth_append split: if_splits\<close>)
  ultimately show ?thesis by (simp add: ws_inv_def)
qed

lemma handleConnection_inv:
  assumes inv: "ws_inv st" and step: "handleConnection uuid now params st = (res, st', effs)"
  shows "ws_inv st' \<and> (armed st \<longrightarrow> armed st')"
proof (cases "p_userId params = None \<or> p_clientId params = None
    \<or> (\<exists>c. p_clientId params = Some c \<and> map_get (sessions st) c \<noteq> None)")
  case True
  then show ?thesis using handleConnection_refused [OF True, of uuid now] inv step by simp
next
  case False
  then obtain u c where uc: "p_userId params = Some u" "p_clientId params = Some c" "map_get (sessions st) c = None"
    by auto
  let ?s = "new_session uuid u c params"
  have s: "s_clientId ?s = c" "s_userId ?s = u" "s_expiryTimer ?s = None" by (simp_all add: new_session_def)
  obtain effs' where sch: "scheduleExpiry now (length (heap st)) (enrolled u c ?s st) = (st', effs')"
    using step by (auto simp: handleConnection_eq [OF uc] Let_def split: prod.splits)
  have ok: "timers_ok st" using inv by (simp add: ws_inv_def)
  show ?thesis
  proof (rule scheduleExpiry_inv [OF enrolled_inv [OF inv uc(3) s] _ _ _ sch])
    show "registered (enrolled u c ?s st) (length (heap st))" by (simp add: enrolled_registered [OF s(1) uc(3)])
    show "map_get (timers (enrolled u c ?s st)) t \<noteq> Some (length (heap st), d)" for t d
      using timers_okD(1) [OF ok, of t "length (heap st)" d] by (auto simp: registered_def)
    show "registered (enrolled u c ?s st) r' \<Longrightarrow> r' \<noteq> length (heap st) \<Longrightarrow> armed st \<Longrightarrow>
        has_timer (enrolled u c ?s st) r'" for r'
      by (auto simp: enrolled_registered [OF s(1) uc(3)] armed_def has_timer_def nth_append dest: registered_less)
  qed
qed

section \<open>Steps\<close>

lemma on_close_state:
  "r < length (heap st) \<Longrightarrow> fst (on_close r st) = (if registered st r then released r st else st)"
  by (simp add: on_close_def release_eq Let_def)

lemma handleMessage_state:
  "\<exists>bs. fst (handleMessage env u c data st) = st\<lparr>inflight := inflight st @ bs\<rparr>"
  by (cases "parseInboundFrame data")
    (auto simp: handleMessage_def Let_def canSendTo_def split: prod.split intro: exI [of _ "[]"])

lemma settle_broadcast_state:
  "fst (settle_broadcast env k answer st) = st\<lparr>inflight := take k (inflight st) @ drop (Suc k) (inflight st)\<rparr>"
  by (simp add: settle_broadcast_def Let_def split: sum.split prod.split)

lemma inflight_irrelevant [simp]:
  "registered (st\<lparr>inflight := bs\<rparr>) = registered st" "ws_inv (st\<lparr>inflight := bs\<rparr>) = ws_inv st"
  "armed (st\<lparr>inflight := bs\<rparr>) = armed st" "online (st\<lparr>inflight := bs\<rparr>) = online st"
  by (simp_all add: ws_inv_def timers_ok_def idents_def armed_def has_timer_def registered_def online_def
      fun_eq_iff)

text \<open>A timeout leaves Node's list when it fires.\<close>

lemma fired_inv:
  assumes inv: "ws_inv st" and t: "map_get (timers st) t = Some (r, d)"
  shows "ws_inv (st\<lparr>timers := map_delete t (timers st)\<rparr>)"
    "registered (st\<lparr>timers := map_delete t (timers st)\<rparr>) r' \<longleftrightarrow> registered st r'" "registered st r"
    "map_get (map_delete t (timers st)) t' \<noteq> Some (r, d')"
    "r' \<noteq> r \<Longrightarrow> has_timer st r' \<Longrightarrow> has_timer (st\<lparr>timers := map_delete t (timers st)\<rparr>) r'"
proof -
  have ok: "timers_ok st" using inv by (simp add: ws_inv_def)
  note D = timers_okD [OF ok]
  show reg: "registered (st\<lparr>timers := map_delete t (timers st)\<rparr>) r' \<longleftrightarrow> registered st r'" for r'
    by (simp add: registered_def)
  have "timers_ok (st\<lparr>timers := map_delete t (timers st)\<rparr>)"
    by (rule timers_okI) (use D in \<open>auto simp: registered_def js_simps split: if_splits\<close>)
  then show "ws_inv (st\<lparr>timers := map_delete t (timers st)\<rparr>)" using inv by (simp add: ws_inv_def idents_def)
  show "registered st r" using D(1) [OF t] by simp
  show "map_get (map_delete t (timers st)) t' \<noteq> Some (r, d')"
    using D(1) [OF t] D(1) [of t' r d'] by (auto simp: js_simps)
  assume "r' \<noteq> r" "has_timer st r'"
  moreover then obtain t' d' where "s_expiryTimer (heap st ! r') = Some t'" "map_get (timers st) t' = Some (r', d')"
    by (auto simp: has_timer_def)
  ultimately show "has_timer (st\<lparr>timers := map_delete t (timers st)\<rparr>) r'"
    using t by (cases "t' = t") (simp_all add: has_timer_def js_simps)
qed

lemma handleExpiryTimer_inv:
  assumes inv: "ws_inv st" and t: "map_get (timers st) t = Some (r, d)"
    and step: "handleExpiryTimer now now' r (st\<lparr>timers := map_delete t (timers st)\<rparr>) = (st', effs)"
  shows "ws_inv st' \<and> (armed st \<longrightarrow> armed st')"
proof -
  let ?st = "st\<lparr>timers := map_delete t (timers st)\<rparr>"
  note F = fired_inv [OF inv t]
  have reg: "registered ?st r" using F(2,3) by simp
  have others: "registered ?st r' \<Longrightarrow> r' \<noteq> r \<Longrightarrow> armed st \<Longrightarrow> has_timer ?st r'" for r'
    using F(2,5) by (simp add: armed_def)
  consider "scheduleExpiry now' r ?st = (st', effs)" | "st' = released r ?st"
    using step reg registered_less [OF reg]
    by (auto simp: handleExpiryTimer_def handleExpiry_eq split: if_splits)
  then show ?thesis
  proof cases
    case 1
    show ?thesis by (rule scheduleExpiry_inv [OF F(1) reg _ others 1]) (use F(4) in simp_all)
  next
    case 2
    have "armed st \<Longrightarrow> armed (released r ?st)"
      using others F(1) by (auto simp: armed_def released_registered [OF reg] ws_inv_def
          intro!: released_has_timer [OF _ reg])
    with 2 released_inv [OF F(1) reg] show ?thesis by simp
  qed
qed

text \<open>Shutdown clears the timeout of every registered session.\<close>

lemma clearExpiryTimer_inv:
  assumes "ws_inv st" "registered st r"
  shows "ws_inv (clearExpiryTimer r st)" "registered (clearExpiryTimer r st) r' \<longleftrightarrow> registered st r'"
proof -
  note r = registered_less [OF assms(2)]
  have ok: "timers_ok st" using assms(1) by (simp add: ws_inv_def)
  note D = timers_okD [OF ok]
  show reg: "registered (clearExpiryTimer r st) r' \<longleftrightarrow> registered st r'" for r'
    by (auto simp: registered_def clearExpiryTimer_heap [OF r])
  have "timers_ok (clearExpiryTimer r st)"
    by (rule timers_okI) (use D in \<open>auto simp: reg clearExpiryTimer_heap [OF r] clearExpiryTimer_timers
        split: if_splits\<close>)
  with assms(1) r show "ws_inv (clearExpiryTimer r st)" by (simp add: ws_inv_def)
qed

lemma clear_all:
  assumes "ws_inv st" "\<forall>r \<in> set rs. registered st r"
  shows "ws_inv (fold clearExpiryTimer rs st)"
    "map_get (timers (fold clearExpiryTimer rs st)) t = Some (r, d) \<Longrightarrow>
       map_get (timers st) t = Some (r, d) \<and> r \<notin> set rs"
  using assms
proof (induction rs arbitrary: st)
  case (Cons r' rs)
  have inv: "ws_inv (clearExpiryTimer r' st) \<and> (\<forall>r \<in> set rs. registered (clearExpiryTimer r' st) r)"
    if "ws_inv st" "\<forall>r \<in> set (r' # rs). registered st r" for st
    using clearExpiryTimer_inv [OF that(1), of r'] that(2) by simp
  {
    case 1
    show ?case using Cons.IH(1) [of "clearExpiryTimer r' st"] inv [OF 1] by simp
  next
    case 2
    have "map_get (timers (clearExpiryTimer r' st)) t = Some (r, d) \<and> r \<notin> set rs"
      using Cons.IH(2) [of "clearExpiryTimer r' st"] inv [OF 2(2,3)] 2(1) by simp
    moreover have "map_get (timers st) t = Some (r, d) \<Longrightarrow> s_expiryTimer (heap st ! r) = Some t"
      using 2 timers_okD(1) by (fastforce simp: ws_inv_def)
    ultimately show ?case by (auto simp: clearExpiryTimer_timers split: if_splits)
  }
qed simp_all

lemma sessions_registered:
  assumes "ws_inv st" "r \<in> set (map snd (sessions st))"
  shows "registered st r"
proof -
  have ix: "index_ok (sessions st) (userClients st) (idents st)" using assms(1) by (simp add: ws_inv_def)
  obtain c where "(c, r) \<in> set (sessions st)" using assms(2) by auto
  with index_okD(1) [OF ix] have "map_get (sessions st) c = Some r"
    by (simp add: map_get_def map_ok_def)
  with index_okD(3) [OF ix, of c r] show ?thesis by (auto simp: registered_def idents_nth)
qed

lemma onModuleDestroy_inv: "ws_inv st \<Longrightarrow> ws_inv (onModuleDestroy st)"
  unfolding onModuleDestroy_def by (rule clear_all) (simp_all add: sessions_registered del: set_map)

theorem ws_step_inv:
  assumes "ws_step st ev effs st'" "ws_inv st"
  shows "ws_inv st' \<and> (ev \<noteq> Shutdown \<longrightarrow> armed st \<longrightarrow> armed st')"
  using assms(1)
proof (cases rule: ws_step.cases)
  case (ws_step env)
  show ?thesis
  proof (cases ev)
    case (Connection uuid now params)
    then show ?thesis using ws_step handleConnection_inv [OF assms(2), of uuid now params]
      by (cases "handleConnection uuid now params st") auto
  next
    case (Message r data)
    then show ?thesis
      using ws_step assms(2) handleMessage_state [of env "s_userId (heap st ! r)" "s_clientId (heap st ! r)" data st]
      by auto
  next
    case (Closed r)
    then have "st' = (if registered st r then released r st else st)"
      using ws_step on_close_state [of r st] by simp
    then show ?thesis using assms(2) released_inv released_armed by (auto simp: ws_inv_def)
  next
    case (TimerFired t now now')
    then show ?thesis using ws_step handleExpiryTimer_inv [OF assms(2), of t] by auto
  next
    case (BroadcastSettled k answer)
    then show ?thesis using ws_step assms(2) settle_broadcast_state [of env k answer st] by auto
  next
    case Shutdown
    then show ?thesis using ws_step assms(2) onModuleDestroy_inv by auto
  qed (use ws_step assms(2) in auto)
qed

end
