(* ===== verification/Ws_Properties.thy ===== *)
theory Ws_Properties
  imports Ws_Invariants
begin

text \<open>
  The contract of the session registry. The abstract view of a replica is the map from each
  connected client to its user and presence token; a tracker's notifications drive that view step
  by step, and every run of the registry refines it. Further sections: expiry, local delivery,
  inbound messages, shutdown.
\<close>

section \<open>The abstract view and its notifications\<close>

type_synonym view = "client_id \<Rightarrow> (user_id \<times> jstr) option"

definition view_of :: "ws_state \<Rightarrow> view" where
  "view_of st c =
     (case map_get (sessions st) c of
        None \<Rightarrow> None
      | Some r \<Rightarrow> Some (s_userId (heap st ! r), s_presenceToken (heap st ! r)))"

definition user_clients :: "view \<Rightarrow> user_id \<Rightarrow> client_id set" where
  "user_clients V u = {c. \<exists>tok. V c = Some (u, tok)}"

fun notices :: "tracker \<Rightarrow> ws_effect list \<Rightarrow> (phase \<times> lifecycle_event) list" where
  "notices t [] = []"
| "notices t (NotifyConnect t' e # es) = (if t' = t then (Connect, e) # notices t es else notices t es)"
| "notices t (NotifyDisconnect t' e # es) = (if t' = t then (Disconnect, e) # notices t es else notices t es)"
| "notices t (_ # es) = notices t es"

text \<open>A notification is in order when a client connects while absent and disconnects with the user
  and token it connected with, and when it carries the user's session total after the change.\<close>

definition observe :: "phase \<times> lifecycle_event \<Rightarrow> view \<Rightarrow> view option" where
  "observe n V =
     (let e = snd n;
          V' = (case fst n of Connect \<Rightarrow> V(e_clientId e \<mapsto> (e_userId e, e_token e))
                | Disconnect \<Rightarrow> V(e_clientId e := None));
          before = (case fst n of Connect \<Rightarrow> None | Disconnect \<Rightarrow> Some (e_userId e, e_token e))
      in if V (e_clientId e) = before \<and> e_userSessionCount e = card (user_clients V' (e_userId e))
         then Some V' else None)"

fun observe_all :: "(phase \<times> lifecycle_event) list \<Rightarrow> view \<Rightarrow> view option" where
  "observe_all [] V = Some V"
| "observe_all (n # ns) V = (case observe n V of None \<Rightarrow> None | Some V' \<Rightarrow> observe_all ns V')"

lemma observe_all_append:
  "observe_all (ms @ ns) V = (case observe_all ms V of None \<Rightarrow> None | Some V' \<Rightarrow> observe_all ns V')"
  by (induction ms arbitrary: V) (auto split: option.split)

lemma notices_append [simp]: "notices t (xs @ ys) = notices t xs @ notices t ys"
  by (induction t xs rule: notices.induct) auto

lemma user_clients_view: "user_clients (view_of st) u = online st u"
  by (auto simp: user_clients_def view_of_def online_def split: option.splits)

lemma notices_fanOut:
  assumes "distinct (trackers st)" "t \<in> set (trackers st)"
  shows "notices t (fanOut st s ph) = [(ph, lifecycle_of st s)]"
proof -
  have "notices t (map (\<lambda>t. notifyTracker t e ph) ts) = replicate (count_list ts t) (ph, e)" for ts e
    by (induction ts) (auto simp: notifyTracker_def split: phase.split)
  moreover have "distinct ts \<Longrightarrow> t \<in> set ts \<Longrightarrow> count_list ts t = 1" for ts
    by (induction ts) auto
  ultimately show ?thesis using assms by (simp add: fanOut_def)
qed

lemma view_released:
  "registered st r \<Longrightarrow> view_of (released r st) = (view_of st)(s_clientId (heap st ! r) := None)"
  by (auto simp: view_of_def registered_def clearExpiryTimer_heap js_simps fun_eq_iff split: option.split)

lemma view_arm: "r < length (heap st) \<Longrightarrow> view_of (arm r d st) = view_of st"
  by (auto simp: view_of_def arm_heap fun_eq_iff split: option.split)

lemma view_clear_all:
  "\<forall>r \<in> set rs. r < length (heap st) \<Longrightarrow>
     view_of (fold clearExpiryTimer rs st) = view_of st \<and> trackers (fold clearExpiryTimer rs st) = trackers st"
proof (induction rs arbitrary: st)
  case (Cons r rs)
  then have "view_of (clearExpiryTimer r st) = view_of st"
    by (auto simp: view_of_def clearExpiryTimer_heap fun_eq_iff split: option.split)
  with Cons show ?case by simp
qed simp

lemma view_enrolled:
  assumes "ws_inv st"
  shows "view_of (enrolled u c s st) = (view_of st)(c \<mapsto> (s_userId s, s_presenceToken s))"
proof -
  have "map_get (sessions st) c' = Some r \<Longrightarrow> r < length (heap st)" for c' r
    using assms index_okD(3) by (fastforce simp: ws_inv_def)
  then show ?thesis by (auto simp: view_of_def js_simps nth_append fun_eq_iff split: option.split)
qed

lemma observe_released:
  assumes "ws_inv st" "registered st r"
  shows "observe (Disconnect, lifecycle_of (released r st) (heap st ! r)) (view_of st) = Some (view_of (released r st))"
proof -
  have "countUserSessions (released r st) u = card (user_clients (view_of (released r st)) u)" for u
    using released_inv [OF assms] by (simp add: countUserSessions_online user_clients_view)
  with assms(2) show ?thesis
    by (simp add: observe_def lifecycle_of_def view_released view_of_def registered_def Let_def)
qed

lemma observe_enrolled:
  assumes "ws_inv st" "map_get (sessions st) (s_clientId s) = None" "s_expiryTimer s = None"
  shows "observe (Connect, lifecycle_of (enrolled (s_userId s) (s_clientId s) s st) s) (view_of st) =
    Some (view_of (enrolled (s_userId s) (s_clientId s) s st))"
proof -
  let ?st = "enrolled (s_userId s) (s_clientId s) s st"
  have "countUserSessions ?st u = card (user_clients (view_of ?st) u)" for u
    using enrolled_inv [OF assms(1,2) refl refl assms(3)] by (simp add: countUserSessions_online user_clients_view)
  with assms view_enrolled [OF assms(1)] show ?thesis
    by (simp add: observe_def lifecycle_of_def view_of_def Let_def)
qed

section \<open>Notifications of one step\<close>

lemma notices_sendToClient [simp]: "notices t (snd (sendToClient env c m st)) = []"
  by (simp add: sendToClient_def split: option.split stringified.split)

lemma notices_local_delivery [simp]: "notices t (snd (local_delivery env cs m x st)) = []"
proof (induction cs)
  case (Cons c cs)
  then show ?case using notices_sendToClient [of t env c m st]
    by (cases "sendToClient env c m st") (auto simp: Let_def split: prod.split)
qed simp

lemma notices_quiet [simp]:
  "notices t (snd (sendToLocalUser env u m x st)) = []" "notices t (sendNack env c reason st) = []"
  "notices t (handleError u c err) = []" "notices t (snd (sendToUser u m x)) = []"
  "notices t (snd (sendToUser_published ch ev answer)) = []" "notices t (delivery_failed env u c err st) = []"
  by (simp_all add: sendToLocalUser_def sendNack_def handleError_def sendToUser_def Let_def
      sendToUser_published_def delivery_failed_def split: option.split sum.split)

lemma notices_handleMessage [simp]: "notices t (snd (handleMessage env u c data st)) = []"
proof (cases "parseInboundFrame data")
  case (Send target m)
  then show ?thesis using notices_quiet(4) [of t target m "Some c"]
    by (cases "sendToUser target m (Some c)") (simp add: handleMessage_def Let_def)
qed (simp_all add: handleMessage_def Let_def)

lemma notices_settle [simp]: "notices t (snd (settle_broadcast env k answer st)) = []"
proof (cases "b_envelope (inflight st ! k)")
  case (Inr envelope)
  then show ?thesis using notices_quiet(5) [of t "b_channel (inflight st ! k)" envelope answer]
    by (cases "sendToUser_published (b_channel (inflight st ! k)) envelope answer")
      (simp add: settle_broadcast_def Let_def split: sum.split)
qed (simp add: settle_broadcast_def Let_def)

lemma notices_scheduleExpiry:
  assumes inv: "ws_inv st" and reg: "registered st r" and ts: "distinct (trackers st)" "t \<in> set (trackers st)"
    and step: "scheduleExpiry now r st = (st', effs)"
  shows "observe_all (notices t effs) (view_of st) = Some (view_of st') \<and> trackers st' = trackers st"
  using step ts registered_less [OF reg] reg observe_released [OF inv reg] notices_fanOut [of "released r st" t]
  by (auto simp: scheduleExpiry_eq Let_def handleExpiry_eq view_arm split: if_splits)

text \<open>Each step's notifications to a tracker take the view before the step to the view after it.\<close>

lemma step_refines_view:
  assumes "ws_step st ev effs st'" "ws_inv st" and ts: "distinct (trackers st)" "t \<in> set (trackers st)"
  shows "observe_all (notices t effs) (view_of st) = Some (view_of st') \<and> trackers st' = trackers st"
  using assms(1)
proof (cases rule: ws_step.cases)
  case (ws_step env)
  have quiet: "view_of (st\<lparr>inflight := bs\<rparr>) = view_of st" for bs
    by (simp add: view_of_def fun_eq_iff split: option.split)
  show ?thesis
  proof (cases ev)
    case (Message r data)
    let ?h = "handleMessage env (s_userId (heap st ! r)) (s_clientId (heap st ! r)) data st"
    have "?h = (st', effs)" using ws_step Message by simp
    with notices_handleMessage [of t env "s_userId (heap st ! r)" "s_clientId (heap st ! r)" data st]
      handleMessage_state [of env "s_userId (heap st ! r)" "s_clientId (heap st ! r)" data st] quiet
    show ?thesis by auto
  next
    case (BroadcastSettled k answer)
    then show ?thesis using ws_step notices_settle [of t env k answer st] settle_broadcast_state [of env k answer st]
        quiet by auto
  next
    case (Closed r)
    then show ?thesis
      using ws_step ts observe_released [OF assms(2), of r] notices_fanOut [of "released r st" t]
      by (auto simp: on_close_def release_eq Let_def split: if_splits)
  next
    case (TimerFired i now now')
    then obtain r d where i: "map_get (timers st) i = Some (r, d)" using ws_step by auto
    let ?st = "st\<lparr>timers := map_delete i (timers st)\<rparr>"
    note F = fired_inv [OF assms(2) i]
    have reg: "registered ?st r" using F(2,3) by simp
    have v: "view_of ?st = view_of st" by (simp add: view_of_def fun_eq_iff split: option.split)
    have "handleExpiryTimer now now' r ?st = (st', effs)" using ws_step TimerFired i by simp
    with notices_scheduleExpiry [OF F(1) reg, of t now' st' effs] ts observe_released [OF F(1) reg] reg
      registered_less [OF reg] notices_fanOut [of "released r ?st" t]
    show ?thesis by (auto simp: handleExpiryTimer_def handleExpiry_eq v split: if_splits)
  next
    case Shutdown
    have "\<forall>r \<in> set (map snd (sessions st)). r < length (heap st)"
      using sessions_registered [OF assms(2)] registered_less by blast
    from view_clear_all [OF this] Shutdown show ?thesis using ws_step by (simp add: onModuleDestroy_def)
  next
    case (Connection uuid now params)
    show ?thesis
    proof (cases "p_userId params = None \<or> p_clientId params = None
        \<or> (\<exists>c. p_clientId params = Some c \<and> map_get (sessions st) c \<noteq> None)")
      case True
      then show ?thesis using ws_step Connection
        by (auto simp: handleConnection_def split: option.splits)
    next
      case False
      then obtain u c where uc: "p_userId params = Some u" "p_clientId params = Some c"
        "map_get (sessions st) c = None" by auto
      let ?s = "new_session uuid u c params"
      have s: "s_clientId ?s = c" "s_userId ?s = u" "s_expiryTimer ?s = None" by (simp_all add: new_session_def)
      let ?st = "enrolled u c ?s st"
      obtain effs' where sch: "scheduleExpiry now (length (heap st)) ?st = (st', effs')"
        and effs: "notices t effs = notices t (fanOut ?st ?s Connect) @ notices t effs'"
        using ws_step Connection
        by (cases "scheduleExpiry now (length (heap st)) ?st") (auto simp: handleConnection_eq [OF uc] Let_def)
      have reg: "registered ?st (length (heap st))" by (simp add: enrolled_registered [OF s(1) uc(3)])
      show ?thesis
        using notices_scheduleExpiry [OF enrolled_inv [OF assms(2) uc(3) s] reg _ _ sch, of t] ts effs
          notices_fanOut [of ?st t] observe_enrolled [OF assms(2), of ?s] s uc(3)
        by (simp add: observe_all_append)
    qed
  qed (use ws_step in auto)
qed

section \<open>Runs\<close>

text \<open>The trackers \<open>WsModule\<close> provides, in order.\<close>

definition SESSION_TRACKERS :: "tracker list" where
  "SESSION_TRACKERS = [PresenceTracker, UserTopicTracker]"

lemma new_registry_inv: "ws_inv (new_registry ts)" "armed (new_registry ts)"
  by (simp_all add: ws_inv_def index_ok_def timers_ok_def armed_def registered_def new_registry_def js_simps
      members_of_def)

lemma ws_run_inv: "ws_run st tr st' \<Longrightarrow> ws_inv st \<Longrightarrow> ws_inv st'"
  by (induction rule: ws_run.induct) (auto dest: ws_step_inv)

lemma ws_run_armed:
  "ws_run st tr st' \<Longrightarrow> ws_inv st \<Longrightarrow> armed st \<Longrightarrow> Shutdown \<notin> fst ` set tr \<Longrightarrow> armed st'"
  by (induction rule: ws_run.induct) (auto dest: ws_step_inv ws_run_inv)

lemma ws_run_view:
  assumes "ws_run st tr st'" "ws_inv st" "distinct (trackers st)" "t \<in> set (trackers st)"
  shows "observe_all (notices t (trace_effects tr)) (view_of st) = Some (view_of st') \<and> trackers st' = trackers st"
  using assms
proof (induction rule: ws_run.induct)
  case (ws_next tr st' ev effs st'')
  then show ?case using step_refines_view [OF ws_next(2) ws_run_inv [OF ws_next(1)], of t]
    by (simp add: trace_effects_def observe_all_append)
qed (simp add: trace_effects_def)

lemma ws_run_exec:
  "ws_run st tr st' \<Longrightarrow> ws_enabled ev st' \<Longrightarrow> ws_run st (tr @ [(ev, snd (ws_exec env ev st'))]) (fst (ws_exec env ev st'))"
  by (rule ws_next) (auto intro: ws_step.intros [of _ _ env])

section \<open>Expiry\<close>

lemma num_sub_int: "\<bar>a - b\<bar> \<le> 2 ^ 53 \<Longrightarrow> num_sub (Fin (of_int a)) (Fin (of_int b)) = Fin (of_int (a - b))"
  using to_double_int [of "a - b"] by simp

lemma scheduleExpiry_int:
  assumes e: "s_expiresAt (heap st ! r) = Fin (of_int e)" and d: "\<bar>e - now\<bar> \<le> 2 ^ 53"
  shows "scheduleExpiry now r st =
    (if e \<le> now then handleExpiry r st else (arm r (min (e - now) 2147483647) st, []))"
proof -
  have n: "num_sub (s_expiresAt (heap st ! r)) (Fin (of_int now)) = Fin (of_int (e - now))"
    unfolding e by (rule num_sub_int [OF d])
  have "(of_int (e - now) < (2147483647 :: rat)) = (e - now < 2147483647)"
    "(1 \<le> (of_int (e - now) :: rat)) = (1 \<le> e - now)" "((of_int (e - now) :: rat) \<le> 0) = (e - now \<le> 0)"
    by (simp_all only: of_int_less_numeral_iff of_int_1_le_iff of_int_le_0_iff)
  then show ?thesis
    unfolding scheduleExpiry_eq Let_def n
    by (auto simp: num_le_def num_min_def node_delay_def MAX_TIMER_DELAY_MS_def min_def not_less)
qed

lemma handleExpiryTimer_int:
  assumes e: "s_expiresAt (heap st ! r) = Fin (of_int e)" and d: "\<bar>e - now\<bar> \<le> 2 ^ 53" "\<bar>e - now'\<bar> \<le> 2 ^ 53"
  shows "handleExpiryTimer now now' r st =
    (if e \<le> now \<or> e \<le> now' then handleExpiry r st else (arm r (min (e - now') 2147483647) st, []))"
proof -
  have n: "num_sub (s_expiresAt (heap st ! r)) (Fin (of_int now)) = Fin (of_int (e - now))"
    unfolding e by (rule num_sub_int [OF d(1)])
  show ?thesis unfolding handleExpiryTimer_def n scheduleExpiry_int [OF e d(2)] by (auto simp: not_less)
qed

section \<open>Local delivery\<close>

fun sends :: "ws_effect list \<Rightarrow> (socket \<times> jstr) list" where
  "sends [] = []"
| "sends (SendSocket s p # es) = (s, p) # sends es"
| "sends (_ # es) = sends es"

lemma sends_append [simp]: "sends (xs @ ys) = sends xs @ sends ys"
  by (induction xs rule: sends.induct) auto

text \<open>The client has a session whose socket is open and takes the payload.\<close>

definition deliverable :: "socket_env \<Rightarrow> ws_state \<Rightarrow> client_id \<Rightarrow> bool" where
  "deliverable env st c =
     (case getSession c st of
        None \<Rightarrow> False
      | Some s \<Rightarrow> readyState env (s_socket s) = OPEN \<and> \<not> sendThrows env (s_socket s))"

definition socket_of :: "ws_state \<Rightarrow> client_id \<Rightarrow> socket" where
  "socket_of st c = s_socket (the (getSession c st))"

lemma sendToClient_text:
  assumes "JSON_stringify m = Text p"
  shows "fst (sendToClient env c m st) = deliverable env st c"
    "sends (snd (sendToClient env c m st)) = (if deliverable env st c then [(socket_of st c, p)] else [])"
  using assms by (auto simp: sendToClient_def deliverable_def socket_of_def split: option.split)

lemma sendToClient_not_text:
  assumes "\<And>p. JSON_stringify m \<noteq> Text p"
  shows "fst (sendToClient env c m st) = False" "sends (snd (sendToClient env c m st)) = []"
  using assms by (auto simp: sendToClient_def split: option.split stringified.split)

lemma local_delivery_text:
  assumes "JSON_stringify m = Text p"
  shows "fst (local_delivery env cs m x st) = length (filter (\<lambda>c. x \<noteq> Some c \<and> deliverable env st c) cs)"
    "sends (snd (local_delivery env cs m x st)) =
       map (\<lambda>c. (socket_of st c, p)) (filter (\<lambda>c. x \<noteq> Some c \<and> deliverable env st c) cs)"
  by (induction cs) (auto simp: Let_def split_def sendToClient_text [OF assms])

lemma sendToLocalUser_members:
  "sendToLocalUser env u m x st = local_delivery env (members_of (userClients st) u) m x st"
  by (simp add: sendToLocalUser_def members_of_def split: option.split)

section \<open>A sample run\<close>

text \<open>One session, connected at 1000 with a token that expires at 5000.\<close>

definition sample_params :: connection_params where
  "sample_params = \<lparr>p_socket = 7, p_userId = Some (str ''ann''), p_clientId = Some (str ''c1''),
     p_expiresAt = Fin (of_int 5000)\<rparr>"

definition sample_session :: session where
  "sample_session = \<lparr>s_userId = str ''ann'', s_clientId = str ''c1'', s_socket = 7,
     s_presenceToken = str ''tok'', s_expiresAt = Fin (of_int 5000), s_expiryTimer = Some 0\<rparr>"

definition sample_state :: ws_state where
  "sample_state = \<lparr>trackers = SESSION_TRACKERS, heap = [sample_session], sessions = [(str ''c1'', 0)],
     userClients = [(str ''ann'', [str ''c1''])], timers = [(0, (0, 4000))], next_timer = 1, inflight = []\<rparr>"

definition sample_env :: socket_env where
  "sample_env = \<lparr>readyState = (\<lambda>_. OPEN), sendThrows = (\<lambda>_. False)\<rparr>"

definition sample_event :: ws_event where
  "sample_event = Connection (str ''tok'') 1000 sample_params"

definition sample_trace :: ws_trace where
  "sample_trace = [(sample_event, snd (ws_exec sample_env sample_event (new_registry SESSION_TRACKERS)))]"

lemma sample_exec: "fst (ws_exec sample_env sample_event (new_registry SESSION_TRACKERS)) = sample_state"
proof -
  let ?s = "new_session (str ''tok'') (str ''ann'') (str ''c1'') sample_params"
  let ?st = "enrolled (str ''ann'') (str ''c1'') ?s (new_registry SESSION_TRACKERS)"
  have "s_expiresAt (heap ?st ! 0) = Fin (of_int 5000)"
    by (simp add: new_session_def sample_params_def new_registry_def)
  from scheduleExpiry_int [OF this, of 1000] have "scheduleExpiry 1000 0 ?st = (arm 0 4000 ?st, [])" by simp
  moreover have "p_userId sample_params = Some (str ''ann'')" "p_clientId sample_params = Some (str ''c1'')"
    "map_get (sessions (new_registry SESSION_TRACKERS)) (str ''c1'') = None"
    by (simp_all add: sample_params_def new_registry_def js_simps)
  moreover have "arm 0 4000 ?st = sample_state"
    by (simp add: arm_def set_timer_def sample_state_def sample_session_def new_registry_def enrolled_def
        trackMembership_def new_session_def sample_params_def map_get_def map_set_def set_add_def Let_def)
  ultimately show ?thesis
    by (simp add: sample_event_def handleConnection_eq Let_def new_registry_def)
qed

lemma sample_run: "ws_run (new_registry SESSION_TRACKERS) sample_trace sample_state"
  using ws_run_exec [OF ws_start, of sample_event "new_registry SESSION_TRACKERS" sample_env] sample_exec
  by (simp add: sample_trace_def sample_event_def)

lemma sample_inv: "ws_inv sample_state"
  using ws_run_inv [OF sample_run] new_registry_inv by simp

section \<open>Properties\<close>

text \<open>C1: On every run of the registry, the notifications each tracker receives are in order and
  complete: a client connects only while absent, disconnects at most once per connect and with the
  user and presence token it connected with, each notification carries the user's local session
  total after the change, and replaying them gives exactly the sessions the registry holds.\<close>

theorem notifications_refine_sessions:
  assumes "ws_run (new_registry ts) tr st" and "distinct ts" and "t \<in> set ts"
  shows "observe_all (notices t (trace_effects tr)) (\<lambda>_. None) = Some (view_of st)"
proof -
  have "view_of (new_registry ts) = (\<lambda>_. None)" by (simp add: view_of_def new_registry_def js_simps fun_eq_iff)
  then show ?thesis
    using ws_run_view [OF assms(1) new_registry_inv(1), of t] assms(2,3) by (simp add: new_registry_def)
qed

theorem notifications_refine_sessions_witness:
  "observe_all (notices PresenceTracker (trace_effects sample_trace)) (\<lambda>_. None) = Some (view_of sample_state) \<and>
   view_of sample_state (str ''c1'') = Some (str ''ann'', str ''tok'')"
  using notifications_refine_sessions [OF sample_run, of PresenceTracker]
  by (simp add: SESSION_TRACKERS_def view_of_def sample_state_def sample_session_def map_get_def)

text \<open>C8: In every reachable state the two maps of the registry agree: the index lists exactly the
  clients of a user's registered sessions, each once, no user has an empty entry, a session is
  filed under its own client id, and the count reported to trackers is the number of the user's
  sessions.\<close>

theorem registry_index_agrees:
  assumes "ws_run (new_registry ts) tr st"
  shows "(map_get (userClients st) u = None \<longleftrightarrow> online st u = {}) \<and>
    (case map_get (userClients st) u of None \<Rightarrow> True
     | Some members \<Rightarrow> distinct members \<and> set members = online st u) \<and>
    (case getSession c st of None \<Rightarrow> True | Some s \<Rightarrow> s_clientId s = c) \<and>
    countUserSessions st u = card (online st u)"
proof -
  have inv: "ws_inv st" by (rule ws_run_inv [OF assms new_registry_inv(1)])
  then have ix: "index_ok (sessions st) (userClients st) (idents st)" by (simp add: ws_inv_def)
  have "case getSession c st of None \<Rightarrow> True | Some s \<Rightarrow> s_clientId s = c"
    using index_okD(3) [OF ix, of c] by (auto simp: getSession_def idents_nth split: option.split)
  moreover have "map_get (userClients st) u = None \<longleftrightarrow> online st u = {}"
    using members_online(1) [OF inv, of u] index_okD(4) [OF ix, of u]
    by (cases "map_get (userClients st) u") (auto simp: members_of_def)
  ultimately show ?thesis
    using members_online [OF inv, of u] countUserSessions_online [OF inv, of u]
    by (simp add: members_of_def split: option.splits)
qed

theorem registry_index_agrees_witness:
  "map_get (userClients sample_state) (str ''ann'') = Some [str ''c1''] \<and>
   countUserSessions sample_state (str ''ann'') = card (online sample_state (str ''ann''))"
  using registry_index_agrees [OF sample_run, of "str ''ann''" "str ''c1''"]
  by (simp add: sample_state_def map_get_def)

text \<open>C12: Until shutdown every registered session has exactly the expiry timeout it remembers
  pending at Node, and every pending timeout belongs to a registered session and has a delay that
  Node does not turn into an immediate one.\<close>

theorem sessions_have_expiry_timers:
  assumes "ws_run (new_registry ts) tr st" and "Shutdown \<notin> fst ` set tr"
  shows "(registered st r \<longrightarrow> (\<exists>t d. s_expiryTimer (heap st ! r) = Some t \<and> map_get (timers st) t = Some (r, d))) \<and>
    (map_get (timers st) t = Some (r, d) \<longrightarrow>
       registered st r \<and> s_expiryTimer (heap st ! r) = Some t \<and> 1 \<le> d \<and> d \<le> 2147483647)"
proof -
  have "ws_inv st" "armed st"
    using ws_run_inv [OF assms(1)] ws_run_armed [OF assms(1) _ _ assms(2)] new_registry_inv by simp_all
  then show ?thesis using timers_okD(1) [of st t r d] by (simp add: armed_def has_timer_def ws_inv_def)
qed

theorem sessions_have_expiry_timers_witness:
  "registered sample_state 0 \<and> s_expiryTimer (heap sample_state ! 0) = Some 0 \<and>
   map_get (timers sample_state) 0 = Some (0, 4000)"
proof -
  have "Shutdown \<notin> fst ` set sample_trace" by (simp add: sample_trace_def sample_event_def)
  from sessions_have_expiry_timers [OF sample_run this, of 0 0 4000] show ?thesis
    by (simp add: sample_state_def map_get_def)
qed

text \<open>C13: When the expiry timeout of a session fires at or after its token's expiry (at either
  reading of the clock), the session is removed, every tracker is told, and the socket is
  terminated; when it fires early, the session stays and a timeout for the rest, at most the
  longest Node accepts, is armed.\<close>

theorem expiry_timer_enforces_expiry:
  assumes "ws_run (new_registry ts) tr st" and "map_get (timers st) t = Some (r, d)"
    and "s_expiresAt (heap st ! r) = Fin (of_int e)" and "\<bar>e - now\<bar> \<le> 2 ^ 53" and "\<bar>e - now'\<bar> \<le> 2 ^ 53"
    and "ws_exec env (TimerFired t now now') st = (st', effs)"
  shows "if e \<le> now \<or> e \<le> now'
    then \<not> registered st' r \<and> view_of st' = (view_of st)(s_clientId (heap st ! r) := None) \<and>
         TerminateSocket (s_socket (heap st ! r)) \<in> set effs \<and>
         (\<forall>k < length (trackers st). effs ! k = NotifyDisconnect (trackers st ! k) (lifecycle_of st' (heap st ! r)))
    else registered st' r \<and> view_of st' = view_of st \<and> effs = [] \<and>
         (\<exists>t'. s_expiryTimer (heap st' ! r) = Some t' \<and>
               map_get (timers st') t' = Some (r, min (e - now') 2147483647))"
proof -
  have inv: "ws_inv st" by (rule ws_run_inv [OF assms(1) new_registry_inv(1)])
  let ?st = "st\<lparr>timers := map_delete t (timers st)\<rparr>"
  note F = fired_inv [OF inv assms(2)]
  have reg: "registered ?st r" using F(2,3) by simp
  note r = registered_less [OF reg]
  have v: "view_of ?st = view_of st" by (simp add: view_of_def fun_eq_iff split: option.split)
  have e: "s_expiresAt (heap ?st ! r) = Fin (of_int e)" using assms(3) by simp
  have step: "(if e \<le> now \<or> e \<le> now' then handleExpiry r ?st
      else (arm r (min (e - now') 2147483647) ?st, [])) = (st', effs)"
    using assms(2,6) handleExpiryTimer_int [OF e assms(4,5)] by simp
  show ?thesis
  proof (cases "e \<le> now \<or> e \<le> now'")
    case True
    then have "st' = released r ?st" and effs: "effs = fanOut st' (heap st ! r) Disconnect
       @ [Log Info (session_name (s_userId (heap st ! r)) (s_clientId (heap st ! r)) @ str '' token expired'') None,
          TerminateSocket (s_socket (heap st ! r))]"
      using step reg r by (auto simp: handleExpiry_eq)
    then show ?thesis using True released_registered [OF reg, of r] view_released [OF reg]
      by (simp add: v effs fanOut_def notifyTracker_def nth_append)
  next
    case False
    then have st': "st' = arm r (min (e - now') 2147483647) ?st" and "effs = []" using step by simp_all
    with False reg r show ?thesis by (simp add: arm_registered view_arm v arm_heap js_simps)
  qed
qed

theorem expiry_timer_enforces_expiry_witness:
  "TerminateSocket 7 \<in> set (snd (ws_exec sample_env (TimerFired 0 5000 5000) sample_state))"
proof -
  have "map_get (timers sample_state) 0 = Some (0, 4000)" "s_expiresAt (heap sample_state ! 0) = Fin (of_int 5000)"
    by (simp_all add: sample_state_def sample_session_def map_get_def)
  moreover obtain st' effs where x: "ws_exec sample_env (TimerFired 0 5000 5000) sample_state = (st', effs)"
    by fastforce
  moreover have "s_socket (heap sample_state ! 0) = 7" by (simp add: sample_state_def sample_session_def)
  ultimately have "TerminateSocket 7 \<in> set effs"
    using expiry_timer_enforces_expiry [OF sample_run, of 0 0 4000 5000 5000 5000 sample_env st' effs] by simp
  with x show ?thesis by simp
qed

text \<open>A connection for a client id that has a session is closed with code 1008 and changes
  nothing; one without a user or client id likewise; every other connection is filed as a new
  session of that user, whatever its token's expiry.\<close>

theorem connection_outcomes:
  assumes "handleConnection uuid now params st = (res, st', effs)"
  shows "(res = Registered \<longleftrightarrow> p_userId params \<noteq> None \<and>
            (\<exists>c. p_clientId params = Some c \<and> map_get (sessions st) c = None)) \<and>
    (res \<noteq> Registered \<longrightarrow> st' = st \<and>
       (\<exists>msg ctx reason. effs = [Log Warn msg ctx, CloseSocket (p_socket params) 1008 reason])) \<and>
    (res = Registered \<longrightarrow>
       length (heap st') = Suc (length (heap st)) \<and> ListenSocket (p_socket params) (length (heap st)) \<in> set effs \<and>
       (\<forall>k < length (trackers st). \<exists>e. effs ! k = NotifyConnect (trackers st ! k) e \<and>
          p_userId params = Some (e_userId e) \<and> p_clientId params = Some (e_clientId e) \<and> e_token e = uuid))"
proof (cases "p_userId params = None \<or> p_clientId params = None
    \<or> (\<exists>c. p_clientId params = Some c \<and> map_get (sessions st) c \<noteq> None)")
  case True
  then show ?thesis using assms
    by (auto simp: handleConnection_def WS_CLOSE_POLICY_VIOLATION_def split: option.splits)
next
  case False
  then obtain u c where uc: "p_userId params = Some u" "p_clientId params = Some c" "map_get (sessions st) c = None"
    by auto
  let ?s = "new_session uuid u c params"
  let ?st = "enrolled u c ?s st"
  have s: "s_clientId ?s = c" "s_userId ?s = u" "s_presenceToken ?s = uuid" by (simp_all add: new_session_def)
  obtain st3 effs' where sch: "scheduleExpiry now (length (heap st)) ?st = (st3, effs')" by fastforce
  have reg: "registered ?st (length (heap st))" by (simp add: enrolled_registered [OF s(1) uc(3)])
  have "length (heap st3) = Suc (length (heap st))"
    using sch reg by (auto simp: scheduleExpiry_eq Let_def handleExpiry_eq split: if_splits)
  with assms sch uc s show ?thesis
    by (auto simp: handleConnection_eq [OF uc] Let_def fanOut_def notifyTracker_def lifecycle_of_def nth_append)
qed

theorem connection_outcomes_witness:
  "fst (handleConnection (str ''x'') 0 sample_params sample_state) \<noteq> Registered \<and>
   fst (snd (handleConnection (str ''x'') 0 sample_params sample_state)) = sample_state"
proof -
  obtain res st' effs where x: "handleConnection (str ''x'') 0 sample_params sample_state = (res, st', effs)"
    by (cases "handleConnection (str ''x'') 0 sample_params sample_state") auto
  have "p_clientId sample_params = Some (str ''c1'')" "map_get (sessions sample_state) (str ''c1'') = Some 0"
    by (simp_all add: sample_params_def sample_state_def map_get_def)
  with connection_outcomes [OF x] x show ?thesis by simp
qed

text \<open>The close of a session that was already replaced or released changes nothing and tells
  no tracker; the close of a registered one removes that session only.\<close>

theorem stale_close_is_ignored:
  assumes "ws_run (new_registry ts) tr st" and "r < length (heap st)" and "on_close r st = (st', effs)"
  shows "if registered st r
    then view_of st' = (view_of st)(s_clientId (heap st ! r) := None) \<and>
         getSessionCount st' + 1 = getSessionCount st
    else st' = st \<and> notices t effs = []"
proof (cases "registered st r")
  case True
  have "ws_inv st" by (rule ws_run_inv [OF assms(1) new_registry_inv(1)])
  then have "map_ok (sessions st)" by (simp add: ws_inv_def index_ok_def)
  with True have "Suc (length (map_delete (s_clientId (heap st ! r)) (sessions st))) = length (sessions st)"
    by (intro jsm.size_del [of _ _ r]) (auto simp: registered_def)
  moreover have "st' = released r st" using True assms(2,3) by (auto simp: on_close_def release_eq Let_def)
  ultimately show ?thesis using True by (simp add: getSessionCount_def view_released)
next
  case False
  then show ?thesis using assms(2,3) by (auto simp: on_close_def release_eq Let_def)
qed

theorem stale_close_is_ignored_witness:
  "getSessionCount (fst (on_close 0 sample_state)) + 1 = getSessionCount sample_state"
proof -
  obtain st' effs where x: "on_close 0 sample_state = (st', effs)" by fastforce
  have "registered sample_state 0" "0 < length (heap sample_state)"
    by (simp_all add: registered_def sample_state_def sample_session_def map_get_def)
  with stale_close_is_ignored [OF sample_run _ x] x show ?thesis by simp
qed

text \<open>C14: In a reachable state a serializable message for a user is sent, once each, to exactly the
  user's registered sessions whose socket is open and takes it, less the excluded client, and the
  returned count is the number of those sends.\<close>

theorem local_delivery_exact:
  assumes "ws_run (new_registry ts) tr st" and "JSON_stringify message = Text payload"
    and "sendToLocalUser env userId message excludeClientId st = (delivered, effs)"
  shows "\<exists>cs. distinct cs \<and> set cs = {c \<in> online st userId. excludeClientId \<noteq> Some c \<and> deliverable env st c} \<and>
    sends effs = map (\<lambda>c. (socket_of st c, payload)) cs \<and> delivered = length cs"
proof -
  have "ws_inv st" by (rule ws_run_inv [OF assms(1) new_registry_inv(1)])
  note m = members_online [OF this, of userId]
  let ?ms = "members_of (userClients st) userId"
  let ?cs = "filter (\<lambda>c. excludeClientId \<noteq> Some c \<and> deliverable env st c) ?ms"
  have d: "local_delivery env ?ms message excludeClientId st = (delivered, effs)"
    using assms(3) by (simp add: sendToLocalUser_members)
  have "sends effs = map (\<lambda>c. (socket_of st c, payload)) ?cs" "delivered = length ?cs"
    using local_delivery_text [OF assms(2), of env ?ms excludeClientId st] unfolding d by simp_all
  then show ?thesis using m by (intro exI [of _ ?cs]) simp
qed

theorem local_delivery_exact_witness:
  "fst (sendToLocalUser sample_env (str ''ann'') Null None sample_state) = 1"
proof -
  obtain n effs where x: "sendToLocalUser sample_env (str ''ann'') Null None sample_state = (n, effs)" by fastforce
  have "{c \<in> online sample_state (str ''ann''). None \<noteq> Some c \<and> deliverable sample_env sample_state c} = {str ''c1''}"
    by (auto simp: online_def deliverable_def getSession_def sample_state_def sample_session_def sample_env_def
        map_get_def split: if_splits)
  moreover obtain p where p: "JSON_stringify Null = Text p" by simp
  obtain cs where "distinct cs" "set cs = {str ''c1''}" "n = length cs"
    using local_delivery_exact [OF sample_run p x] calculation by auto
  then have "n = 1" by (metis distinct_card card.empty card.insert empty_iff finite.emptyI One_nat_def)
  with x show ?thesis by simp
qed

text \<open>C15: A message from a session is answered by kind: noise is ignored without feedback, a blank
  target is refused with a notice to the sender only, and a well-formed message is published on the
  target's channel in an envelope every receiver reads back as that message with the sender
  excluded. The registry's maps are untouched.\<close>

theorem messages_are_routed:
  assumes "non_blank clientId" and "handleMessage env userId clientId data st = (st', effs)"
  shows "sessions st' = sessions st \<and> userClients st' = userClients st \<and>
    (case parseInboundFrame data of
       Ignore reason \<Rightarrow> inflight st' = inflight st \<and> sends effs = [] \<and> (\<forall>ch ev. Publish ch ev \<notin> set effs)
     | Invalid reason \<Rightarrow> inflight st' = inflight st \<and> sends effs = sends (sendNack env clientId reason st) \<and>
         (\<forall>ch ev. Publish ch ev \<notin> set effs)
     | Send target message \<Rightarrow>
         \<exists>envelope. filter (\<lambda>e. case e of Publish _ _ \<Rightarrow> True | _ \<Rightarrow> False) effs = [Publish (channelFor target) envelope] \<and>
           parseUserTopicEnvelope envelope = EnvelopeOk (nullify message) (Some clientId) \<and>
           userIdFromChannel (channelFor target) = Some target \<and>
           inflight st' = inflight st @ [\<lparr>b_userId = userId, b_clientId = clientId,
             b_channel = channelFor target, b_envelope = Inr envelope\<rparr>])"
proof (cases "parseInboundFrame data")
  case (Send target message)
  from parseInboundFrame_parsed [OF Send] have p: "parsed_json message" "non_blank target" by simp_all
  obtain t where "buildUserTopicEnvelope message (Some clientId) = Inr t"
    "parseUserTopicEnvelope t = EnvelopeOk (nullify message) (Some clientId)"
    using envelope_built_and_parsed [OF p(1), of "Some clientId"] assms(1) by auto
  with assms(2) Send p(2) show ?thesis
    by (auto simp: handleMessage_def Let_def canSendTo_def sendToUser_def userIdFromChannel_iff)
next
  case (Invalid reason)
  have "Publish ch ev \<notin> set (sendNack env clientId reason st)" for ch ev
    by (auto simp: sendNack_def sendToClient_def split: option.split stringified.split)
  with assms(2) Invalid show ?thesis by (auto simp: handleMessage_def Let_def)
qed (use assms(2) in \<open>auto simp: handleMessage_def Let_def\<close>)

theorem messages_are_routed_witness:
  "sends (snd (handleMessage sample_env (str ''ann'') (str ''c1'') (RawString []) sample_state)) = []"
proof -
  have "non_blank (str ''c1'')" by (simp add: non_blank_def trim_eq_Nil str_def cu_def js_space_def)
  moreover have "JSON_parse [] = None"
    by (simp add: JSON_parse_def json_fuel_def skip_space_def)
  then have "parseInboundFrame (RawString []) = Ignore (str ''non-JSON'')" by (simp add: parseInboundFrame_def)
  moreover obtain st' effs where x: "handleMessage sample_env (str ''ann'') (str ''c1'') (RawString []) sample_state = (st', effs)"
    by fastforce
  ultimately show ?thesis using messages_are_routed [OF _ x] by simp
qed

text \<open>A broadcast that fails, because the publisher rejects it, is reported to the sending client
  if its session is still there and open; one that succeeds sends nothing back.\<close>

theorem failed_broadcast_is_reported:
  assumes "k < length (inflight st)" and "b_envelope (inflight st ! k) = Inr envelope"
    and "settle_broadcast env k answer st = (st', effs)"
  shows "sessions st' = sessions st \<and> length (inflight st') + 1 = length (inflight st) \<and>
    sends effs = (case answer of Inr _ \<Rightarrow> []
      | Inl _ \<Rightarrow> sends (sendNack env (b_clientId (inflight st ! k)) (str ''delivery failed'') st))"
proof -
  have n: "sendNack env c reason (st\<lparr>inflight := bs\<rparr>) = sendNack env c reason st" for c reason bs
    by (simp add: sendNack_def sendToClient_def getSession_def)
  from assms show ?thesis
    by (auto simp: settle_broadcast_def sendToUser_published_def delivery_failed_def Let_def n split: sum.splits)
qed

theorem failed_broadcast_is_reported_witness:
  "sends (snd (settle_broadcast sample_env 0 (Inr (Fin 2))
     (sample_state\<lparr>inflight := [\<lparr>b_userId = str ''ann'', b_clientId = str ''c1'', b_channel = str ''user:bob'',
        b_envelope = Inr (str ''x'')\<rparr>]\<rparr>))) = []"
proof -
  let ?st = "sample_state\<lparr>inflight := [\<lparr>b_userId = str ''ann'', b_clientId = str ''c1'', b_channel = str ''user:bob'',
        b_envelope = Inr (str ''x'')\<rparr>]\<rparr>"
  obtain st' effs where x: "settle_broadcast sample_env 0 (Inr (Fin 2)) ?st = (st', effs)" by fastforce
  have "0 < length (inflight ?st)" "b_envelope (inflight ?st ! 0) = Inr (str ''x'')" by simp_all
  from failed_broadcast_is_reported [OF this x] x show ?thesis by simp
qed

text \<open>C25: Nothing is left behind: once no session is registered the user index is empty and no
  timeout is pending, and shutdown leaves no timeout pending however many sessions remain.\<close>

theorem no_leaks:
  assumes "ws_run (new_registry ts) tr st"
  shows "(sessions st = [] \<longrightarrow> userClients st = [] \<and> timers st = []) \<and> timers (onModuleDestroy st) = []"
proof -
  have inv: "ws_inv st" by (rule ws_run_inv [OF assms new_registry_inv(1)])
  have none: "(\<And>k. map_get m k = None) \<Longrightarrow> m = []" for m :: "('a, 'b) jsmap"
    by (cases m) (force simp: map_get_def split: if_splits)+
  have empty: "timers st' = []" if "ws_inv st'" "\<And>r. \<not> registered st' r" for st'
  proof (rule none)
    show "map_get (timers st') t = None" for t
      using timers_okD(1) [of st' t] that by (cases "map_get (timers st') t") (auto simp: ws_inv_def)
  qed
  have "userClients st = []" if "sessions st = []"
  proof (rule none)
    show "map_get (userClients st) u = None" for u
      using members_online(1) [OF inv, of u] that index_okD(4) [of "sessions st" "userClients st" "idents st" u] inv
      by (cases "map_get (userClients st) u") (auto simp: members_of_def online_def ws_inv_def js_simps)
  qed
  moreover have "timers (onModuleDestroy st) = []"
  proof (rule none)
    let ?rs = "map snd (sessions st)"
    have all: "\<forall>r \<in> set ?rs. registered st r" using sessions_registered [OF inv] by blast
    have "registered st r \<Longrightarrow> r \<in> set ?rs" for r
      by (auto simp: registered_def map_get_def dest!: map_of_SomeD intro: rev_image_eqI)
    then have "map_get (timers (fold clearExpiryTimer ?rs st)) t \<noteq> Some (r, d)" for t r d
      using clear_all(2) [OF inv all, of t r d] timers_okD(1) [of st t r d] inv by (auto simp: ws_inv_def)
    then show "map_get (timers (onModuleDestroy st)) t = None" for t
      unfolding onModuleDestroy_def by (cases "map_get (timers (fold clearExpiryTimer ?rs st)) t") auto
  qed
  ultimately show ?thesis using empty [OF inv] by (auto simp: registered_def js_simps)
qed

theorem no_leaks_witness: "timers sample_state \<noteq> [] \<and> timers (onModuleDestroy sample_state) = []"
  using no_leaks [OF sample_run] by (simp add: sample_state_def)

end
