(* ===== verification/Redis_Cache.thy ===== *)
theory Redis_Cache
  imports Common
begin

text \<open>
  \<open>src/redis\<close>: the configuration of the Redis clients (\<open>redis.constants.ts\<close>), the quit helper
  (\<open>redis.lifecycle.ts\<close>), the service that validates keys and pairs a value with its TTL
  (\<open>redis.service.ts\<close>) and the HTTP adapter with its DTOs (\<open>redis.controller.ts\<close>,
  \<open>dto/redis.dto.ts\<close>). The \<open>redis\<close> client is a record of functions on an explicit world; an
  operation that rejects is the left side of its result.
\<close>

section \<open>Configuration\<close>

definition DEFAULT_SET_TTL_SECONDS :: number where "DEFAULT_SET_TTL_SECONDS = Fin 3600"
definition DEFAULT_REDIS_HOST :: jstr where "DEFAULT_REDIS_HOST = str ''localhost''"
definition DEFAULT_REDIS_PORT :: number where "DEFAULT_REDIS_PORT = Fin 6379"
definition MAX_REDIS_PORT :: number where "MAX_REDIS_PORT = Fin 65535"

record redis_config =
  rc_host :: jstr
  rc_port :: number
  rc_password :: "jstr option"

record client_options =
  socket_host :: jstr
  socket_port :: number
  client_password :: "jstr option"
  disableOfflineQueue :: bool

definition port_options :: bounded_int_options where
  "port_options = \<lparr>int_defaultValue = DEFAULT_REDIS_PORT, int_min = Fin 1, int_max = Some MAX_REDIS_PORT,
     int_label = str ''REDIS_PORT''\<rparr>"

definition parsePort :: "jstr option \<Rightarrow> number throws" where
  "parsePort raw = parseBoundedInt raw port_options"

definition getRedisConfig :: "environment \<Rightarrow> redis_config throws" where
  "getRedisConfig env =
     (let password = env (str ''REDIS_PASSWORD'') in
      case parsePort (env (str ''REDIS_PORT'')) of
        Inl e \<Rightarrow> Inl e
      | Inr port \<Rightarrow>
          Inr \<lparr>rc_host = or_default DEFAULT_REDIS_HOST (env (str ''REDIS_HOST'')), rc_port = port,
               rc_password = (if password = None \<or> password = Some [] then None else password)\<rparr>)"

definition reconnectStrategy :: "int \<Rightarrow> int" where
  "reconnectStrategy retries = min (retries * 100) 5000"

text \<open>The options handed to \<open>createClient\<close>.\<close>

definition createRedisClient :: "environment \<Rightarrow> client_options throws" where
  "createRedisClient env =
     (case getRedisConfig env of
        Inl e \<Rightarrow> Inl e
      | Inr config \<Rightarrow>
          Inr \<lparr>socket_host = rc_host config, socket_port = rc_port config,
               client_password = rc_password config, disableOfflineQueue = True\<rparr>)"

section \<open>The client\<close>

datatype expiration_type = Exp_EX | Exp_PX
datatype set_condition = NX | XX

record expiration =
  ex_type :: expiration_type
  ex_value :: number

record set_options =
  so_expiration :: "expiration option"
  so_condition :: "set_condition option"

type_synonym ('w, 'a) action = "'w \<Rightarrow> 'a throws \<times> 'w"

record 'w redis_client =
  c_connect :: "('w, unit) action"
  c_isOpen :: "'w \<Rightarrow> bool"
  c_isReady :: "'w \<Rightarrow> bool"
  c_quit :: "('w, unit) action"
  c_ping :: "('w, jstr) action"
  c_set :: "jstr \<Rightarrow> jstr \<Rightarrow> set_options option \<Rightarrow> ('w, jstr option) action"
  c_get :: "jstr \<Rightarrow> ('w, jstr option) action"
  c_ttl :: "jstr \<Rightarrow> ('w, int) action"

section \<open>The service\<close>

record redis_entry =
  entry_value :: jstr
  entry_expiresIn :: "int option"

definition quitRedisClient :: "'w redis_client \<Rightarrow> ('w, unit) action" where
  "quitRedisClient client w = (if c_isOpen client w then c_quit client w else (Inr (), w))"

definition redis_connect_options :: retry_options where
  "redis_connect_options = \<lparr>attempts = None, initialDelayMs = None, maxDelayMs = None, onAttemptFailed = False,
     failureMessage = Some (str ''Failed to connect to Redis after 10 attempts'')\<rparr>"

definition redis_onModuleInit :: "'w redis_client \<Rightarrow> 'w \<Rightarrow> unit throws \<times> 'w \<times> retry_event list" where
  "redis_onModuleInit client = withBoundedRetry (c_connect client) redis_connect_options"

text \<open>What the client's \<open>error\<close> listener logs.\<close>

definition redis_client_error :: "jsval \<Rightarrow> jstr list" where
  "redis_client_error err = [str ''Redis client error: '' @ error_detail err]"

definition redis_onModuleDestroy :: "'w redis_client \<Rightarrow> ('w, unit) action" where
  "redis_onModuleDestroy client = quitRedisClient client"

definition ping :: "'w redis_client \<Rightarrow> ('w, jstr) action" where
  "ping client = c_ping client"

definition isReady :: "'w redis_client \<Rightarrow> 'w \<Rightarrow> bool" where
  "isReady client = c_isReady client"

text \<open>The key of a request is any value.\<close>

definition assertValidKey :: "jsval \<Rightarrow> jstr throws" where
  "assertValidKey key =
     (case key of
        Str k \<Rightarrow> if trim k = [] then Inl (new_error (str ''Redis key must be a non-empty string'')) else Inr k
      | _ \<Rightarrow> Inl (new_error (str ''Redis key must be a non-empty string'')))"

definition set_entry ::
  "'w redis_client \<Rightarrow> jsval \<Rightarrow> jstr \<Rightarrow> set_options option \<Rightarrow> ('w, jstr option) action" where
  "set_entry client key val options w =
     (case assertValidKey key of Inl e \<Rightarrow> (Inl e, w) | Inr k \<Rightarrow> c_set client k val options w)"

definition get_value :: "'w redis_client \<Rightarrow> jsval \<Rightarrow> ('w, jstr option) action" where
  "get_value client key w =
     (case assertValidKey key of Inl e \<Rightarrow> (Inl e, w) | Inr k \<Rightarrow> c_get client k w)"

definition getEntry :: "'w redis_client \<Rightarrow> jsval \<Rightarrow> ('w, redis_entry option) action" where
  "getEntry client key w =
     (case assertValidKey key of
        Inl e \<Rightarrow> (Inl e, w)
      | Inr k \<Rightarrow>
          (case c_get client k w of
             (Inl e, w1) \<Rightarrow> (Inl e, w1)
           | (Inr None, w1) \<Rightarrow> (Inr None, w1)
           | (Inr (Some v), w1) \<Rightarrow>
               (case c_ttl client k w1 of
                  (Inl e, w2) \<Rightarrow> (Inl e, w2)
                | (Inr ttl, w2) \<Rightarrow>
                    if ttl = -2 then (Inr None, w2)
                    else if ttl = -1 then (Inr (Some \<lparr>entry_value = v, entry_expiresIn = None\<rparr>), w2)
                    else (Inr (Some \<lparr>entry_value = v, entry_expiresIn = Some ttl\<rparr>), w2))))"

section \<open>The HTTP adapter\<close>

text \<open>An optional field of a request body: missing, \<open>null\<close>, or given.\<close>

datatype 'a body_field = Missing | NullField | Given 'a

record set_options_dto =
  dto_expiration :: "expiration body_field"
  dto_condition :: "set_condition body_field"

record set_redis_dto =
  dto_key :: jstr
  dto_value :: jstr
  dto_options :: "set_options_dto body_field"

record get_redis_response =
  gr_key :: jstr
  gr_value :: jstr
  gr_expiresIn :: "int option"

record set_redis_response =
  sr_key :: jstr
  sr_value :: jstr
  sr_result :: "jstr option"

text \<open>The answer of a handler: a body, a 404 with its message, or another thrown value.\<close>

datatype 'a http = HttpOk 'a | HttpNotFound jstr | HttpFailed jsval

text \<open>\<open>@Matches(/\S/)\<close> on a key.\<close>

definition key_matches :: "jstr \<Rightarrow> bool" where
  "key_matches key \<longleftrightarrow> list_ex (\<lambda>c. \<not> js_space c) key"

text \<open>Reading \<open>type\<close> of a \<open>null\<close> expiration throws; a \<open>null\<close> condition is copied and the client
  treats it as none.\<close>

definition toSetOptions :: "set_options_dto body_field \<Rightarrow> set_options throws" where
  "toSetOptions dto =
     (let expiration = (case dto of Given d \<Rightarrow> dto_expiration d | _ \<Rightarrow> Missing);
          condition = (case dto of Given d \<Rightarrow> dto_condition d | _ \<Rightarrow> Missing);
          options = (case expiration of
             Given e \<Rightarrow> Inr \<lparr>ex_type = ex_type e, ex_value = ex_value e\<rparr>
           | NullField \<Rightarrow> Inl (Err (str ''Cannot read properties of null (reading 'type')'')
                               [(str ''name'', Str (str ''TypeError''))])
           | Missing \<Rightarrow> Inr \<lparr>ex_type = Exp_EX, ex_value = DEFAULT_SET_TTL_SECONDS\<rparr>)
      in case options of
           Inl e \<Rightarrow> Inl e
         | Inr ex \<Rightarrow> Inr \<lparr>so_expiration = Some ex,
                        so_condition = (case condition of Given c \<Rightarrow> Some c | _ \<Rightarrow> None)\<rparr>)"

definition getValue :: "'w redis_client \<Rightarrow> jstr \<Rightarrow> 'w \<Rightarrow> get_redis_response http \<times> 'w" where
  "getValue client key w =
     (case getEntry client (Str key) w of
        (Inl e, w') \<Rightarrow> (HttpFailed e, w')
      | (Inr None, w') \<Rightarrow> (HttpNotFound (str ''Key \"'' @ key @ str ''\" not found''), w')
      | (Inr (Some entry), w') \<Rightarrow>
          (HttpOk \<lparr>gr_key = key, gr_value = entry_value entry, gr_expiresIn = entry_expiresIn entry\<rparr>, w'))"

definition setValue :: "'w redis_client \<Rightarrow> set_redis_dto \<Rightarrow> 'w \<Rightarrow> set_redis_response http \<times> 'w" where
  "setValue client body w =
     (case toSetOptions (dto_options body) of
        Inl e \<Rightarrow> (HttpFailed e, w)
      | Inr options \<Rightarrow>
          (case set_entry client (Str (dto_key body)) (dto_value body) (Some options) w of
             (Inl e, w') \<Rightarrow> (HttpFailed e, w')
           | (Inr result, w') \<Rightarrow>
               (HttpOk \<lparr>sr_key = dto_key body, sr_value = dto_value body, sr_result = result\<rparr>, w')))"

section \<open>Facts\<close>

lemma key_matches_iff: "key_matches key \<longleftrightarrow> trim key \<noteq> []"
  by (auto simp: key_matches_def trim_eq_Nil list_ex_iff list_all_iff)

lemma assertValidKey_iff: "assertValidKey key = Inr k \<longleftrightarrow> key = Str k \<and> trim k \<noteq> []"
  by (auto simp: assertValidKey_def split: jsval.split)

section \<open>Properties\<close>

text \<open>A key the request DTO accepts is never refused by the service, and the service hands a
  key to Redis only when it is a string with a character that is not white space; the world is
  untouched otherwise.\<close>

theorem keys_are_checked_once:
  "(key_matches k \<longleftrightarrow> (\<exists>k'. assertValidKey (Str k) = Inr k')) \<and>
   ((\<forall>k'. assertValidKey key \<noteq> Inr k') \<longrightarrow>
      snd (getEntry client key w) = w \<and> snd (set_entry client key v options w) = w \<and> snd (get_value client key w) = w)"
  by (auto simp: key_matches_iff assertValidKey_iff getEntry_def set_entry_def get_value_def split: sum.split)

theorem keys_are_checked_once_witness:
  "snd (getEntry (client :: nat redis_client) (Str (str '' '')) 5) = 5"
proof -
  have "\<forall>k'. assertValidKey (Str (str '' '')) \<noteq> Inr k'"
    by (simp add: assertValidKey_iff trim_eq_Nil str_def cu_def js_space_def)
  with keys_are_checked_once [of "[]" "Str (str '' '')" client 5] show ?thesis by simp
qed

text \<open>What an entry read answers, for a key the service accepts and the replies the client gives
  to \<open>GET\<close> and \<open>TTL\<close>: a value that vanished between the two calls is a miss, a persistent one has
  no expiry, and an error of either call is passed on.\<close>

theorem entry_reads:
  assumes "trim k \<noteq> []" and "c_get client k w = (reply, w1)" and "c_ttl client k w1 = (ttl, w2)"
  shows "getEntry client (Str k) w =
    (case reply of
       Inl e \<Rightarrow> (Inl e, w1)
     | Inr None \<Rightarrow> (Inr None, w1)
     | Inr (Some v) \<Rightarrow>
         (case ttl of
            Inl e \<Rightarrow> Inl e
          | Inr t \<Rightarrow> Inr (if t = -2 then None
                          else Some \<lparr>entry_value = v, entry_expiresIn = (if t = -1 then None else Some t)\<rparr>), w2))"
proof -
  have "assertValidKey (Str k) = Inr k" using assms(1) by (simp add: assertValidKey_iff)
  with assms(2,3) show ?thesis by (simp add: getEntry_def split: sum.split option.split)
qed

definition sample_client :: "(jstr \<times> int) option redis_client" where
  "sample_client = \<lparr>c_connect = (\<lambda>w. (Inr (), w)), c_isOpen = (\<lambda>w. True), c_isReady = (\<lambda>w. True),
     c_quit = (\<lambda>w. (Inr (), w)), c_ping = (\<lambda>w. (Inr (str ''PONG''), w)),
     c_set = (\<lambda>k v options w. (Inr (Some (str ''OK'')), Some (v, 60))),
     c_get = (\<lambda>k w. (Inr (map_option fst w), w)),
     c_ttl = (\<lambda>k w. (Inr (case w of None \<Rightarrow> -2 | Some (_, t) \<Rightarrow> t), w))\<rparr>"

theorem entry_reads_witness:
  "getEntry sample_client (Str (str ''k'')) (Some (str ''v'', -1)) =
     (Inr (Some \<lparr>entry_value = str ''v'', entry_expiresIn = None\<rparr>), Some (str ''v'', -1))"
proof -
  have "trim (str ''k'') \<noteq> []" by (simp add: trim_eq_Nil str_def cu_def js_space_def)
  from entry_reads [OF this, of sample_client "Some (str ''v'', -1)"] show ?thesis
    by (simp add: sample_client_def)
qed

text \<open>A value stored through the HTTP interface never lacks an expiration: the client is asked to
  set it with the one the body gives, or one hour.\<close>

theorem stored_values_expire:
  assumes "toSetOptions dto = Inr options"
  shows "\<exists>ex. so_expiration options = Some ex \<and>
    (case dto of
       Given d \<Rightarrow> dto_expiration d = Given ex \<or> dto_expiration d = Missing \<and> ex = \<lparr>ex_type = Exp_EX, ex_value = Fin 3600\<rparr>
     | _ \<Rightarrow> ex = \<lparr>ex_type = Exp_EX, ex_value = Fin 3600\<rparr>)"
  using assms
  by (auto simp: toSetOptions_def Let_def DEFAULT_SET_TTL_SECONDS_def split: body_field.splits)

theorem stored_values_expire_witness:
  "\<exists>options. toSetOptions Missing = Inr options \<and> so_expiration options = Some \<lparr>ex_type = Exp_EX, ex_value = Fin 3600\<rparr>"
proof -
  obtain options where "toSetOptions Missing = Inr options" by (simp add: toSetOptions_def)
  with stored_values_expire [OF this] show ?thesis by auto
qed

text \<open>A body whose expiration is \<open>null\<close>, which an optional field of the DTO lets through, is
  not given the default expiration: mapping its options throws and the request fails before Redis
  is asked.\<close>

theorem null_expiration_throws:
  assumes "dto_options body = Given d" and "dto_expiration d = NullField"
  shows "\<exists>e. toSetOptions (dto_options body) = Inl e \<and> setValue client body w = (HttpFailed e, w)"
  using assms by (simp add: toSetOptions_def setValue_def Let_def)

theorem null_expiration_throws_witness:
  "snd (setValue sample_client \<lparr>dto_key = str ''k'', dto_value = str ''v'',
      dto_options = Given \<lparr>dto_expiration = NullField, dto_condition = Missing\<rparr>\<rparr> None) = None"
  using null_expiration_throws [of "\<lparr>dto_key = str ''k'', dto_value = str ''v'',
      dto_options = Given \<lparr>dto_expiration = NullField, dto_condition = Missing\<rparr>\<rparr>" _ sample_client None]
  by auto

text \<open>C30: When a client's \<open>SET\<close> makes the key readable with that value and the asked expiry, which is
  what Redis documents for an unconditional one, a value written through the HTTP interface is
  read back with the time it has left.\<close>

theorem set_get_roundtrip:
  assumes key: "key_matches (dto_key body)"
    and opts: "toSetOptions (dto_options body) = Inr options" "so_condition options = None"
    and set: "\<And>k v ex w. c_set client k v (Some \<lparr>so_expiration = Some ex, so_condition = None\<rparr>) w
        = (Inr (Some (str ''OK'')), put k v ex w)"
    and get: "\<And>k v ex w. c_get client k (put k v ex w) = (Inr (Some v), put k v ex w)"
    and ttl: "\<And>k v ex w. c_ttl client k (put k v ex w) = (Inr (left ex), put k v ex w)" "\<And>ex. 0 \<le> left ex"
  shows "\<exists>w' ex. so_expiration options = Some ex \<and>
    setValue client body w =
      (HttpOk \<lparr>sr_key = dto_key body, sr_value = dto_value body, sr_result = Some (str ''OK'')\<rparr>, w') \<and>
    fst (getValue client (dto_key body) w') =
      HttpOk \<lparr>gr_key = dto_key body, gr_value = dto_value body, gr_expiresIn = Some (left ex)\<rparr>"
proof -
  obtain ex where ex: "options = \<lparr>so_expiration = Some ex, so_condition = None\<rparr>"
    using opts by (auto simp: toSetOptions_def Let_def split: body_field.splits sum.splits)
  have k: "assertValidKey (Str (dto_key body)) = Inr (dto_key body)"
    using key by (simp add: assertValidKey_iff key_matches_iff)
  have "setValue client body w = (HttpOk \<lparr>sr_key = dto_key body, sr_value = dto_value body,
      sr_result = Some (str ''OK'')\<rparr>, put (dto_key body) (dto_value body) ex w)"
    using opts(1) k set by (simp add: setValue_def set_entry_def ex)
  moreover have "left ex \<noteq> -1" "left ex \<noteq> -2" using ttl(2) [of ex] by linarith+
  then have "fst (getValue client (dto_key body) (put (dto_key body) (dto_value body) ex w)) =
      HttpOk \<lparr>gr_key = dto_key body, gr_value = dto_value body, gr_expiresIn = Some (left ex)\<rparr>"
    using k get ttl(1) by (simp add: getValue_def getEntry_def)
  ultimately show ?thesis using ex by auto
qed

theorem set_get_roundtrip_witness:
  "\<exists>w'. fst (getValue sample_client (str ''k'') w') =
     HttpOk \<lparr>gr_key = str ''k'', gr_value = str ''v'', gr_expiresIn = Some 60\<rparr>"
proof -
  let ?body = "\<lparr>dto_key = str ''k'', dto_value = str ''v'', dto_options = Missing\<rparr>"
  have "key_matches (dto_key ?body)" by (simp add: key_matches_def str_def cu_def js_space_def)
  moreover have "toSetOptions (dto_options ?body) =
      Inr \<lparr>so_expiration = Some \<lparr>ex_type = Exp_EX, ex_value = DEFAULT_SET_TTL_SECONDS\<rparr>, so_condition = None\<rparr>"
    by (simp add: toSetOptions_def)
  ultimately show ?thesis
    using set_get_roundtrip [of ?body _ sample_client "\<lambda>k v ex w. Some (v, 60)" "\<lambda>_. 60" None]
    by (auto simp: sample_client_def)
qed

text \<open>The Redis settings come out of the environment checked: the port is an integer from 1 to
  65535 or the configuration is refused, an empty password is none, commands are never queued
  while disconnected, and the wait before a reconnect grows with the attempts up to five seconds.\<close>

theorem redis_settings_are_checked:
  "(case createRedisClient env of
      Inl _ \<Rightarrow> (\<exists>e. parsePort (env (str ''REDIS_PORT'')) = Inl e)
    | Inr o1 \<Rightarrow> (\<exists>r. socket_port o1 = Fin r \<and> 1 \<le> r \<and> r \<le> 65535 \<and> is_integer (Fin r)) \<and>
        client_password o1 \<noteq> Some [] \<and> disableOfflineQueue o1) \<and>
   reconnectStrategy n \<le> 5000 \<and> reconnectStrategy n \<le> reconnectStrategy (n + 1)"
proof -
  have b: "in_bounds port_options x \<Longrightarrow> \<exists>r. x = Fin r \<and> 1 \<le> r \<and> r \<le> 65535 \<and> is_integer (Fin r)" for x
    by (cases x) (auto simp: in_bounds_def port_options_def MAX_REDIS_PORT_def is_integer_def not_less)
  have d: "in_bounds port_options (int_defaultValue port_options)"
    by (simp add: in_bounds_def port_options_def MAX_REDIS_PORT_def DEFAULT_REDIS_PORT_def is_integer_def)
  have "parsePort raw = Inr x \<Longrightarrow> \<exists>r. x = Fin r \<and> 1 \<le> r \<and> r \<le> 65535 \<and> is_integer (Fin r)" for raw x
    unfolding parsePort_def using parseBoundedInt_Inr b d by blast
  then show ?thesis
    by (auto simp: createRedisClient_def getRedisConfig_def Let_def reconnectStrategy_def split: sum.split)
qed

end
