(* ===== verification/User_Topics.thy ===== *)
theory User_Topics
  imports Ws_Properties Redis_Cache
begin

text \<open>
  \<open>src/user-topics/user-topic.service.ts\<close>: the per-user Redis subscriptions of one replica. The
  state holds the claimed channels, whether the local deliverer is registered, and the topic
  operations whose retry loop has not ended; an operation awaits the reply to its command or sleeps
  before the next attempt. The replies and wake-ups of different operations interleave freely, so
  each is a step of its own. The commands issued to the subscriber are effects.
\<close>

section \<open>State\<close>

datatype topic_kind = Subscribe | Unsubscribe

record topic_op =
  o_channel :: jstr
  o_kind :: topic_kind
  o_attempt :: int
  o_sleeping :: bool

record topics_state =
  subscribed :: "jstr list"
  localDeliverer :: bool
  topic_ops :: "topic_op list"

datatype topics_effect = Command topic_kind jstr | Backoff int | TopicLog log_level jstr

definition new_topics :: topics_state where
  "new_topics = \<lparr>subscribed = [], localDeliverer = False, topic_ops = []\<rparr>"

definition setLocalDeliverer :: "topics_state \<Rightarrow> topics_state" where
  "setLocalDeliverer st = st\<lparr>localDeliverer := True\<rparr>"

definition TOPIC_RETRY_attempts :: int where "TOPIC_RETRY_attempts = 5"

definition kind_text :: "topic_kind \<Rightarrow> jstr" where
  "kind_text k = (case k of Subscribe \<Rightarrow> str ''subscribe'' | Unsubscribe \<Rightarrow> str ''unsubscribe'')"

definition TOPIC_RETRY :: "topic_kind \<Rightarrow> jstr \<Rightarrow> retry_options" where
  "TOPIC_RETRY op channel =
     \<lparr>attempts = Some TOPIC_RETRY_attempts, initialDelayMs = Some 50, maxDelayMs = Some 500,
      onAttemptFailed = False,
      failureMessage = Some (str ''Failed to '' @ kind_text op @ str '' '' @ channel @ str '' after ''
        @ int_text TOPIC_RETRY_attempts @ str '' attempts'')\<rparr>"

section \<open>Lifecycle\<close>

definition topics_connect_options :: retry_options where
  "topics_connect_options = \<lparr>attempts = None, initialDelayMs = None, maxDelayMs = None, onAttemptFailed = False,
     failureMessage = Some (str ''Failed to connect user-topic subscriber after 10 attempts'')\<rparr>"

definition topics_onModuleInit :: "'w redis_client \<Rightarrow> 'w \<Rightarrow> unit throws \<times> 'w \<times> retry_event list" where
  "topics_onModuleInit subscriber = withBoundedRetry (c_connect subscriber) topics_connect_options"

definition topics_onModuleDestroy :: "'w redis_client \<Rightarrow> ('w, unit) action" where
  "topics_onModuleDestroy subscriber = quitRedisClient subscriber"

definition subscriber_error :: "jsval \<Rightarrow> topics_effect list" where
  "subscriber_error err = [TopicLog Error (str ''User-topic subscriber error: '' @ error_detail err)]"

section \<open>Topic operations\<close>

text \<open>\<open>withTopicOp\<close> up to its first suspension: the retry loop issues the first attempt at once.\<close>

definition withTopicOp :: "jstr \<Rightarrow> topic_kind \<Rightarrow> topics_state \<Rightarrow> topics_state \<times> topics_effect list" where
  "withTopicOp channel op st =
     (st\<lparr>topic_ops := topic_ops st @ [\<lparr>o_channel = channel, o_kind = op, o_attempt = 1, o_sleeping = False\<rparr>]\<rparr>,
      [Command op channel])"

text \<open>Its \<open>catch\<close> clause.\<close>

definition topic_op_failed :: "topic_op \<Rightarrow> jsval \<Rightarrow> topics_state \<Rightarrow> topics_state \<times> topics_effect list" where
  "topic_op_failed op err st =
     (let channel = o_channel op; detail = error_detail err in
      case o_kind op of
        Subscribe \<Rightarrow>
          (st\<lparr>subscribed := set_remove channel (subscribed st)\<rparr>,
           [TopicLog Warn (str ''Failed to subscribe '' @ channel @ str '': '' @ detail
              @ str ''; will retry on the next connect'')])
      | Unsubscribe \<Rightarrow>
          (st, [TopicLog Warn (str ''Failed to unsubscribe '' @ channel @ str '': '' @ detail
              @ str ''; the next subscribe heals it'')]))"

definition remove_nth :: "nat \<Rightarrow> 'a list \<Rightarrow> 'a list" where
  "remove_nth k xs = take k xs @ drop (Suc k) xs"

text \<open>The reply to the command of the \<open>k\<close>-th operation: a success ends it, a failure sleeps before
  the next attempt or, when the attempts are used up, reaches the \<open>catch\<close> clause.\<close>

definition topic_reply :: "nat \<Rightarrow> unit throws \<Rightarrow> topics_state \<Rightarrow> topics_state \<times> topics_effect list" where
  "topic_reply k reply st =
     (let op = topic_ops st ! k;
          options = TOPIC_RETRY (o_kind op) (o_channel op);
          ended = st\<lparr>topic_ops := remove_nth k (topic_ops st)\<rparr>
      in case reply of
           Inr _ \<Rightarrow> (ended, [])
         | Inl err \<Rightarrow>
             if o_attempt op < retry_attempts options then
               (st\<lparr>topic_ops := (topic_ops st)[k := op\<lparr>o_sleeping := True\<rparr>]\<rparr>,
                [Backoff (backoff_delay options (o_attempt op))])
             else topic_op_failed op (retry_failure options err) ended)"

text \<open>The sleep of the \<open>k\<close>-th operation ends: the next attempt issues the command again.\<close>

definition topic_wake :: "nat \<Rightarrow> topics_state \<Rightarrow> topics_state \<times> topics_effect list" where
  "topic_wake k st =
     (let op = topic_ops st ! k in
      (st\<lparr>topic_ops := (topic_ops st)[k := op\<lparr>o_attempt := o_attempt op + 1, o_sleeping := False\<rparr>]\<rparr>,
       [Command (o_kind op) (o_channel op)]))"

section \<open>Session events\<close>

definition topics_handleConnect :: "lifecycle_event \<Rightarrow> topics_state \<Rightarrow> topics_state \<times> topics_effect list" where
  "topics_handleConnect event st =
     (let channel = channelFor (e_userId event) in
      if channel \<in> set (subscribed st) then (st, [])
      else withTopicOp channel Subscribe (st\<lparr>subscribed := set_add channel (subscribed st)\<rparr>))"

definition topics_handleDisconnect :: "lifecycle_event \<Rightarrow> topics_state \<Rightarrow> topics_state \<times> topics_effect list" where
  "topics_handleDisconnect event st =
     (if e_userSessionCount event > 0 then (st, [])
      else
        (let channel = channelFor (e_userId event) in
         if channel \<notin> set (subscribed st) then (st, [])
         else withTopicOp channel Unsubscribe (st\<lparr>subscribed := set_remove channel (subscribed st)\<rparr>)))"

section \<open>Topic messages\<close>

text \<open>The deliverer is the registry's \<open>sendToLocalUser\<close>; its count and effects are the argument
  \<open>deliver\<close> applied to user, payload and excluded client.\<close>

definition handleTopicMessage ::
  "(user_id \<Rightarrow> jsval \<Rightarrow> client_id option \<Rightarrow> nat \<times> ws_effect list) \<Rightarrow> jstr \<Rightarrow> jstr \<Rightarrow> topics_state
     \<Rightarrow> unit throws \<times> ws_effect list" where
  "handleTopicMessage deliver message channel st =
     (case userIdFromChannel channel of
        None \<Rightarrow> (Inr (), [Log Warn (str ''Dropping topic message on foreign channel '' @ channel) None])
      | Some userId \<Rightarrow>
          (case parseUserTopicEnvelope message of
             EnvelopeInvalid reason \<Rightarrow>
               (Inr (), [Log Warn (str ''Dropping topic message on '' @ channel @ str '': '' @ reason) None])
           | EnvelopeOk payload excludeClientId \<Rightarrow>
               if \<not> localDeliverer st then
                 (Inl (new_error (str ''Dropping topic message on '' @ channel
                    @ str '': local deliverer not registered (WsModule wiring missing)'')), [])
               else
                 (let (delivered, effs) = deliver userId payload excludeClientId in
                  (Inr (), effs @ [Log Debug (str ''Topic message on '' @ channel @ str '': ''
                     @ dec_digits (utf8_length message) @ str '' bytes to '' @ dec_digits delivered
                     @ str '' local sessions'') None]))))"

section \<open>Runs\<close>

datatype topics_event =
    Notice phase lifecycle_event
  | Reply nat "unit throws"
  | Wake nat

fun topics_exec :: "topics_event \<Rightarrow> topics_state \<Rightarrow> topics_state \<times> topics_effect list" where
  "topics_exec (Notice Connect event) st = topics_handleConnect event st"
| "topics_exec (Notice Disconnect event) st = topics_handleDisconnect event st"
| "topics_exec (Reply k reply) st = topic_reply k reply st"
| "topics_exec (Wake k) st = topic_wake k st"

fun topics_enabled :: "topics_event \<Rightarrow> topics_state \<Rightarrow> bool" where
  "topics_enabled (Notice _ _) st = True"
| "topics_enabled (Reply k _) st = (k < length (topic_ops st) \<and> \<not> o_sleeping (topic_ops st ! k))"
| "topics_enabled (Wake k) st = (k < length (topic_ops st) \<and> o_sleeping (topic_ops st ! k))"

inductive topics_step :: "topics_state \<Rightarrow> topics_event \<Rightarrow> topics_effect list \<Rightarrow> topics_state \<Rightarrow> bool" where
  topics_step: "topics_enabled ev st \<Longrightarrow> topics_exec ev st = (st', effs) \<Longrightarrow> topics_step st ev effs st'"

type_synonym topics_trace = "(topics_event \<times> topics_effect list) list"

inductive topics_run :: "topics_state \<Rightarrow> topics_trace \<Rightarrow> topics_state \<Rightarrow> bool" for st where
  topics_start: "topics_run st [] st"
| topics_next: "topics_run st tr st' \<Longrightarrow> topics_step st' ev effs st'' \<Longrightarrow> topics_run st (tr @ [(ev, effs)]) st''"

code_pred topics_step .

inductive_cases topics_stepE [elim]: "topics_step st ev effs st'"

text \<open>The commands of a run, in the order they are issued.\<close>

definition commands :: "topics_trace \<Rightarrow> (topic_kind \<times> jstr) list" where
  "commands tr = concat (map (\<lambda>(_, effs). concat (map (\<lambda>e. case e of Command k ch \<Rightarrow> [(k, ch)] | _ \<Rightarrow> []) effs)) tr)"

definition last_command :: "jstr \<Rightarrow> (topic_kind \<times> jstr) list \<Rightarrow> topic_kind option" where
  "last_command channel cs =
     (case filter (\<lambda>c. snd c = channel) (rev cs) of [] \<Rightarrow> None | c # _ \<Rightarrow> Some (fst c))"

end
