(* ===== verification/Topic_Properties.thy ===== *)
theory Topic_Properties
  imports User_Topics
begin

text \<open>
  What the topic service guarantees and where it does not: the retry loop of one operation, taken
  step by step, is \<open>withBoundedRetry\<close>; the commands of a run are bounded; while no command fails
  the claimed channels are those whose last command is a subscribe. Two short interleavings show
  what a late retry does to a channel that changed hands meanwhile.
\<close>

section \<open>One operation alone\<close>

text \<open>The operation at the head runs alone against the given replies.\<close>

fun drive :: "unit throws list \<Rightarrow> topics_state \<Rightarrow> topics_state \<times> topics_effect list" where
  "drive [] st = (st, [])"
| "drive (r # rs) st =
     (if topic_ops st = [] then (st, [])
      else
        (let (st1, e1) = topic_reply 0 r st in
         if topic_ops st1 = [] then (st1, e1)
         else
           (let (st2, e2) = topic_wake 0 st1; (st3, e3) = drive rs st2 in (st3, e1 @ e2 @ e3))))"

fun backoffs :: "topics_effect list \<Rightarrow> int list" where
  "backoffs [] = []"
| "backoffs (Backoff d # es) = d # backoffs es"
| "backoffs (_ # es) = backoffs es"

lemma backoffs_append [simp]: "backoffs (a @ b) = backoffs a @ backoffs b"
  by (induction a rule: backoffs.induct) auto

lemma TOPIC_RETRY_simps [simp]:
  "retry_attempts (TOPIC_RETRY k ch) = 5" "onAttemptFailed (TOPIC_RETRY k ch) = False"
  by (simp_all add: retry_attempts_def TOPIC_RETRY_def or_default_def TOPIC_RETRY_attempts_def)

lemma backoffs_failed [simp]: "backoffs (snd (topic_op_failed op err st)) = []"
  by (simp add: topic_op_failed_def Let_def split: topic_kind.split)

lemma drive_retry_loop:
  assumes "topic_ops st = [op]" "\<not> o_sleeping op" "o_attempt op = a" "a \<le> 5" "5 - a < int (length rs)"
  shows "\<exists>op'. o_kind op' = o_kind op \<and> o_channel op' = o_channel op \<and>
    fst (drive rs st) = (case fst (retry_loop scripted (TOPIC_RETRY (o_kind op) (o_channel op)) a lst rs) of
        Inr _ \<Rightarrow> st\<lparr>topic_ops := []\<rparr>
      | Inl e \<Rightarrow> fst (topic_op_failed op' e (st\<lparr>topic_ops := []\<rparr>))) \<and>
    backoffs (snd (drive rs st)) =
      sleeps (snd (snd (retry_loop scripted (TOPIC_RETRY (o_kind op) (o_channel op)) a lst rs)))"
  using assms
proof (induction rs arbitrary: st op a lst)
  case (Cons r rs)
  let ?O = "TOPIC_RETRY (o_kind op) (o_channel op)"
  have loop: "retry_loop scripted ?O a lst (r # rs) =
      (case r of Inr v \<Rightarrow> (Inr v, rs, [])
       | Inl err \<Rightarrow> (case retry_loop scripted ?O (a + 1) err rs of
           (res, w, evs) \<Rightarrow> (res, w, after_failure ?O a err @ evs)))"
    using Cons.prems(4) by (subst retry_loop.simps) (simp split: sum.split)
  show ?case
  proof (cases r)
    case (Inr v)
    then show ?thesis unfolding loop using Cons.prems(1)
      by (intro exI [of _ op]) (simp add: topic_reply_def remove_nth_def Let_def)
  next
    case (Inl err)
    show ?thesis
    proof (cases "a < 5")
      case True
      let ?op = "op\<lparr>o_attempt := a + 1, o_sleeping := False\<rparr>"
      let ?st = "st\<lparr>topic_ops := [?op]\<rparr>"
      have d: "drive (r # rs) st = (fst (drive rs ?st),
          [Backoff (backoff_delay ?O a), Command (o_kind op) (o_channel op)] @ snd (drive rs ?st))"
        using Cons.prems(1,3) Inl True
        by (simp add: topic_reply_def topic_wake_def Let_def split_def)
      have eq: "?st\<lparr>topic_ops := []\<rparr> = st\<lparr>topic_ops := []\<rparr>" by (cases st) simp
      from Cons.IH [of ?st ?op "a + 1" err] Cons.prems(5) True
      obtain op' where IH: "o_kind op' = o_kind op" "o_channel op' = o_channel op"
        "fst (drive rs ?st) = (case fst (retry_loop scripted ?O (a + 1) err rs) of
            Inr _ \<Rightarrow> st\<lparr>topic_ops := []\<rparr> | Inl e \<Rightarrow> fst (topic_op_failed op' e (st\<lparr>topic_ops := []\<rparr>)))"
        "backoffs (snd (drive rs ?st)) = sleeps (snd (snd (retry_loop scripted ?O (a + 1) err rs)))"
        unfolding eq by auto
      show ?thesis unfolding loop d using IH Inl True
        by (intro exI [of _ op']) (simp add: split_def after_failure_def)
    next
      case False
      then have a: "a = 5" using Cons.prems(4) by simp
      have e: "retry_loop scripted ?O 6 err rs = (Inl (retry_failure ?O err), rs, [])"
        by (subst retry_loop.simps) simp
      have ops: "topic_ops (fst (topic_op_failed op e (st\<lparr>topic_ops := []\<rparr>))) = []" for e
        by (simp add: topic_op_failed_def Let_def split: topic_kind.split)
      have d: "drive (r # rs) st = topic_op_failed op (retry_failure ?O err) (st\<lparr>topic_ops := []\<rparr>)"
        using Cons.prems(1,3) Inl a ops [of "retry_failure ?O err"]
        by (simp add: topic_reply_def Let_def split_def remove_nth_def)
      show ?thesis unfolding loop d using Inl a e
        by (intro exI [of _ op]) (simp add: after_failure_def)
    qed
  qed
qed simp

section \<open>Commands\<close>

definition effect_commands :: "topics_effect list \<Rightarrow> (topic_kind \<times> jstr) list" where
  "effect_commands effs = concat (map (\<lambda>e. case e of Command k ch \<Rightarrow> [(k, ch)] | _ \<Rightarrow> []) effs)"

lemma commands_snoc: "commands (tr @ [(ev, effs)]) = commands tr @ effect_commands effs"
  by (simp add: commands_def effect_commands_def)

lemma commands_Nil [simp]: "commands [] = []"
  by (simp add: commands_def)

lemma effect_commands_simps [simp]:
  "effect_commands [] = []" "effect_commands (Command k ch # es) = (k, ch) # effect_commands es"
  "effect_commands (Backoff d # es) = effect_commands es" "effect_commands (TopicLog l m # es) = effect_commands es"
  by (simp_all add: effect_commands_def)

lemma last_command_snoc:
  "last_command ch (cs @ [(k, ch')]) = (if ch' = ch then Some k else last_command ch cs)"
  by (simp add: last_command_def)

lemma last_command_Nil [simp]: "last_command ch [] = None"
  by (simp add: last_command_def)

text \<open>What is left of the attempt budget of the operations that have not ended.\<close>

definition budget :: "topic_op list \<Rightarrow> int" where
  "budget ops = sum_list (map (\<lambda>op. 5 - o_attempt op) ops)"

definition attempts_ok :: "topics_state \<Rightarrow> bool" where
  "attempts_ok st \<longleftrightarrow> (\<forall>op \<in> set (topic_ops st).
     1 \<le> o_attempt op \<and> o_attempt op \<le> 5 \<and> (o_sleeping op \<longrightarrow> o_attempt op < 5))"

lemma budget_split: "k < length ops \<Longrightarrow> budget ops = budget (remove_nth k ops) + (5 - o_attempt (ops ! k))"
  by (subst id_take_nth_drop [of k ops], assumption) (simp add: budget_def remove_nth_def)

lemma budget_update:
  "k < length ops \<Longrightarrow> budget (ops[k := op]) = budget ops + o_attempt (ops ! k) - o_attempt op"
  by (subst (2) id_take_nth_drop [of k ops], assumption) (simp add: budget_def upd_conv_take_nth_drop)

lemma set_remove_nth: "set (remove_nth k xs) \<subseteq> set xs"
  by (auto simp: remove_nth_def dest: in_set_takeD in_set_dropD)

lemma topic_op_failed_ops [simp]: "topic_ops (fst (topic_op_failed op e st)) = topic_ops st"
  by (simp add: topic_op_failed_def Let_def split: topic_kind.split)

lemma topic_op_failed_commands [simp]: "effect_commands (snd (topic_op_failed op e st)) = []"
  by (simp add: topic_op_failed_def Let_def split: topic_kind.split)

definition is_notice :: "topics_event \<Rightarrow> bool" where
  "is_notice ev = (case ev of Notice _ _ \<Rightarrow> True | _ \<Rightarrow> False)"

lemma topics_step_budget:
  assumes "topics_step st ev effs st'" "attempts_ok st"
  shows "attempts_ok st' \<and>
    int (length (effect_commands effs)) + budget (topic_ops st')
      \<le> budget (topic_ops st) + (if is_notice ev then 5 else 0)"
  using assms(1)
proof (cases rule: topics_step.cases)
  case topics_step
  show ?thesis
  proof (cases ev)
    case (Notice ph event)
    then show ?thesis using topics_step assms(2)
      by (cases ph) (auto simp: topics_handleConnect_def topics_handleDisconnect_def Let_def is_notice_def
          withTopicOp_def attempts_ok_def budget_def split: if_splits)
  next
    case (Reply k reply)
    then have k: "k < length (topic_ops st)" "\<not> o_sleeping (topic_ops st ! k)" using topics_step by simp_all
    let ?op = "topic_ops st ! k"
    have a: "1 \<le> o_attempt ?op" "o_attempt ?op \<le> 5" using assms(2) k(1) by (simp_all add: attempts_ok_def)
    have rm: "attempts_ok (st\<lparr>topic_ops := remove_nth k (topic_ops st)\<rparr>)"
      using assms(2) set_remove_nth [of k "topic_ops st"] by (auto simp: attempts_ok_def)
    have le: "budget (remove_nth k (topic_ops st)) \<le> budget (topic_ops st)"
      using budget_split [OF k(1)] a by simp
    have st': "topic_reply k reply st = (st', effs)" using topics_step Reply by simp
    show ?thesis
    proof (cases "\<exists>err. reply = Inl err \<and> o_attempt ?op < 5")
      case True
      then have "st' = st\<lparr>topic_ops := (topic_ops st)[k := ?op\<lparr>o_sleeping := True\<rparr>]\<rparr>"
        "effect_commands effs = []"
        using st' by (auto simp: topic_reply_def Let_def)
      with True assms(2) k a show ?thesis
        by (auto simp: attempts_ok_def budget_update dest!: set_update_subset_insert [THEN subsetD])
    next
      case False
      then have "topic_ops st' = remove_nth k (topic_ops st) \<and> effect_commands effs = []"
        using st' topic_op_failed_ops [of ?op] topic_op_failed_commands [of ?op]
        by (cases reply; cases "topic_op_failed ?op (retry_failure (TOPIC_RETRY (o_kind ?op) (o_channel ?op)) (projl reply))
              (st\<lparr>topic_ops := remove_nth k (topic_ops st)\<rparr>)")
          (fastforce simp: topic_reply_def Let_def dest: arg_cong [of _ _ fst] arg_cong [of _ _ snd])+
      with rm le show ?thesis by (auto simp: attempts_ok_def)
    qed
  next
    case (Wake k)
    then have k: "k < length (topic_ops st)" "o_sleeping (topic_ops st ! k)" using topics_step by simp_all
    let ?op = "topic_ops st ! k"
    have a: "1 \<le> o_attempt ?op" "o_attempt ?op < 5" using assms(2) k by (simp_all add: attempts_ok_def)
    have st': "st' = st\<lparr>topic_ops := (topic_ops st)[k := ?op\<lparr>o_attempt := o_attempt ?op + 1, o_sleeping := False\<rparr>]\<rparr>"
      "effect_commands effs = [(o_kind ?op, o_channel ?op)]"
      using topics_step Wake by (auto simp: topic_wake_def Let_def)
    with assms(2) k a show ?thesis
      by (auto simp: attempts_ok_def budget_update dest!: set_update_subset_insert [THEN subsetD])
  qed
qed

lemma budget_nonneg: "attempts_ok st \<Longrightarrow> 0 \<le> budget (topic_ops st)"
  unfolding budget_def by (rule sum_list_nonneg) (auto simp: attempts_ok_def)

lemma topics_run_budget:
  "topics_run st tr st' \<Longrightarrow> attempts_ok st \<Longrightarrow> attempts_ok st' \<and>
     int (length (commands tr)) + budget (topic_ops st')
       \<le> budget (topic_ops st) + 5 * int (length (filter (is_notice \<circ> fst) tr))"
proof (induction rule: topics_run.induct)
  case (topics_next tr st' ev effs st'')
  with topics_step_budget [OF topics_next(2)] show ?case by (auto simp: commands_snoc)
qed simp

section \<open>Runs without failures\<close>

definition no_failure :: "topics_trace \<Rightarrow> bool" where
  "no_failure tr \<longleftrightarrow> (\<forall>k err. Reply k (Inl err) \<notin> fst ` set tr)"

definition claims_ok :: "topics_state \<Rightarrow> (topic_kind \<times> jstr) list \<Rightarrow> bool" where
  "claims_ok st cs \<longleftrightarrow> (\<forall>op \<in> set (topic_ops st). \<not> o_sleeping op) \<and>
     (\<forall>ch. ch \<in> set (subscribed st) \<longleftrightarrow> last_command ch cs = Some Subscribe)"

text \<open>The claims after a notification.\<close>

fun claim_after :: "phase \<times> lifecycle_event \<Rightarrow> jstr set \<Rightarrow> jstr set" where
  "claim_after (Connect, e) S = insert (channelFor (e_userId e)) S"
| "claim_after (Disconnect, e) S = (if e_userSessionCount e = 0 then S - {channelFor (e_userId e)} else S)"

lemma topics_step_claims:
  assumes "topics_step st ev effs st'" "claims_ok st cs" "\<And>k err. ev \<noteq> Reply k (Inl err)"
  shows "claims_ok st' (cs @ effect_commands effs) \<and>
    set (subscribed st') = (case ev of Notice ph e \<Rightarrow> claim_after (ph, e) (set (subscribed st)) | _ \<Rightarrow> set (subscribed st))"
  using assms(1)
proof (cases rule: topics_step.cases)
  case topics_step
  show ?thesis
  proof (cases ev)
    case (Notice ph event)
    then show ?thesis using topics_step assms(2)
      by (cases ph) (auto simp: topics_handleConnect_def topics_handleDisconnect_def withTopicOp_def Let_def
          claims_ok_def last_command_snoc js_simps split: if_splits)
  next
    case (Reply k reply)
    then obtain v where "reply = Inr v" using assms(3) by (cases reply) auto
    with topics_step Reply assms(2) set_remove_nth [of k "topic_ops st"] show ?thesis
      by (auto simp: topic_reply_def Let_def claims_ok_def)
  next
    case (Wake k)
    then show ?thesis using topics_step assms(2) by (auto simp: claims_ok_def)
  qed
qed

lemma topics_run_claims:
  "topics_run new_topics tr st \<Longrightarrow> no_failure tr \<Longrightarrow> claims_ok st (commands tr)"
proof (induction rule: topics_run.induct)
  case topics_start
  then show ?case by (simp add: claims_ok_def new_topics_def)
next
  case (topics_next tr st' ev effs st'')
  then show ?case using topics_step_claims [OF topics_next(2), of "commands tr"]
    by (auto simp: commands_snoc no_failure_def)
qed

section \<open>Properties\<close>

text \<open>C17: A topic operation that is left alone behaves as \<open>withBoundedRetry\<close> on the replies it gets:
  it ends with the first success, or with the claim released and the failure logged, after the same
  back-off delays.\<close>

theorem topic_op_refines_retry:
  assumes "4 < length replies"
  shows "let op = \<lparr>o_channel = ch, o_kind = k, o_attempt = 1, o_sleeping = False\<rparr>;
             spec = withBoundedRetry scripted (TOPIC_RETRY k ch) replies;
             run = drive replies (st\<lparr>topic_ops := [op]\<rparr>)
         in subscribed (fst run) = (case (k, fst spec) of
              (Subscribe, Inl _) \<Rightarrow> set_remove ch (subscribed st) | _ \<Rightarrow> subscribed st) \<and>
            topic_ops (fst run) = [] \<and> backoffs (snd run) = sleeps (snd (snd spec))"
proof -
  let ?op = "\<lparr>o_channel = ch, o_kind = k, o_attempt = 1, o_sleeping = False\<rparr>"
  let ?st = "st\<lparr>topic_ops := [?op]\<rparr>"
  have "topic_ops ?st = [?op]" "\<not> o_sleeping ?op" "o_attempt ?op = 1" by simp_all
  from drive_retry_loop [OF this, of replies Undefined] assms
  obtain op' where "o_kind op' = k" "o_channel op' = ch"
    "fst (drive replies ?st) = (case fst (withBoundedRetry scripted (TOPIC_RETRY k ch) replies) of
        Inr _ \<Rightarrow> ?st\<lparr>topic_ops := []\<rparr> | Inl e \<Rightarrow> fst (topic_op_failed op' e (?st\<lparr>topic_ops := []\<rparr>)))"
    "backoffs (snd (drive replies ?st)) = sleeps (snd (snd (withBoundedRetry scripted (TOPIC_RETRY k ch) replies)))"
    by (auto simp: withBoundedRetry_def)
  then show ?thesis
    by (simp add: Let_def topic_op_failed_def split: sum.split topic_kind.split)
qed

theorem topic_op_refines_retry_witness:
  "topic_ops (fst (drive (replicate 5 (Inl Null))
     (new_topics\<lparr>topic_ops := [\<lparr>o_channel = str ''user:a'', o_kind = Subscribe, o_attempt = 1, o_sleeping = False\<rparr>]\<rparr>))) = []"
  using topic_op_refines_retry [of "replicate 5 (Inl Null)" "str ''user:a''" Subscribe new_topics]
  by (simp only: Let_def length_replicate)



text \<open>While no command fails, a channel is claimed exactly when the last command issued for it is
  a subscribe.\<close>

theorem claims_match_commands:
  assumes "topics_run new_topics tr st" and "no_failure tr"
  shows "ch \<in> set (subscribed st) \<longleftrightarrow> last_command ch (commands tr) = Some Subscribe"
  using topics_run_claims [OF assms] by (simp add: claims_ok_def)

theorem claims_match_commands_witness:
  "\<exists>tr st. topics_run new_topics tr st \<and> commands tr \<noteq> [] \<and> channelFor (str ''ann'') \<in> set (subscribed st)"
proof -
  let ?e = "\<lparr>e_userId = str ''ann'', e_clientId = str ''c1'', e_token = str ''t'', e_userSessionCount = 1\<rparr>"
  obtain st effs where x: "topics_exec (Notice Connect ?e) new_topics = (st, effs)" by fastforce
  then have effs: "effs = [Command Subscribe (channelFor (str ''ann''))]"
    by (auto simp: topics_handleConnect_def withTopicOp_def new_topics_def Let_def)
  have "topics_step new_topics (Notice Connect ?e) effs st" by (rule topics_step.intros [OF _ x]) simp
  from topics_next [OF topics_start this] have r: "topics_run new_topics [(Notice Connect ?e, effs)] st" by simp
  have "no_failure [(Notice Connect ?e, effs)]" by (simp add: no_failure_def)
  from claims_match_commands [OF r this, of "channelFor (str ''ann'')"] r effs show ?thesis
    by (intro exI conjI) (assumption, simp_all add: commands_def last_command_def)
qed

text \<open>A topic message reaches the registry exactly when it comes on a user's channel with a valid
  envelope, for that user and with that payload and excluded client; every other message is
  dropped without a call, and only a missing deliverer throws.\<close>

theorem topic_messages_are_delivered:
  "let (res, effs) = handleTopicMessage deliver message channel st in
   (case (userIdFromChannel channel, parseUserTopicEnvelope message) of
      (Some u, EnvelopeOk payload exclude) \<Rightarrow>
        if localDeliverer st
        then res = Inr () \<and> (\<exists>text. effs = snd (deliver u payload exclude) @ [Log Debug text None])
        else isl res \<and> effs = []
    | _ \<Rightarrow> res = Inr () \<and> (\<exists>text. effs = [Log Warn text None]))"
  by (auto simp: handleTopicMessage_def split_def Let_def split: option.split envelope_result.split)

section \<open>Late retries\<close>

text \<open>The channels Redis delivers on the subscriber connection: the confirmed commands, in the order
  of their replies.\<close>

fun live_channels :: "topics_event list \<Rightarrow> topics_state \<Rightarrow> jstr list \<Rightarrow> jstr list" where
  "live_channels [] st live = live"
| "live_channels (ev # evs) st live =
     live_channels evs (fst (topics_exec ev st))
       (case ev of
          Reply k (Inr _) \<Rightarrow>
            (case o_kind (topic_ops st ! k) of
               Subscribe \<Rightarrow> set_add (o_channel (topic_ops st ! k)) live
             | Unsubscribe \<Rightarrow> set_remove (o_channel (topic_ops st ! k)) live)
        | _ \<Rightarrow> live)"

fun exec_topics :: "topics_event list \<Rightarrow> topics_state \<Rightarrow> topics_state option" where
  "exec_topics [] st = Some st"
| "exec_topics (ev # evs) st = (if topics_enabled ev st then exec_topics evs (fst (topics_exec ev st)) else None)"

definition session_event :: "user_id \<Rightarrow> client_id \<Rightarrow> jstr \<Rightarrow> nat \<Rightarrow> lifecycle_event" where
  "session_event u c tok n = \<lparr>e_userId = u, e_clientId = c, e_token = tok, e_userSessionCount = n\<rparr>"

text \<open>A user connects, its last session closes and the unsubscribe fails once, the user reconnects and
  is subscribed, and then the unsubscribe is retried.\<close>

definition late_unsubscribe :: "user_id \<Rightarrow> jsval \<Rightarrow> topics_event list" where
  "late_unsubscribe u err =
     [Notice Connect (session_event u (str ''c'') (str ''t1'') 1), Reply 0 (Inr ()),
      Notice Disconnect (session_event u (str ''c'') (str ''t1'') 0), Reply 0 (Inl err),
      Notice Connect (session_event u (str ''c'') (str ''t2'') 1), Reply 1 (Inr ()),
      Wake 0, Reply 0 (Inr ())]"

text \<open>A subscribe fails once, the user's session closes and the unsubscribe succeeds, and then the
  subscribe is retried.\<close>

definition late_subscribe :: "user_id \<Rightarrow> jsval \<Rightarrow> topics_event list" where
  "late_subscribe u err =
     [Notice Connect (session_event u (str ''c'') (str ''t1'') 1), Reply 0 (Inl err),
      Notice Disconnect (session_event u (str ''c'') (str ''t1'') 0), Reply 1 (Inr ()),
      Wake 0, Reply 0 (Inr ())]"

text \<open>C23: A retried unsubscribe that settles after a quick reconnect takes the channel of a connected
  user away: every operation has ended, the channel is claimed, so no later connect subscribes
  again, and Redis no longer delivers on it.\<close>

theorem late_unsubscribe_silences_user:
  "\<exists>st. exec_topics (late_unsubscribe u err) new_topics = Some st \<and>
     subscribed st = [channelFor u] \<and> topic_ops st = [] \<and>
     live_channels (late_unsubscribe u err) new_topics [] = [] \<and>
     (\<forall>c t n. topics_handleConnect (session_event u c t n) st = (st, []))"
  by (simp add: late_unsubscribe_def session_event_def new_topics_def topics_handleConnect_def
      topics_handleDisconnect_def withTopicOp_def topic_reply_def topic_wake_def remove_nth_def
      set_add_def set_remove_def Let_def)

text \<open>C24: A retried subscribe that settles after the user's last session closed leaves Redis
  delivering on a channel nobody claims: every operation has ended, no later disconnect
  unsubscribes it, and the next connect subscribes a second time.\<close>

theorem late_subscribe_leaks_channel:
  "\<exists>st. exec_topics (late_subscribe u err) new_topics = Some st \<and>
     subscribed st = [] \<and> topic_ops st = [] \<and>
     live_channels (late_subscribe u err) new_topics [] = [channelFor u] \<and>
     (\<forall>c t n. topics_handleDisconnect (session_event u c t n) st = (st, [])) \<and>
     (\<forall>c t n. snd (topics_handleConnect (session_event u c t n) st) = [Command Subscribe (channelFor u)])"
  by (simp add: late_subscribe_def session_event_def new_topics_def topics_handleConnect_def
      topics_handleDisconnect_def withTopicOp_def topic_reply_def topic_wake_def remove_nth_def
      set_add_def set_remove_def Let_def)

end
