(* ===== verification/Session_Trackers.thy ===== *)
theory Session_Trackers
  imports Ws_Properties
begin

text \<open>
  The interface between the session registry and its trackers (\<open>SessionTracker\<close> in
  \<open>src/ws/session.interface.ts\<close>). A tracker turns each notification into a change of its own
  state; the registry promises notifications that are in order and carry exact counts. A tracker
  that keeps its state in agreement with the view under one such notification keeps it over every
  run of the registry.
\<close>

lemma observe_finite: "observe n V = Some V' \<Longrightarrow> finite (dom V) \<Longrightarrow> finite (dom V')"
  by (auto simp: observe_def Let_def split: if_splits phase.splits)

lemma finite_user_clients: "finite (dom V) \<Longrightarrow> finite (user_clients V u)"
  by (rule finite_subset [of _ "dom V"]) (auto simp: user_clients_def)

locale session_tracker =
  fixes apply_notice :: "phase \<times> lifecycle_event \<Rightarrow> 's \<Rightarrow> 's"
    and agrees :: "'s \<Rightarrow> view \<Rightarrow> bool"
  assumes agrees_step:
    "finite (dom V) \<Longrightarrow> agrees s V \<Longrightarrow> observe n V = Some V' \<Longrightarrow> agrees (apply_notice n s) V'"
begin

lemma agrees_all:
  "finite (dom V) \<Longrightarrow> agrees s V \<Longrightarrow> observe_all ns V = Some V' \<Longrightarrow> agrees (fold apply_notice ns s) V'"
proof (induction ns arbitrary: s V)
  case (Cons n ns)
  then obtain V1 where V1: "observe n V = Some V1" "observe_all ns V1 = Some V'"
    by (auto split: option.splits)
  with Cons.prems show ?case
    using Cons.IH [OF observe_finite [OF V1(1)] agrees_step [OF _ _ V1(1)] V1(2)] by simp
qed simp

lemma agrees_run:
  assumes "ws_run (new_registry ts) tr st" "distinct ts" "t \<in> set ts" "agrees s (\<lambda>_. None)"
  shows "agrees (fold apply_notice (notices t (trace_effects tr)) s) (view_of st)"
proof -
  have "view_of (new_registry ts) = (\<lambda>_. None)"
    by (simp add: view_of_def new_registry_def js_simps fun_eq_iff)
  then have "observe_all (notices t (trace_effects tr)) (\<lambda>_. None) = Some (view_of st)"
    using ws_run_view [OF assms(1) new_registry_inv(1), of t] assms(2,3) by (simp add: new_registry_def)
  with agrees_all [OF _ assms(4)] show ?thesis by simp
qed

end

end
