(* ===== verification/Cluster.thy ===== *)
theory Cluster
  imports Topic_Properties Session_Trackers
begin

text \<open>
  The replicas together: the claims of the topic service follow the sessions of its registry, and a
  message accepted on one replica reaches, on every replica that Redis delivers its envelope to,
  exactly the open sessions of the target. Redis itself is the assumption that an envelope
  published on a channel arrives unchanged with that channel's name.
\<close>

section \<open>Claims follow sessions\<close>

text \<open>The topic service as a tracker: a user's channel is claimed while the user is connected.\<close>

definition claims_agree :: "jstr set \<Rightarrow> view \<Rightarrow> bool" where
  "claims_agree S V \<longleftrightarrow> (\<forall>u. channelFor u \<in> S \<longleftrightarrow> user_clients V u \<noteq> {})"

interpretation topic_tracker: session_tracker claim_after claims_agree
proof
  fix V V' :: view and S :: "jstr set" and n :: "phase \<times> lifecycle_event"
  assume fin: "finite (dom V)" and ag: "claims_agree S V" and obs: "observe n V = Some V'"
  obtain ph e where n: "n = (ph, e)" by (cases n)
  have card: "e_userSessionCount e = card (user_clients V' (e_userId e))"
    using obs by (auto simp: n observe_def Let_def split: if_splits)
  have fin': "finite (user_clients V' (e_userId e))"
    by (rule finite_user_clients [OF observe_finite [OF obs fin]])
  show "claims_agree (claim_after n S) V'"
  proof (cases ph)
    case Connect
    then have "V' = V(e_clientId e \<mapsto> (e_userId e, e_token e))" "V (e_clientId e) = None"
      using obs by (auto simp: n observe_def Let_def split: if_splits)
    then have "user_clients V' u = (if u = e_userId e then insert (e_clientId e) (user_clients V u) else user_clients V u)" for u
      by (auto simp: user_clients_def)
    with ag Connect show ?thesis by (auto simp: n claims_agree_def)
  next
    case Disconnect
    then have V': "V' = V(e_clientId e := None)" "V (e_clientId e) = Some (e_userId e, e_token e)"
      using obs by (auto simp: n observe_def Let_def split: if_splits)
    then have other: "u \<noteq> e_userId e \<Longrightarrow> user_clients V' u = user_clients V u" for u
      by (auto simp: user_clients_def)
    have "user_clients V (e_userId e) \<noteq> {}" using V'(2) by (auto simp: user_clients_def)
    with ag card fin' other have "channelFor u \<in> claim_after (Disconnect, e) S \<longleftrightarrow> user_clients V' u \<noteq> {}" for u
      by (cases "u = e_userId e") (simp_all add: claims_agree_def)
    with Disconnect show ?thesis by (simp add: n claims_agree_def)
  qed
qed

section \<open>Properties\<close>

text \<open>An envelope built for a target is delivered to the target's open sessions, less the sender.\<close>

lemma envelope_delivery:
  assumes p: "parsed_json message" "non_blank target" "non_blank clientId"
    and built: "buildUserTopicEnvelope message (Some clientId) = Inr t"
    and inv: "ws_inv stB" and topics: "localDeliverer topics"
    and x: "handleTopicMessage (\<lambda>u p x. sendToLocalUser envB u p x stB) t (channelFor target) topics = (res, effsB)"
  shows "\<exists>payload cs. JSON_stringify message = Text payload \<and> res = Inr () \<and> distinct cs \<and>
    set cs = {c \<in> online stB target. c \<noteq> clientId \<and> deliverable envB stB c} \<and>
    sends effsB = map (\<lambda>c. (socket_of stB c, payload)) cs"
proof -
  have t: "parseUserTopicEnvelope t = EnvelopeOk (nullify message) (Some clientId)"
    using envelope_built_and_parsed [OF p(1), of "Some clientId"] p(3) built by auto
  obtain payload where s: "JSON_stringify (nullify message) = Text payload"
    using json_roundtrip [OF nullify_wf [OF p(1)]] by metis
  then have s': "JSON_stringify message = Text payload" by (simp add: stringify_nullify)
  note m = members_online [OF inv, of target]
  let ?ms = "members_of (userClients stB) target"
  let ?cs = "filter (\<lambda>c. Some clientId \<noteq> Some c \<and> deliverable envB stB c) ?ms"
  obtain n effs' where d: "sendToLocalUser envB target (nullify message) (Some clientId) stB = (n, effs')" by fastforce
  have user: "userIdFromChannel (channelFor target) = Some target" using p(2) by (simp add: userIdFromChannel_iff)
  have "sends effs' = map (\<lambda>c. (socket_of stB c, payload)) ?cs"
    using local_delivery_text(2) [OF s, of envB ?ms "Some clientId" stB] d
    by (simp add: sendToLocalUser_members)
  moreover have "res = Inr ()" "sends effsB = sends effs'"
    using topics x user t d by (auto simp: handleTopicMessage_def)
  ultimately show ?thesis using s' m
    by (intro exI [of _ payload] exI [of _ ?cs]) auto
qed

text \<open>A \<open>sendMessage\<close> frame accepted on one replica reaches, on every replica its envelope is
  delivered to, exactly the target's registered sessions there whose socket is open and takes it,
  once each and with the message as sent, and never the sending client.\<close>

theorem message_reaches_target_sessions:
  assumes "parseInboundFrame data = Send target message" and "non_blank clientId"
    and "handleMessage envA sender clientId data stA = (stA', effs)" and "Publish channel envelope \<in> set effs"
    and "ws_run (new_registry ts) tr stB" and "localDeliverer topics"
    and "handleTopicMessage (\<lambda>u p x. sendToLocalUser envB u p x stB) envelope channel topics = (res, effsB)"
  shows "\<exists>payload cs. JSON_stringify message = Text payload \<and> res = Inr () \<and> distinct cs \<and>
    set cs = {c \<in> online stB target. c \<noteq> clientId \<and> deliverable envB stB c} \<and>
    sends effsB = map (\<lambda>c. (socket_of stB c, payload)) cs"
proof -
  from parseInboundFrame_parsed [OF assms(1)] have p: "parsed_json message" "non_blank target" by simp_all
  obtain t where t: "buildUserTopicEnvelope message (Some clientId) = Inr t"
    using envelope_built_and_parsed [OF p(1), of "Some clientId"] assms(2) by auto
  have pub: "channel = channelFor target" "envelope = t"
    using assms(1,3,4) t by (auto simp: handleMessage_def Let_def canSendTo_def sendToUser_def)
  show ?thesis
    by (rule envelope_delivery [OF p assms(2) t ws_run_inv [OF assms(5) new_registry_inv(1)] assms(6)
          assms(7) [unfolded pub]])
qed

theorem message_reaches_target_sessions_witness:
  "\<exists>t envelope effsB. parseInboundFrame (RawString t) = Send (str ''ann'') Null \<and>
     snd (handleMessage sample_env (str ''bob'') (str ''b1'') (RawString t) (new_registry SESSION_TRACKERS)) =
       [Log Debug (str ''Message received from '' @ session_name (str ''bob'') (str ''b1'') @ str '': '' @ payload_preview t) None,
        Publish (channelFor (str ''ann'')) envelope] \<and>
     handleTopicMessage (\<lambda>u p x. sendToLocalUser sample_env u p x sample_state) envelope
       (channelFor (str ''ann'')) (setLocalDeliverer new_topics) = (Inr (), effsB) \<and> sends effsB \<noteq> []"
proof -
  have nb: "non_blank (str ''b1'')" "non_blank (str ''ann'')"
    by (simp_all add: non_blank_def trim_eq_Nil str_def cu_def js_space_def)
  obtain t where t: "parseInboundFrame (RawString t) = Send (str ''ann'') Null"
    using send_frame_routed [of Null "str ''ann''"] nb(2) by auto
  obtain envelope where e: "buildUserTopicEnvelope Null (Some (str ''b1'')) = Inr envelope"
    using envelope_built_and_parsed [of Null "Some (str ''b1'')"] nb(1) by auto
  let ?h = "handleMessage sample_env (str ''bob'') (str ''b1'') (RawString t) (new_registry SESSION_TRACKERS)"
  have effs: "snd ?h = [Log Debug (str ''Message received from '' @ session_name (str ''bob'') (str ''b1'') @ str '': ''
      @ payload_preview t) None, Publish (channelFor (str ''ann'')) envelope]"
    by (simp add: handleMessage_def t canSendTo_def sendToUser_def e Let_def)
  obtain stA' effs where h: "?h = (stA', effs)" by fastforce
  obtain res effsB where x: "handleTopicMessage (\<lambda>u p x. sendToLocalUser sample_env u p x sample_state) envelope
       (channelFor (str ''ann'')) (setLocalDeliverer new_topics) = (res, effsB)" by fastforce
  have "Publish (channelFor (str ''ann'')) envelope \<in> set effs" using h effs by simp
  moreover have "localDeliverer (setLocalDeliverer new_topics)" by (simp add: setLocalDeliverer_def)
  ultimately obtain payload cs where r: "res = Inr ()"
    "set cs = {c \<in> online sample_state (str ''ann''). c \<noteq> str ''b1'' \<and> deliverable sample_env sample_state c}"
    "sends effsB = map (\<lambda>c. (socket_of sample_state c, payload)) cs"
    using message_reaches_target_sessions [OF t nb(1) h _ sample_run _ x] by blast
  have "str ''c1'' \<in> set cs" unfolding r(2)
    by (simp add: online_def deliverable_def getSession_def sample_state_def sample_session_def sample_env_def map_get_def)
  then have "sends effsB \<noteq> []" using r(3) by auto
  with t effs x r(1) show ?thesis by blast
qed

end
