(* ===== verification/Auth.thy ===== *)
theory Auth
  imports Ws_Properties
begin

text \<open>
  \<open>src/auth\<close> and the gateway that uses it: the JWT settings (\<open>auth.constants.ts\<close>), the extraction
  of a Bearer token and the verifier with its cached settings (\<open>jwt-verifier.service.ts\<close>), the
  HTTP guard (\<open>jwt-auth.guard.ts\<close>), and the WebSocket gateway and adapter
  (\<open>ws.gateway.ts\<close>, \<open>ws.adapter.ts\<close>). The file system and \<open>jsonwebtoken\<close>'s \<open>verify\<close> are
  parameters.
\<close>

section \<open>Settings\<close>

record jwt_config =
  jwt_publicKey :: jstr
  jwt_issuer :: jstr
  jwt_audience :: jstr

record file_system =
  fs_read :: "jstr \<Rightarrow> jstr throws"
  fs_resolve :: "jstr \<Rightarrow> jstr"
  fs_cwd :: jstr

definition readPublicKey :: "file_system \<Rightarrow> environment \<Rightarrow> jstr throws" where
  "readPublicKey fs env =
     (case env (str ''JWT_PUBLIC_KEY_PATH'') of
        None \<Rightarrow> Inl (new_error (str ''Missing JWT_PUBLIC_KEY_PATH environment variable''))
      | Some keyPath \<Rightarrow>
          if keyPath = [] then Inl (new_error (str ''Missing JWT_PUBLIC_KEY_PATH environment variable''))
          else (case fs_read fs keyPath of
             Inr key \<Rightarrow> Inr key
           | Inl _ \<Rightarrow> Inl (new_error (str ''Cannot read JWT public key at \"'' @ fs_resolve fs keyPath
                       @ str ''\" (working directory \"'' @ fs_cwd fs @ str ''\")''))))"

definition readRequired :: "environment \<Rightarrow> jstr \<Rightarrow> jstr throws" where
  "readRequired env name =
     (case env name of
        None \<Rightarrow> Inl (new_error (str ''Missing '' @ name @ str '' environment variable''))
      | Some raw \<Rightarrow>
          if trim raw = [] then Inl (new_error (str ''Missing '' @ name @ str '' environment variable''))
          else Inr (trim raw))"

definition getJwtConfig :: "file_system \<Rightarrow> environment \<Rightarrow> jwt_config throws" where
  "getJwtConfig fs env =
     (case readPublicKey fs env of
        Inl e \<Rightarrow> Inl e
      | Inr publicKey \<Rightarrow>
          if \<not> has_substring publicKey (str ''BEGIN PUBLIC KEY'')
          then Inl (new_error (str ''Invalid JWT public key: expected PEM public key''))
          else (case readRequired env (str ''JWT_ISSUER'') of
             Inl e \<Rightarrow> Inl e
           | Inr issuer \<Rightarrow>
               (case readRequired env (str ''JWT_AUDIENCE'') of
                  Inl e \<Rightarrow> Inl e
                | Inr audience \<Rightarrow>
                    Inr \<lparr>jwt_publicKey = publicKey, jwt_issuer = issuer, jwt_audience = audience\<rparr>)))"

section \<open>Claims\<close>

text \<open>A verified payload is the decoded value itself, known to have the required claims.\<close>

definition isJwtPayload :: "jsval \<Rightarrow> bool" where
  "isJwtPayload v =
     (if \<not> is_object v then False
      else if \<not> has_prop v (str ''iss'') \<or> \<not> has_prop v (str ''aud'') \<or> \<not> has_prop v (str ''exp'') then False
      else if (case get_prop v (str ''iss'') of Str _ \<Rightarrow> False | _ \<Rightarrow> True)
              \<or> (case get_prop v (str ''exp'') of Num _ \<Rightarrow> False | _ \<Rightarrow> True) then False
      else (case get_prop v (str ''aud'') of
         Str _ \<Rightarrow> True
       | Arr entries \<Rightarrow> list_all (\<lambda>e. case e of Str _ \<Rightarrow> True | _ \<Rightarrow> False) entries
       | _ \<Rightarrow> False))"

section \<open>Bearer tokens\<close>

text \<open>The code units \<open>.\<close> does not match.\<close>

definition line_terminator :: "code_unit \<Rightarrow> bool" where
  "line_terminator c \<longleftrightarrow> c \<in> {10, 13, 0x2028, 0x2029}"

text \<open>Upper and lower case of an ASCII letter are equal under the \<open>i\<close> flag; other units that fold
  to a letter of the word do not exist.\<close>

definition fold_ascii :: "code_unit \<Rightarrow> code_unit" where
  "fold_ascii c = (if 65 \<le> c \<and> c \<le> 90 then c + 32 else c)"

definition bearer_word :: "jstr \<Rightarrow> bool" where
  "bearer_word s \<longleftrightarrow> map fold_ascii s = str ''bearer''"

text \<open>The matches of \<open>/^\s*Bearer\s+(.+?)\s*$/i\<close> in the order the backtracking matcher tries them:
  a greedy run of white space, the word, a greedy non-empty run of white space, a lazy non-empty
  run of units other than line terminators, and white space to the end. Each yields its group.\<close>

definition run_length :: "(code_unit \<Rightarrow> bool) \<Rightarrow> jstr \<Rightarrow> nat" where
  "run_length P s = length (takeWhile P s)"

definition lazy_groups :: "jstr \<Rightarrow> jstr list" where
  "lazy_groups body =
     concat (map (\<lambda>n. if list_all js_space (drop n body) then [take n body] else [])
       [1..<Suc (run_length (\<lambda>c. \<not> line_terminator c) body)])"

definition spaced_groups :: "jstr \<Rightarrow> jstr list" where
  "spaced_groups rest =
     concat (map (\<lambda>j. lazy_groups (drop j rest)) (rev [1..<Suc (run_length js_space rest)]))"

definition bearer_groups :: "jstr \<Rightarrow> jstr list" where
  "bearer_groups header =
     concat (map (\<lambda>i. let s = drop i header in
                     if bearer_word (take 6 s) then spaced_groups (drop 6 s) else [])
       (rev [0..<Suc (run_length js_space header)]))"

definition extractBearerToken :: "jstr option \<Rightarrow> jstr option" where
  "extractBearerToken header =
     (case header of
        None \<Rightarrow> None
      | Some h \<Rightarrow>
          (case bearer_groups h of
             [] \<Rightarrow> None
           | captured # _ \<Rightarrow> let token = trim captured in if token = [] then None else Some token))"

section \<open>The verifier\<close>

record verify_options =
  vo_algorithms :: "jstr list"
  vo_issuer :: jstr
  vo_audience :: jstr

text \<open>\<open>verify\<close> of \<open>jsonwebtoken\<close>: token, key and options to the decoded payload or the error it
  throws.\<close>

type_synonym jwt_verify = "jstr \<Rightarrow> jstr \<Rightarrow> verify_options \<Rightarrow> jsval throws"

type_synonym verifier_state = "jwt_config option"

text \<open>\<open>this.config ??= getJwtConfig()\<close>: settings that load are kept, an error is not.\<close>

definition getConfig :: "jwt_config throws \<Rightarrow> verifier_state \<Rightarrow> jwt_config throws \<times> verifier_state" where
  "getConfig loaded st =
     (case st of
        Some c \<Rightarrow> (Inr c, st)
      | None \<Rightarrow> (case loaded of Inl e \<Rightarrow> (Inl e, None) | Inr c \<Rightarrow> (Inr c, Some c)))"

definition jwt_options :: "jwt_config \<Rightarrow> verify_options" where
  "jwt_options config =
     \<lparr>vo_algorithms = [str ''RS256''], vo_issuer = jwt_issuer config, vo_audience = jwt_audience config\<rparr>"

definition verify_token ::
  "jwt_verify \<Rightarrow> jwt_config throws \<Rightarrow> jstr \<Rightarrow> verifier_state \<Rightarrow> jsval throws \<times> verifier_state" where
  "verify_token jwt loaded token st =
     (case getConfig loaded st of
        (Inl e, st') \<Rightarrow> (Inl e, st')
      | (Inr config, st') \<Rightarrow>
          (case jwt token (jwt_publicKey config) (jwt_options config) of
             Inl e \<Rightarrow> (Inl e, st')
           | Inr decoded \<Rightarrow>
               if isJwtPayload decoded then (Inr decoded, st')
               else (Inl (new_error (str ''Invalid token payload'')), st')))"

definition verifyHeader ::
  "jwt_verify \<Rightarrow> jwt_config throws \<Rightarrow> jstr option \<Rightarrow> verifier_state \<Rightarrow> jsval throws \<times> verifier_state" where
  "verifyHeader jwt loaded header st =
     (case extractBearerToken header of
        None \<Rightarrow> (Inl (new_error (str ''Missing Bearer token'')), st)
      | Some token \<Rightarrow> verify_token jwt loaded token st)"

section \<open>The HTTP guard\<close>

text \<open>The request as the guard reads it: not a request, or one with its \<open>authorization\<close> header.
  \<open>headers\<close> may be \<open>null\<close>, which passes the type test and fails when it is read.\<close>

datatype header_value = NoHeader | OneHeader jstr | ManyHeaders "jstr list"
datatype guard_request = NotARequest | NullHeaders | Headers header_value
datatype guard_result = Allowed "jsval option" | Unauthorized jstr

record guard_context =
  gc_isPublic :: "bool option"
  gc_type :: jstr
  gc_request :: guard_request

definition readAuthHeader :: "header_value \<Rightarrow> jstr option" where
  "readAuthHeader raw =
     (case raw of NoHeader \<Rightarrow> None | OneHeader h \<Rightarrow> Some h | ManyHeaders hs \<Rightarrow> Some (join (str '', '') hs))"

definition isHttpRequest :: "guard_request \<Rightarrow> bool" where
  "isHttpRequest r \<longleftrightarrow> r \<noteq> NotARequest"

text \<open>\<open>Allowed (Some user)\<close> also stores the payload on the request.\<close>

definition canActivate ::
  "jwt_verify \<Rightarrow> jwt_config throws \<Rightarrow> guard_context \<Rightarrow> verifier_state \<Rightarrow> guard_result \<times> verifier_state" where
  "canActivate jwt loaded context st =
     (if gc_isPublic context = Some True then (Allowed None, st)
      else if gc_type context \<noteq> str ''http'' then (Allowed None, st)
      else if \<not> isHttpRequest (gc_request context) then (Unauthorized (str ''Missing request''), st)
      else (case gc_request context of
         Headers raw \<Rightarrow>
           (case verifyHeader jwt loaded (readAuthHeader raw) st of
              (Inr payload, st') \<Rightarrow> (Allowed (Some payload), st')
            | (Inl _, st') \<Rightarrow> (Unauthorized (str ''Invalid or expired token''), st'))
       | _ \<Rightarrow> (Unauthorized (str ''Invalid or expired token''), st)))"

section \<open>The gateway\<close>

text \<open>The claims the gateway reads off a verified payload.\<close>

definition claims_of :: "jsval \<Rightarrow> gateway_claims" where
  "claims_of payload =
     \<lparr>claim_sub = get_prop payload (str ''sub''),
      claim_exp = (case get_prop payload (str ''exp'') of Num x \<Rightarrow> x | _ \<Rightarrow> NaN)\<rparr>"

text \<open>The gateway asks the verifier once, and only when the request carries a token; the verifier's
  state after the decision is that of this call.\<close>

definition gateway_decision ::
  "url_params \<Rightarrow> jwt_verify \<Rightarrow> jwt_config throws \<Rightarrow> jsval list \<Rightarrow> verifier_state \<Rightarrow> resolve_result \<times> verifier_state" where
  "gateway_decision url jwt loaded args vst =
     (let identity = extractGatewayIdentity url args in
      (resolveGatewayIdentity identity (\<lambda>token. map_sum id claims_of (fst (verify_token jwt loaded token vst))),
       case gi_token identity of None \<Rightarrow> vst | Some token \<Rightarrow> snd (verify_token jwt loaded token vst)))"

definition gateway_handleConnection ::
  "url_params \<Rightarrow> jwt_verify \<Rightarrow> jwt_config throws \<Rightarrow> jstr \<Rightarrow> int \<Rightarrow> socket \<Rightarrow> jsval list
     \<Rightarrow> verifier_state \<times> ws_state \<Rightarrow> (verifier_state \<times> ws_state) \<times> ws_effect list" where
  "gateway_handleConnection url jwt loaded uuid now client args st =
     (let (decision, vst) = gateway_decision url jwt loaded args (fst st) in
      case decision of
        Rejected reason \<Rightarrow> ((vst, snd st), [CloseSocket client WS_CLOSE_POLICY_VIOLATION reason])
      | Authorized userId clientId expiresAt \<Rightarrow>
          (case handleConnection uuid now
                  \<lparr>p_socket = client, p_userId = Some userId, p_clientId = Some clientId,
                   p_expiresAt = expiresAt\<rparr> (snd st) of
             (_, st', effs) \<Rightarrow> ((vst, st'), effs)))"

text \<open>The adapter's handler of a socket error: oversized frames are left to the registry's warning.\<close>

definition adapter_on_error :: "jsval \<Rightarrow> jsval list" where
  "adapter_on_error err = (if \<not> isWsPayloadTooBigError err then [err] else [])"

text \<open>The two listeners the adapter binds, and what each logs at error level.\<close>

datatype adapter_error = OnSocket jsval | OnServer jsval

fun bindErrorHandler :: "adapter_error \<Rightarrow> jsval list" where
  "bindErrorHandler (OnSocket err) = adapter_on_error err"
| "bindErrorHandler (OnServer err) = [err]"

lemma bindErrorHandler_silent: "bindErrorHandler ev = [] \<longleftrightarrow> (\<exists>err. ev = OnSocket err \<and> isWsPayloadTooBigError err)"
  by (cases ev) (simp_all add: adapter_on_error_def)

text \<open>The payload limit the adapter forces on the server it creates.\<close>

definition getWsMaxPayload :: "environment \<Rightarrow> number throws" where
  "getWsMaxPayload env = parseMaxPayloadBytes (env (str ''WS_MAX_PAYLOAD_BYTES''))"

definition adapter_create :: "environment \<Rightarrow> (jstr \<times> jsval) list \<Rightarrow> (jstr \<times> jsval) list throws" where
  "adapter_create env options =
     (case getWsMaxPayload env of
        Inl e \<Rightarrow> Inl e
      | Inr maxPayload \<Rightarrow> Inr (map_set (str ''maxPayload'') (Num maxPayload) options))"

section \<open>The Bearer pattern\<close>

lemma run_length_iff: "i \<le> run_length P s \<longleftrightarrow> i \<le> length s \<and> list_all P (take i s)"
proof (induction s arbitrary: i)
  case (Cons c s)
  then show ?case by (cases i) (auto simp: run_length_def)
qed (simp add: run_length_def)

lemma bearer_word_length: "bearer_word w \<Longrightarrow> length w = 6"
  by (auto simp: bearer_word_def dest: arg_cong [of _ _ length])

lemma lazy_groups_iff:
  "g \<in> set (lazy_groups body) \<longleftrightarrow>
     (\<exists>ws. body = g @ ws \<and> list_all js_space ws \<and> g \<noteq> [] \<and> list_all (\<lambda>c. \<not> line_terminator c) g)"
proof -
  have "g \<in> set (lazy_groups body) \<longleftrightarrow>
      (\<exists>n. 1 \<le> n \<and> n \<le> length body \<and> list_all (\<lambda>c. \<not> line_terminator c) (take n body) \<and>
         list_all js_space (drop n body) \<and> g = take n body)"
    by (auto simp: lazy_groups_def less_Suc_eq_le run_length_iff simp del: upt_Suc split: if_splits)
  also have "\<dots> \<longleftrightarrow> (\<exists>ws. body = g @ ws \<and> list_all js_space ws \<and> g \<noteq> [] \<and> list_all (\<lambda>c. \<not> line_terminator c) g)"
  proof
    assume "\<exists>ws. body = g @ ws \<and> list_all js_space ws \<and> g \<noteq> [] \<and> list_all (\<lambda>c. \<not> line_terminator c) g"
    then show "\<exists>n. 1 \<le> n \<and> n \<le> length body \<and> list_all (\<lambda>c. \<not> line_terminator c) (take n body) \<and>
         list_all js_space (drop n body) \<and> g = take n body"
      by (intro exI [of _ "length g"]) (auto simp: Suc_le_eq)
  next
    assume "\<exists>n. 1 \<le> n \<and> n \<le> length body \<and> list_all (\<lambda>c. \<not> line_terminator c) (take n body) \<and>
         list_all js_space (drop n body) \<and> g = take n body"
    then obtain n where "1 \<le> n" "n \<le> length body" "list_all (\<lambda>c. \<not> line_terminator c) (take n body)"
      "list_all js_space (drop n body)" "g = take n body" by blast
    then show "\<exists>ws. body = g @ ws \<and> list_all js_space ws \<and> g \<noteq> [] \<and> list_all (\<lambda>c. \<not> line_terminator c) g"
      by (intro exI [of _ "drop n body"]) auto
  qed
  finally show ?thesis .
qed

lemma spaced_groups_iff:
  "g \<in> set (spaced_groups rest) \<longleftrightarrow>
     (\<exists>ws. ws \<noteq> [] \<and> list_all js_space ws \<and> (\<exists>body. rest = ws @ body \<and> g \<in> set (lazy_groups body)))"
proof -
  have "g \<in> set (spaced_groups rest) \<longleftrightarrow>
      (\<exists>j. 1 \<le> j \<and> j \<le> length rest \<and> list_all js_space (take j rest) \<and> g \<in> set (lazy_groups (drop j rest)))"
    by (auto simp: spaced_groups_def less_Suc_eq_le run_length_iff simp del: upt_Suc)
  also have "\<dots> \<longleftrightarrow> (\<exists>ws. ws \<noteq> [] \<and> list_all js_space ws \<and> (\<exists>body. rest = ws @ body \<and> g \<in> set (lazy_groups body)))"
  proof
    assume "\<exists>ws. ws \<noteq> [] \<and> list_all js_space ws \<and> (\<exists>body. rest = ws @ body \<and> g \<in> set (lazy_groups body))"
    then obtain ws body where "ws \<noteq> []" "list_all js_space ws" "rest = ws @ body" "g \<in> set (lazy_groups body)"
      by blast
    then show "\<exists>j. 1 \<le> j \<and> j \<le> length rest \<and> list_all js_space (take j rest) \<and> g \<in> set (lazy_groups (drop j rest))"
      by (intro exI [of _ "length ws"]) (auto simp: Suc_le_eq)
  next
    assume "\<exists>j. 1 \<le> j \<and> j \<le> length rest \<and> list_all js_space (take j rest) \<and> g \<in> set (lazy_groups (drop j rest))"
    then obtain j where "1 \<le> j" "j \<le> length rest" "list_all js_space (take j rest)"
      "g \<in> set (lazy_groups (drop j rest))" by blast
    then show "\<exists>ws. ws \<noteq> [] \<and> list_all js_space ws \<and> (\<exists>body. rest = ws @ body \<and> g \<in> set (lazy_groups body))"
      by (intro exI [of _ "take j rest"] conjI exI [of _ "drop j rest"]) auto
  qed
  finally show ?thesis .
qed

text \<open>The groups are those of the pattern read declaratively.\<close>

lemma bearer_groups_iff:
  "g \<in> set (bearer_groups h) \<longleftrightarrow>
     (\<exists>ws1 word rest. h = ws1 @ word @ rest \<and> list_all js_space ws1 \<and> bearer_word word \<and> g \<in> set (spaced_groups rest))"
proof -
  have "g \<in> set (bearer_groups h) \<longleftrightarrow>
      (\<exists>i. i \<le> length h \<and> list_all js_space (take i h) \<and> bearer_word (take 6 (drop i h)) \<and>
         g \<in> set (spaced_groups (drop 6 (drop i h))))"
    by (auto simp: bearer_groups_def Let_def less_Suc_eq_le run_length_iff simp del: upt_Suc drop_drop split: if_splits)
  also have "\<dots> \<longleftrightarrow> (\<exists>ws1 word rest. h = ws1 @ word @ rest \<and> list_all js_space ws1 \<and> bearer_word word \<and>
      g \<in> set (spaced_groups rest))"
  proof
    assume "\<exists>ws1 word rest. h = ws1 @ word @ rest \<and> list_all js_space ws1 \<and> bearer_word word \<and>
      g \<in> set (spaced_groups rest)"
    then obtain ws1 word rest where "h = ws1 @ word @ rest" "list_all js_space ws1" "bearer_word word"
      "g \<in> set (spaced_groups rest)" by blast
    then show "\<exists>i. i \<le> length h \<and> list_all js_space (take i h) \<and> bearer_word (take 6 (drop i h)) \<and>
         g \<in> set (spaced_groups (drop 6 (drop i h)))"
      using bearer_word_length [of word] by (intro exI [of _ "length ws1"]) simp
  next
    assume "\<exists>i. i \<le> length h \<and> list_all js_space (take i h) \<and> bearer_word (take 6 (drop i h)) \<and>
         g \<in> set (spaced_groups (drop 6 (drop i h)))"
    then obtain i where i: "list_all js_space (take i h)" "bearer_word (take 6 (drop i h))"
      "g \<in> set (spaced_groups (drop 6 (drop i h)))" by blast
    moreover have "h = take i h @ take 6 (drop i h) @ drop 6 (drop i h)" by (simp only: append_take_drop_id)
    ultimately show "\<exists>ws1 word rest. h = ws1 @ word @ rest \<and> list_all js_space ws1 \<and> bearer_word word \<and>
      g \<in> set (spaced_groups rest)" by blast
  qed
  finally show ?thesis .
qed

lemmas bearer_pattern = bearer_groups_iff spaced_groups_iff lazy_groups_iff

lemma trim_spaces: "list_all js_space a \<Longrightarrow> list_all js_space b \<Longrightarrow> trim (a @ s @ b) = trim s"
proof -
  assume a: "list_all js_space a" and b: "list_all js_space b"
  have "dropWhile js_space (a @ t) = dropWhile js_space t" for t
    using a by (simp add: list_all_iff dropWhile_append2)
  moreover have "trim (s @ b) = trim s"
  proof (cases "list_all js_space s")
    case True
    then have "trim (s @ b) = []" "trim s = []" using b by (simp_all add: trim_eq_Nil)
    then show ?thesis by simp
  next
    case False
    then obtain x where "x \<in> set s" "\<not> js_space x" by (auto simp: list_all_iff)
    then have "dropWhile js_space (s @ b) = dropWhile js_space s @ b" by (rule dropWhile_append1)
    then show ?thesis using b dropWhile_append2 [of "rev b" js_space "rev (dropWhile js_space s)"]
      by (simp add: trim_def list_all_iff)
  qed
  ultimately show ?thesis by (simp add: trim_def)
qed

lemma trim_decompose: "\<exists>a b. s = a @ trim s @ b \<and> list_all js_space a \<and> list_all js_space b"
proof -
  let ?d = "dropWhile js_space s"
  have "rev ?d = takeWhile js_space (rev ?d) @ dropWhile js_space (rev ?d)" by simp
  then have "?d = trim s @ rev (takeWhile js_space (rev ?d))" unfolding trim_def
    by (metis rev_append rev_rev_ident)
  then have "s = takeWhile js_space s @ trim s @ rev (takeWhile js_space (rev ?d))"
    by (metis takeWhile_dropWhile_id)
  moreover have "list_all js_space (takeWhile js_space s)" "list_all js_space (rev (takeWhile js_space (rev ?d)))"
    by (auto simp: list_all_iff dest: set_takeWhileD)
  ultimately show ?thesis by blast
qed

lemma bearer_not_space: "bearer_word w \<Longrightarrow> \<exists>c t. w = c # t \<and> \<not> js_space c"
proof (cases w)
  case (Cons c t)
  assume "bearer_word w"
  with Cons have "fold_ascii c = 98" by (simp add: bearer_word_def str_def cu_def)
  then have "c = 98 \<or> c = 66" by (auto simp: fold_ascii_def split: if_splits)
  then show ?thesis using Cons by (auto simp: js_space_def word_le_nat_alt)
qed (simp add: bearer_word_def eq_commute [of "[]"])

text \<open>All groups of a header have the same trimmed text.\<close>

lemma bearer_group_trim:
  "g \<in> set (bearer_groups h) \<Longrightarrow> trim g = trim (drop 6 (dropWhile js_space h))"
proof -
  assume "g \<in> set (bearer_groups h)"
  then obtain ws1 word ws2 ws3 where d: "h = ws1 @ word @ ws2 @ g @ ws3" "list_all js_space ws1" "bearer_word word"
    "list_all js_space ws2" "list_all js_space ws3" unfolding bearer_pattern by blast
  obtain c t where "word = c # t" "\<not> js_space c" using bearer_not_space [OF d(3)] by blast
  then have "dropWhile js_space h = word @ ws2 @ g @ ws3" using d(1,2)
    by (simp add: list_all_iff dropWhile_append2)
  then show ?thesis using trim_spaces [OF d(4,5)] bearer_word_length [OF d(3)] by simp
qed

lemma extractBearerToken_iff:
  "extractBearerToken header = Some token \<longleftrightarrow>
     (\<exists>ws1 word ws2 ws3. header = Some (ws1 @ word @ ws2 @ token @ ws3) \<and> list_all js_space ws1 \<and>
        map fold_ascii word = str ''bearer'' \<and> list_all js_space ws2 \<and> ws2 \<noteq> [] \<and> list_all js_space ws3 \<and>
        token \<noteq> [] \<and> trim token = token \<and> list_all (\<lambda>c. \<not> line_terminator c) token)"
    (is "_ \<longleftrightarrow> ?rhs")
proof
  assume "extractBearerToken header = Some token"
  then obtain h g gs where h: "header = Some h" "bearer_groups h = g # gs" and t: "token = trim g" "token \<noteq> []"
    by (auto simp: extractBearerToken_def Let_def split: option.splits list.splits if_splits)
  then have "g \<in> set (bearer_groups h)" by simp
  then obtain ws1 word ws2 ws3 where d: "h = ws1 @ word @ ws2 @ g @ ws3" "list_all js_space ws1" "bearer_word word"
    "ws2 \<noteq> []" "list_all js_space ws2" "list_all js_space ws3" "list_all (\<lambda>c. \<not> line_terminator c) g"
    unfolding bearer_pattern by blast
  obtain a b where g: "g = a @ token @ b" "list_all js_space a" "list_all js_space b"
    using trim_decompose [of g] t(1) by blast
  have "header = Some (ws1 @ word @ (ws2 @ a) @ token @ (b @ ws3))" using h(1) d(1) g(1) by simp
  moreover have "list_all js_space (ws2 @ a)" "list_all js_space (b @ ws3)" "ws2 @ a \<noteq> []"
    using d(4-6) g(2,3) by simp_all
  moreover have "list_all (\<lambda>c. \<not> line_terminator c) token" using d(7) by (subst (asm) g(1)) simp
  moreover have "trim token = token" unfolding t(1) by (rule trim_idem)
  moreover have "map fold_ascii word = str ''bearer''" using d(3) by (simp only: bearer_word_def)
  ultimately show ?rhs using t(2) d(2) by blast
next
  assume ?rhs
  then obtain ws1 word ws2 ws3 where h: "header = Some (ws1 @ word @ ws2 @ token @ ws3)" and d: "list_all js_space ws1"
    "bearer_word word" "list_all js_space ws2" "ws2 \<noteq> []" "list_all js_space ws3" "token \<noteq> []" "trim token = token"
    "list_all (\<lambda>c. \<not> line_terminator c) token" unfolding bearer_word_def by blast
  let ?h = "ws1 @ word @ ws2 @ token @ ws3"
  have m: "token \<in> set (bearer_groups ?h)" unfolding bearer_pattern using d by blast
  then obtain g gs where g: "bearer_groups ?h = g # gs" by (cases "bearer_groups ?h") auto
  have "trim g = trim token" using bearer_group_trim [OF m] bearer_group_trim [of g ?h] g by simp
  with g d(6,7) show "extractBearerToken header = Some token" by (simp add: extractBearerToken_def h)
qed

section \<open>Verification\<close>

lemma verify_token_Inr:
  "fst (verify_token jwt loaded token st) = Inr payload \<longleftrightarrow>
     (\<exists>config. (st = Some config \<or> st = None \<and> loaded = Inr config) \<and> isJwtPayload payload \<and>
        jwt token (jwt_publicKey config) (jwt_options config) = Inr payload)"
  by (auto simp: verify_token_def getConfig_def split: option.splits sum.splits)

lemma payload_exp: "isJwtPayload v \<Longrightarrow> \<exists>x. get_prop v (str ''exp'') = Num x"
  by (cases "get_prop v (str ''exp'')") (auto simp: isJwtPayload_def split: if_splits)

lemma map_sum_Inr_iff: "map_sum id f x = Inr y \<longleftrightarrow> (\<exists>z. x = Inr z \<and> y = f z)"
  by (cases x) auto

lemma gateway_authorized:
  assumes "gateway_decision url jwt loaded args vst = (Authorized u c e, vst')"
  shows "\<exists>token config payload x. (vst = Some config \<or> vst = None \<and> loaded = Inr config) \<and>
    jwt token (jwt_publicKey config) (jwt_options config) = Inr payload \<and> isJwtPayload payload \<and>
    get_prop payload (str ''sub'') = Str u \<and> get_prop payload (str ''exp'') = Num x \<and> e = seconds_to_ms x \<and>
    gi_token (extractGatewayIdentity url args) = Some token \<and>
    gi_userId (extractGatewayIdentity url args) = Some u \<and> gi_clientId (extractGatewayIdentity url args) = Some c"
proof -
  obtain token claims where r: "gi_token (extractGatewayIdentity url args) = Some token"
    "map_sum id claims_of (fst (verify_token jwt loaded token vst)) = Inr claims" "claim_sub claims = Str u"
    "gi_userId (extractGatewayIdentity url args) = Some u" "gi_clientId (extractGatewayIdentity url args) = Some c"
    "e = seconds_to_ms (claim_exp claims)"
    using assms by (auto simp: gateway_decision_def Let_def resolve_Authorized)
  then obtain payload where p: "fst (verify_token jwt loaded token vst) = Inr payload" "claims = claims_of payload"
    by (auto simp: map_sum_Inr_iff)
  then obtain config where "vst = Some config \<or> vst = None \<and> loaded = Inr config" "isJwtPayload payload"
    "jwt token (jwt_publicKey config) (jwt_options config) = Inr payload"
    by (auto simp: verify_token_Inr)
  moreover obtain x where "get_prop payload (str ''exp'') = Num x" using payload_exp [OF calculation(2)] by blast
  ultimately show ?thesis using r p(2) by (auto simp: claims_of_def)
qed

definition sample_config :: jwt_config where
  "sample_config = \<lparr>jwt_publicKey = str ''k'', jwt_issuer = str ''i'', jwt_audience = str ''a''\<rparr>"

section \<open>Properties\<close>

text \<open>C20: A Bearer token is extracted from a header exactly when the header is white space, the word
  Bearer in any case, white space, a token that neither starts nor ends with white space and
  contains no line terminator, and white space; every other header gives none.\<close>

theorem bearer_token_iff:
  "extractBearerToken header = Some token \<longleftrightarrow>
     (\<exists>ws1 word ws2 ws3. header = Some (ws1 @ word @ ws2 @ token @ ws3) \<and> list_all js_space ws1 \<and>
        map fold_ascii word = str ''bearer'' \<and> list_all js_space ws2 \<and> ws2 \<noteq> [] \<and> list_all js_space ws3 \<and>
        token \<noteq> [] \<and> trim token = token \<and> list_all (\<lambda>c. \<not> line_terminator c) token)"
  by (rule extractBearerToken_iff)

text \<open>The verifier accepts a token only when \<open>jsonwebtoken\<close> verified it with RS256 against the
  configured key, issuer and audience and its payload has the required claims; settings are loaded
  at most once, and settings that fail to load are not kept.\<close>

theorem verified_tokens_are_checked:
  "(fst (verify_token jwt loaded token st) = Inr payload \<longleftrightarrow>
      (\<exists>config. (st = Some config \<or> st = None \<and> loaded = Inr config) \<and> isJwtPayload payload \<and>
         jwt token (jwt_publicKey config)
           \<lparr>vo_algorithms = [str ''RS256''], vo_issuer = jwt_issuer config, vo_audience = jwt_audience config\<rparr>
           = Inr payload)) \<and>
   snd (verify_token jwt loaded token st) =
     (case st of Some c \<Rightarrow> Some c | None \<Rightarrow> (case loaded of Inl _ \<Rightarrow> None | Inr c \<Rightarrow> Some c))"
  using verify_token_Inr [of jwt loaded token st payload]
  by (auto simp: jwt_options_def verify_token_def getConfig_def split: option.splits sum.splits)

text \<open>The HTTP guard fails closed: a request to a route that is not marked public passes only with
  a header whose Bearer token the verifier accepts, and its payload is the one stored on the
  request; everything else is refused.\<close>

theorem guard_fails_closed:
  assumes "gc_type context = str ''http''" and "gc_isPublic context \<noteq> Some True"
    and "canActivate jwt loaded context st = (result, st')"
  shows "(\<forall>user. result = Allowed user \<longleftrightarrow>
      (\<exists>raw token payload. gc_request context = Headers raw \<and> extractBearerToken (readAuthHeader raw) = Some token \<and>
         fst (verify_token jwt loaded token st) = Inr payload \<and> user = Some payload)) \<and>
    (\<forall>reason. result = Unauthorized reason \<longrightarrow> reason \<in> {str ''Missing request'', str ''Invalid or expired token''})"
  using assms
  by (auto simp: canActivate_def isHttpRequest_def verifyHeader_def
      split: guard_request.splits option.splits prod.splits sum.splits)

theorem guard_fails_closed_witness:
  "\<exists>reason. fst (canActivate (\<lambda>_ _ _. Inl Null) (Inl Null)
     \<lparr>gc_isPublic = None, gc_type = str ''http'', gc_request = Headers NoHeader\<rparr> None) = Unauthorized reason"
proof -
  let ?c = "\<lparr>gc_isPublic = None, gc_type = str ''http'', gc_request = Headers NoHeader\<rparr>"
  obtain r st' where x: "canActivate (\<lambda>_ _ _. Inl Null) (Inl Null) ?c None = (r, st')" by fastforce
  have "extractBearerToken (readAuthHeader NoHeader) = None"
    by (simp add: extractBearerToken_def readAuthHeader_def)
  with guard_fails_closed [OF _ _ x] have "r \<noteq> Allowed user" for user by simp
  with x show ?thesis by (cases r) auto
qed

text \<open>C11: A socket gets a session through the gateway only when the verifier accepted a token for that
  very user: whenever the gateway changes the sessions, the upgrade's token verified against the
  configured key, issuer and audience with the user as its subject, and the session's expiry is the
  token's; a refused upgrade is closed with code 1008 and leaves the registry untouched.\<close>

theorem gateway_admits_verified_users:
  assumes "gateway_handleConnection url jwt loaded uuid now client args (vst, st) = ((vst', st'), effs)"
  shows "(\<exists>reason. effs = [CloseSocket client 1008 reason]) \<and> st' = st \<or>
    (\<exists>token config payload u c x. (vst = Some config \<or> vst = None \<and> loaded = Inr config) \<and>
       gi_token (extractGatewayIdentity url args) = Some token \<and>
       jwt token (jwt_publicKey config) (jwt_options config) = Inr payload \<and>
       get_prop payload (str ''sub'') = Str u \<and> get_prop payload (str ''exp'') = Num x \<and>
       (st', effs) = snd (handleConnection uuid now \<lparr>p_socket = client, p_userId = Some u, p_clientId = Some c,
          p_expiresAt = seconds_to_ms x\<rparr> st))"
proof (cases "fst (gateway_decision url jwt loaded args vst)")
  case (Rejected reason)
  then show ?thesis using assms
    by (auto simp: gateway_handleConnection_def WS_CLOSE_POLICY_VIOLATION_def split: prod.splits)
next
  case (Authorized u c e)
  then have "gateway_decision url jwt loaded args vst = (Authorized u c e, snd (gateway_decision url jwt loaded args vst))"
    by (cases "gateway_decision url jwt loaded args vst") simp
  from gateway_authorized [OF this] obtain token config payload x where a:
    "vst = Some config \<or> vst = None \<and> loaded = Inr config"
    "jwt token (jwt_publicKey config) (jwt_options config) = Inr payload"
    "get_prop payload (str ''sub'') = Str u" "get_prop payload (str ''exp'') = Num x" "e = seconds_to_ms x"
    "gi_token (extractGatewayIdentity url args) = Some token" by blast
  moreover have "(st', effs) = snd (handleConnection uuid now \<lparr>p_socket = client, p_userId = Some u,
      p_clientId = Some c, p_expiresAt = e\<rparr> st)"
    using assms Authorized by (auto simp: gateway_handleConnection_def split_def prod_eq_iff)
  ultimately show ?thesis by blast
qed

theorem gateway_admits_verified_users_witness:
  "snd (fst (gateway_handleConnection (\<lambda>_. None) (\<lambda>_ _ _. Inl Null) (Inl Null) [] 0 3 [] (None, sample_state)))
     = sample_state"
proof -
  let ?r = "gateway_handleConnection (\<lambda>_. None) (\<lambda>_ _ _. Inl Null) (Inl Null) [] 0 3 [] (None, sample_state)"
  obtain vst' st' effs where x: "?r = ((vst', st'), effs)" by (metis prod.collapse)
  from gateway_admits_verified_users [OF x] have "st' = sample_state" by auto
  with x show ?thesis by simp
qed

text \<open>The JWT settings are complete or refused: a key that is a PEM public key read from the
  configured path, and an issuer and audience that are not blank and carry no outer white space.\<close>

theorem jwt_settings_are_complete:
  assumes "getJwtConfig fs env = Inr config"
  shows "(\<exists>path. env (str ''JWT_PUBLIC_KEY_PATH'') = Some path \<and> path \<noteq> [] \<and> fs_read fs path = Inr (jwt_publicKey config)) \<and>
    has_substring (jwt_publicKey config) (str ''BEGIN PUBLIC KEY'') \<and>
    jwt_issuer config \<noteq> [] \<and> trim (jwt_issuer config) = jwt_issuer config \<and>
    jwt_audience config \<noteq> [] \<and> trim (jwt_audience config) = jwt_audience config"
  using assms
  by (auto simp: getJwtConfig_def readPublicKey_def readRequired_def split: option.splits sum.splits if_splits)

definition sample_fs :: file_system where
  "sample_fs = \<lparr>fs_read = (\<lambda>_. Inr (str ''-----BEGIN PUBLIC KEY-----'')), fs_resolve = id, fs_cwd = []\<rparr>"

theorem jwt_settings_are_complete_witness:
  "\<exists>config. getJwtConfig sample_fs (\<lambda>_. Some (str ''x'')) = Inr config \<and> jwt_issuer config \<noteq> []"
proof -
  have "has_substring (str ''-----BEGIN PUBLIC KEY-----'') (str ''BEGIN PUBLIC KEY'')" by code_simp
  moreover have "trim (str ''x'') \<noteq> []" by (simp add: trim_eq_Nil str_def cu_def js_space_def)
  ultimately obtain config where "getJwtConfig sample_fs (\<lambda>_. Some (str ''x'')) = Inr config"
    by (simp add: getJwtConfig_def readPublicKey_def readRequired_def sample_fs_def)
  with jwt_settings_are_complete [OF this] show ?thesis by blast
qed

text \<open>The server is created with a payload limit that is a positive integer and overrides whatever
  options it is given, or not at all; a socket error is logged by exactly one of the adapter (at
  error level) and the registry's oversize warning.\<close>

theorem payload_limit_is_forced:
  "(case adapter_create env options of
      Inl e \<Rightarrow> parseMaxPayloadBytes (env (str ''WS_MAX_PAYLOAD_BYTES'')) = Inl e
    | Inr options' \<Rightarrow>
        (\<exists>x. map_get options' (str ''maxPayload'') = Some (Num x) \<and> is_integer x \<and> \<not> num_less x (Fin 1)) \<and>
        (\<forall>k. k \<noteq> str ''maxPayload'' \<longrightarrow> map_get options' k = map_get options k)) \<and>
   ((adapter_on_error err = [err] \<and> (\<exists>m. handleError u c err = [Log Error m (Some c)])) \<noteq>
    (adapter_on_error err = [] \<and> (\<exists>m. handleError u c err = [Log Warn m None])))"
proof -
  have "parseMaxPayloadBytes raw = Inr x \<Longrightarrow> is_integer x \<and> \<not> num_less x (Fin 1)" for raw x
    unfolding parseMaxPayloadBytes_def
    by (drule parseBoundedInt_Inr) (auto simp: in_bounds_def DEFAULT_WS_MAX_PAYLOAD_BYTES_def is_integer_def)
  then show ?thesis
    by (auto simp: adapter_create_def getWsMaxPayload_def js_simps adapter_on_error_def handleError_def split: sum.split)
qed

theorem payload_limit_is_forced_witness:
  "\<exists>options'. adapter_create (\<lambda>_. None) [] = Inr options' \<and> map_get options' (str ''path'') = None"
proof -
  obtain options' where x: "adapter_create (\<lambda>_. None) [] = Inr options'"
    by (simp add: adapter_create_def getWsMaxPayload_def parseMaxPayloadBytes_def parseBoundedInt_def)
  with payload_limit_is_forced [of "\<lambda>_. None" "[]"] show ?thesis by (simp add: js_simps)
qed

end
