(* ===== verification/Ws_Expiry.thy ===== *)
theory Ws_Expiry
  imports Ws_Properties
begin

text \<open>
  Real time for the registry of \<open>src/ws/ws.service.ts\<close>: runs that carry the clock (\<open>Date.now()\<close>,
  which stays below \<open>2\<^sup>5\<^sup>3\<close>) and, for each timeout, the time it is due. The only assumption on Node
  is how late a due timeout may fire; the conclusion is how long a session may outlive its token.
\<close>

section \<open>Timed runs\<close>

definition representable :: "int \<Rightarrow> bool" where
  "representable c \<longleftrightarrow> 0 \<le> c \<and> c \<le> 2 ^ 53"

text \<open>The clock readings of an event, in order, and the expiry of a new session.\<close>

fun timely :: "int \<Rightarrow> ws_event \<Rightarrow> bool" where
  "timely c (Connection _ now params) \<longleftrightarrow> c \<le> now \<and> representable now \<and>
     (\<exists>e. representable e \<and> p_expiresAt params = Fin (of_int e))"
| "timely c (TimerFired _ now now') \<longleftrightarrow> c \<le> now \<and> now \<le> now' \<and> representable now'"
| "timely c Shutdown \<longleftrightarrow> False"
| "timely c _ \<longleftrightarrow> True"

fun clock_after :: "int \<Rightarrow> ws_event \<Rightarrow> int" where
  "clock_after c (Connection _ now _) = now"
| "clock_after c (TimerFired _ _ now') = now'"
| "clock_after c _ = c"

text \<open>A timeout armed by a step is due its delay after the step's last clock reading.\<close>

definition due_after :: "int \<Rightarrow> ws_state \<Rightarrow> ws_state \<Rightarrow> (timer \<Rightarrow> int) \<Rightarrow> timer \<Rightarrow> int" where
  "due_after now st st' due t =
     (if t < next_timer st then due t
      else case map_get (timers st') t of Some (_, d) \<Rightarrow> now + d | None \<Rightarrow> due t)"

inductive timed_run :: "tracker list \<Rightarrow> int \<Rightarrow> (timer \<Rightarrow> int) \<Rightarrow> ws_state \<Rightarrow> bool" for ts where
  timed_start: "representable c \<Longrightarrow> timed_run ts c due (new_registry ts)"
| timed_tick: "timed_run ts c due st \<Longrightarrow> c \<le> c' \<Longrightarrow> representable c' \<Longrightarrow> timed_run ts c' due st"
| timed_step: "timed_run ts c due st \<Longrightarrow> ws_step st ev effs st' \<Longrightarrow> timely c ev \<Longrightarrow>
    timed_run ts (clock_after c ev) (due_after (clock_after c ev) st st' due) st'"

section \<open>What a step does to the timeouts\<close>

text \<open>Sessions keep their expiry, and a timeout is an old one or the next one, due by the expiry.\<close>

definition arms_by :: "int \<Rightarrow> ws_state \<Rightarrow> ws_state \<Rightarrow> bool" where
  "arms_by now st st' \<longleftrightarrow>
     (\<forall>r < length (heap st). s_expiresAt (heap st' ! r) = s_expiresAt (heap st ! r)) \<and>
     (\<forall>t r d. map_get (timers st') t = Some (r, d) \<longrightarrow> map_get (timers st) t = Some (r, d) \<or>
        t = next_timer st \<and> (\<forall>e. s_expiresAt (heap st' ! r) = Fin (of_int e) \<longrightarrow> now + d \<le> e))"

definition whole_expiries :: "ws_state \<Rightarrow> bool" where
  "whole_expiries st \<longleftrightarrow>
     (\<forall>r < length (heap st). \<exists>e. representable e \<and> s_expiresAt (heap st ! r) = Fin (of_int e))"

lemma arms_by_same: "heap st' = heap st \<Longrightarrow> timers st' = timers st \<Longrightarrow> arms_by now st st'"
  by (simp add: arms_by_def)

lemma released_arms: "r < length (heap st) \<Longrightarrow> arms_by now st (released r st)"
  by (auto simp: arms_by_def clearExpiryTimer_heap clearExpiryTimer_timers split: if_splits)

lemma scheduleExpiry_arms:
  assumes r: "r < length (heap st)" and w: "whole_expiries st" and now: "representable now"
  shows "arms_by now st (fst (scheduleExpiry now r st)) \<and>
    length (heap (fst (scheduleExpiry now r st))) = length (heap st)"
proof -
  obtain e where e: "representable e" "s_expiresAt (heap st ! r) = Fin (of_int e)"
    using w r by (auto simp: whole_expiries_def)
  have d: "\<bar>e - now\<bar> \<le> 2 ^ 53" using e(1) now by (auto simp: representable_def)
  show ?thesis
  proof (cases "e \<le> now")
    case True
    then show ?thesis using scheduleExpiry_int [OF e(2) d] released_arms [OF r] r
      by (simp add: handleExpiry_eq arms_by_same)
  next
    case False
    then have "scheduleExpiry now r st = (arm r (min (e - now) 2147483647) st, [])"
      using scheduleExpiry_int [OF e(2) d] by simp
    then show ?thesis using r e(2)
      by (auto simp: arms_by_def arm_heap js_simps split: if_splits)
  qed
qed

lemma arms_by_trans:
  assumes "heap st1 = heap st @ ss" "timers st1 = timers st" "next_timer st1 = next_timer st" "arms_by now st1 st2"
  shows "arms_by now st st2"
  using assms by (auto simp: arms_by_def nth_append)

lemma whole_expiries_arms:
  "whole_expiries st \<Longrightarrow> arms_by now st st' \<Longrightarrow> length (heap st') = length (heap st) \<Longrightarrow> whole_expiries st'"
  by (simp add: whole_expiries_def arms_by_def)

lemma handleConnection_arms:
  assumes w: "whole_expiries st" and now: "representable now"
    and p: "representable e" "p_expiresAt params = Fin (of_int e)"
  shows "arms_by now st (fst (snd (handleConnection uuid now params st))) \<and>
    whole_expiries (fst (snd (handleConnection uuid now params st)))"
proof (cases "\<exists>u c. p_userId params = Some u \<and> p_clientId params = Some c \<and> map_get (sessions st) c = None")
  case True
  then obtain u c where uc: "p_userId params = Some u" "p_clientId params = Some c" "map_get (sessions st) c = None"
    by blast
  let ?st = "enrolled u c (new_session uuid u c params) st"
  have w': "whole_expiries ?st" using w p
    by (auto simp: whole_expiries_def nth_append new_session_def less_Suc_eq)
  have "fst (snd (handleConnection uuid now params st)) = fst (scheduleExpiry now (length (heap st)) ?st)"
    by (simp add: handleConnection_eq [OF uc] Let_def split: prod.split)
  moreover have "length (heap st) < length (heap ?st)" by simp
  note scheduleExpiry_arms [OF this w' now]
  moreover from this have "arms_by now st (fst (scheduleExpiry now (length (heap st)) ?st))"
    by (intro arms_by_trans [of ?st st]) simp_all
  ultimately show ?thesis
    using whole_expiries_arms [OF w', of now "fst (scheduleExpiry now (length (heap st)) ?st)"] by simp
next
  case False
  then have "fst (snd (handleConnection uuid now params st)) = st"
    by (intro handleConnection_refused) (cases "p_userId params"; cases "p_clientId params"; auto)
  with w show ?thesis by (simp add: arms_by_same)
qed

lemma timer_fired_arms:
  assumes inv: "ws_inv st" and w: "whole_expiries st" and t: "map_get (timers st) t = Some (r, d)"
    and now: "representable now" "representable now'"
  shows "arms_by now' st (fst (handleExpiryTimer now now' r (st\<lparr>timers := map_delete t (timers st)\<rparr>))) \<and>
    length (heap (fst (handleExpiryTimer now now' r (st\<lparr>timers := map_delete t (timers st)\<rparr>)))) = length (heap st)"
proof -
  let ?st = "st\<lparr>timers := map_delete t (timers st)\<rparr>"
  have r: "r < length (heap ?st)" using fired_inv(3) [OF inv t] by (simp add: registered_def)
  have w': "whole_expiries ?st" using w by (simp add: whole_expiries_def)
  have sub: "map_get (timers ?st) t' = Some x \<Longrightarrow> map_get (timers st) t' = Some x" for t' x
    by (simp add: js_simps split: if_splits)
  have weaken: "arms_by now' st st'" if "arms_by now' ?st st'" for st'
    unfolding arms_by_def
  proof (intro conjI allI impI)
    fix t' r' d' assume "map_get (timers st') t' = Some (r', d')"
    with that consider "map_get (timers ?st) t' = Some (r', d')"
      | "t' = next_timer st \<and> (\<forall>e. s_expiresAt (heap st' ! r') = Fin (of_int e) \<longrightarrow> now' + d' \<le> e)"
      unfolding arms_by_def by fastforce
    then show "map_get (timers st) t' = Some (r', d') \<or>
        t' = next_timer st \<and> (\<forall>e. s_expiresAt (heap st' ! r') = Fin (of_int e) \<longrightarrow> now' + d' \<le> e)"
      by cases (use sub in blast)+
  qed (use that in \<open>simp add: arms_by_def\<close>)
  have "fst (handleExpiryTimer now now' r ?st) = fst (scheduleExpiry now' r ?st) \<or>
      fst (handleExpiryTimer now now' r ?st) = fst (handleExpiry r ?st)"
    by (simp add: handleExpiryTimer_def)
  moreover have "arms_by now' ?st (fst (handleExpiry r ?st)) \<and> length (heap (fst (handleExpiry r ?st))) = length (heap ?st)"
    using released_arms [OF r] r by (simp add: handleExpiry_eq [OF r] arms_by_same)
  ultimately show ?thesis using scheduleExpiry_arms [OF r w' now(2)] weaken by auto
qed

lemma timed_step_arms:
  assumes "ws_step st ev effs st'" "ws_inv st" "whole_expiries st" "timely c ev" "representable c"
  shows "arms_by (clock_after c ev) st st' \<and> whole_expiries st' \<and> representable (clock_after c ev)"
  using assms(1)
proof (cases rule: ws_step.cases)
  case (ws_step env)
  have same: "arms_by n st st' \<and> whole_expiries st'" if "heap st' = heap st" "timers st' = timers st" for n
    using that assms(3) by (simp add: arms_by_same whole_expiries_def)
  show ?thesis
  proof (cases ev)
    case (Connection uuid now params)
    then obtain e where "representable now" "representable e" "p_expiresAt params = Fin (of_int e)"
      using assms(4) by auto
    with handleConnection_arms [OF assms(3), of now e params uuid] ws_step Connection show ?thesis by auto
  next
    case (Message r data)
    then show ?thesis using ws_step same assms(5)
        handleMessage_state [of env "s_userId (heap st ! r)" "s_clientId (heap st ! r)" data st] by auto
  next
    case (Closed r)
    then have r: "r < length (heap st)" "st' = (if registered st r then released r st else st)"
      using ws_step on_close_state [of r st] by simp_all
    with released_arms [OF r(1), of c] assms(3) have "arms_by c st st'" by (simp add: arms_by_same)
    then show ?thesis using whole_expiries_arms [OF assms(3)] r Closed assms(5) by simp
  next
    case (TimerFired t now now')
    then obtain r d where t: "map_get (timers st) t = Some (r, d)" using ws_step by auto
    have "representable now" "representable now'" using assms(4,5) TimerFired by (auto simp: representable_def)
    with timer_fired_arms [OF assms(2,3) t, of now now'] ws_step TimerFired t
      whole_expiries_arms [OF assms(3), of now' st'] show ?thesis by auto
  next
    case (BroadcastSettled k answer)
    then show ?thesis using ws_step same assms(5) settle_broadcast_state [of env k answer st] by auto
  qed (use ws_step same assms(4,5) in auto)
qed

definition timed_inv :: "int \<Rightarrow> (timer \<Rightarrow> int) \<Rightarrow> ws_state \<Rightarrow> bool" where
  "timed_inv c due st \<longleftrightarrow> ws_inv st \<and> armed st \<and> whole_expiries st \<and> representable c \<and>
     (\<forall>t r d e. map_get (timers st) t = Some (r, d) \<longrightarrow> s_expiresAt (heap st ! r) = Fin (of_int e) \<longrightarrow> due t \<le> e)"

lemma timed_run_inv: "timed_run ts c due st \<Longrightarrow> timed_inv c due st"
proof (induction rule: timed_run.induct)
  case (timed_start c due)
  then show ?case using new_registry_inv [of ts]
    by (simp add: timed_inv_def whole_expiries_def) (simp add: new_registry_def js_simps)
next
  case (timed_step c due st ev effs st')
  let ?c = "clock_after c ev" and ?due = "due_after (clock_after c ev) st st' due"
  have I: "ws_inv st" "armed st" "whole_expiries st" "representable c"
    and due: "\<And>t r d e. map_get (timers st) t = Some (r, d) \<Longrightarrow> s_expiresAt (heap st ! r) = Fin (of_int e) \<Longrightarrow> due t \<le> e"
    using timed_step.IH unfolding timed_inv_def by blast+
  have "ev \<noteq> Shutdown" using timed_step(3) by auto
  with ws_step_inv [OF timed_step(2) I(1)] I(2) have inv: "ws_inv st'" "armed st'" by simp_all
  note A = timed_step_arms [OF timed_step(2) I(1,3) timed_step(3) I(4)]
  have "?due t \<le> e" if t: "map_get (timers st') t = Some (r, d)" and e: "s_expiresAt (heap st' ! r) = Fin (of_int e)" for t r d e
  proof -
    have "map_get (timers st) t = Some (r, d) \<or> t = next_timer st \<and> ?c + d \<le> e"
      using A t e unfolding arms_by_def by blast
    then show ?thesis
    proof
      assume old: "map_get (timers st) t = Some (r, d)"
      then have "registered st r" "s_expiryTimer (heap st ! r) = Some t"
        using timers_okD(1) [of st t r d] I(1) by (simp_all add: ws_inv_def)
      then have "t < next_timer st" "r < length (heap st)"
        using timers_okD(2) [of st r t] I(1) by (simp_all add: ws_inv_def registered_def)
      then show ?thesis using due [OF old] e A by (simp add: due_after_def arms_by_def)
    next
      assume "t = next_timer st \<and> ?c + d \<le> e"
      then show ?thesis using t by (simp add: due_after_def)
    qed
  qed
  with inv A show ?case by (auto simp: timed_inv_def)
qed (simp add: timed_inv_def)

section \<open>Properties\<close>

text \<open>C6: If no pending timeout is overdue by more than \<open>late\<close> milliseconds, no session is registered
  more than \<open>late\<close> milliseconds after its token's expiry: once the clock has passed that time the
  session has been released, however long the token lived, whatever else happened meanwhile, and
  although Node's longest timeout is under 25 days.\<close>

theorem expired_sessions_are_released:
  assumes "timed_run ts now due st"
    and "\<forall>t \<in> set (map fst (timers st)). now \<le> due t + late"
    and "r < length (heap st)" and "s_expiresAt (heap st ! r) = Fin (of_int e)" and "e + late < now"
  shows "\<not> registered st r \<and> r \<notin> set (map snd (sessions st))"
proof -
  note I = timed_run_inv [OF assms(1), unfolded timed_inv_def]
  have "\<not> registered st r"
  proof
    assume "registered st r"
    then obtain t d where t: "map_get (timers st) t = Some (r, d)"
      using I by (auto simp: armed_def has_timer_def)
    then have "due t \<le> e" using I assms(4) by blast
    moreover have "t \<in> set (map fst (timers st))" using t by (force simp: map_get_def dest: map_of_SomeD)
    ultimately show False using assms(2,5) by auto
  qed
  then show ?thesis using sessions_registered I by blast
qed

theorem expired_sessions_are_released_witness:
  "\<exists>due st. timed_run SESSION_TRACKERS 5001 due st \<and> length (heap st) = 1 \<and> \<not> registered st 0"
proof -
  let ?due = "due_after 1000 (new_registry SESSION_TRACKERS) sample_state (\<lambda>_. 0)"
  have "timed_run SESSION_TRACKERS 1000 (\<lambda>_. 0) (new_registry SESSION_TRACKERS)"
    by (rule timed_start) (simp add: representable_def)
  moreover have "ws_step (new_registry SESSION_TRACKERS) sample_event
      (snd (ws_exec sample_env sample_event (new_registry SESSION_TRACKERS))) sample_state"
    by (rule ws_step.intros [of _ _ sample_env]) (simp_all add: sample_event_def flip: sample_exec)
  moreover have "timely 1000 sample_event"
    by (auto simp: sample_event_def sample_params_def representable_def intro!: exI [of _ 5000])
  ultimately have "timed_run SESSION_TRACKERS 1000 ?due sample_state"
    using timed_step [of SESSION_TRACKERS 1000 "\<lambda>_. 0"] by (fastforce simp: sample_event_def)
  then have run: "timed_run SESSION_TRACKERS 5000 ?due sample_state"
    by (rule timed_tick) (simp_all add: representable_def)
  let ?st = "fst (ws_exec sample_env (TimerFired 0 5000 5000) sample_state)"
  have e: "s_expiresAt (heap sample_state ! 0) = Fin (of_int 5000)"
    by (simp add: sample_state_def sample_session_def)
  have t: "map_get (timers sample_state) 0 = Some (0, 4000)" by (simp add: sample_state_def map_get_def)
  let ?f = "sample_state\<lparr>timers := map_delete 0 (timers sample_state)\<rparr>"
  have "registered ?f 0" by (simp add: registered_def sample_state_def sample_session_def map_get_def)
  moreover have "s_expiresAt (heap ?f ! 0) = Fin (of_int 5000)" using e by simp
  ultimately have st: "?st = released 0 ?f"
    using t handleExpiryTimer_int [of ?f 0 5000 5000 5000] by (simp add: handleExpiry_eq sample_state_def)
  have tm: "timers ?st = []"
    unfolding st released_fields
    by (simp add: clearExpiryTimer_def set_timer_def sample_state_def sample_session_def map_delete_def)
  have "ws_step sample_state (TimerFired 0 5000 5000) (snd (ws_exec sample_env (TimerFired 0 5000 5000) sample_state)) ?st"
    by (rule ws_step.intros [of _ _ sample_env]) (simp_all add: t)
  from timed_step [OF run this] obtain due where "timed_run SESSION_TRACKERS 5000 due ?st"
    by (auto simp: representable_def)
  then have run': "timed_run SESSION_TRACKERS 5001 due ?st"
    by (rule timed_tick) (simp_all add: representable_def)
  have h: "length (heap ?st) = 1" "s_expiresAt (heap ?st ! 0) = Fin (of_int 5000)"
    unfolding st released_fields
    by (simp_all add: clearExpiryTimer_def set_timer_def sample_state_def sample_session_def)
  have "\<forall>t \<in> set (map fst (timers ?st)). 5001 \<le> due t + 0" unfolding tm by simp
  moreover have "0 < length (heap ?st)" unfolding h(1) by simp
  moreover have "(5000 :: int) + 0 < 5001" by simp
  ultimately have "\<not> registered ?st 0" using expired_sessions_are_released [OF run' _ _ h(2), of 0] by blast
  with run' h(1) show ?thesis by blast
qed

end
