(* ===== verification/Server.thy ===== *)
theory Server
  imports Cluster Auth Ws_Expiry
begin

text \<open>
  One replica put together: the gateway and the HTTP guard share the verifier's cached settings, the
  gateway hands authorized sockets to the registry, and each fan-out of the registry reaches the
  topic service in the same turn, because \<open>handleConnect\<close> and \<open>handleDisconnect\<close> run up to their
  first suspension when they are called. A run interleaves upgrades, HTTP requests, everything that
  happens to the registry except a connection of its own, and Redis's replies, in any order.
\<close>

section \<open>The server\<close>

record server =
  sv_verifier :: verifier_state
  sv_registry :: ws_state
  sv_topics :: topics_state

datatype server_event =
    Upgrade "jwt_config throws" jstr int socket "jsval list"
  | HttpRequest "jwt_config throws" guard_context
  | Registry socket_env ws_event
  | TopicEvent topics_event
  | TopicMessage socket_env jstr jstr

text \<open>\<open>WsModule\<close> gives the topic service its deliverer before the first connection.\<close>

definition new_server :: server where
  "new_server = \<lparr>sv_verifier = None, sv_registry = new_registry SESSION_TRACKERS,
     sv_topics = setLocalDeliverer new_topics\<rparr>"

fun notify_all :: "(phase \<times> lifecycle_event) list \<Rightarrow> topics_state \<Rightarrow> topics_state \<times> topics_effect list" where
  "notify_all [] ts = (ts, [])"
| "notify_all ((ph, e) # ns) ts =
     (let (ts1, effs) = topics_exec (Notice ph e) ts; (ts2, effs') = notify_all ns ts1 in (ts2, effs @ effs'))"

definition notify_topics :: "ws_effect list \<Rightarrow> topics_state \<Rightarrow> topics_state \<times> topics_effect list" where
  "notify_topics effs ts = notify_all (notices UserTopicTracker effs) ts"

text \<open>The state after an event, the calls of the registry and those of the topic service.\<close>

fun server_exec ::
  "url_params \<Rightarrow> jwt_verify \<Rightarrow> server_event \<Rightarrow> server \<Rightarrow> server \<times> ws_effect list \<times> topics_effect list" where
  "server_exec url jwt (Upgrade loaded uuid now client args) sv =
     (let ((vst, st), effs) =
            gateway_handleConnection url jwt loaded uuid now client args (sv_verifier sv, sv_registry sv);
          (ts, cmds) = notify_topics effs (sv_topics sv)
      in (\<lparr>sv_verifier = vst, sv_registry = st, sv_topics = ts\<rparr>, effs, cmds))"
| "server_exec url jwt (HttpRequest loaded context) sv =
     (sv\<lparr>sv_verifier := snd (canActivate jwt loaded context (sv_verifier sv))\<rparr>, [], [])"
| "server_exec url jwt (Registry env ev) sv =
     (let (st, effs) = ws_exec env ev (sv_registry sv);
          (ts, cmds) = notify_topics effs (sv_topics sv)
      in (sv\<lparr>sv_registry := st, sv_topics := ts\<rparr>, effs, cmds))"
| "server_exec url jwt (TopicEvent ev) sv =
     (let (ts, cmds) = topics_exec ev (sv_topics sv) in (sv\<lparr>sv_topics := ts\<rparr>, [], cmds))"
| "server_exec url jwt (TopicMessage env message channel) sv =
     (sv, snd (handleTopicMessage (\<lambda>u p x. sendToLocalUser env u p x (sv_registry sv)) message channel
       (sv_topics sv)), [])"

text \<open>A connection comes from the gateway only, a notification from the registry only, and a local
  delivery from the topic service only.\<close>

fun server_enabled :: "server_event \<Rightarrow> server \<Rightarrow> bool" where
  "server_enabled (Registry env ev) sv \<longleftrightarrow>
     (case ev of Connection _ _ _ \<Rightarrow> False | TopicDelivery _ _ _ \<Rightarrow> False | _ \<Rightarrow> ws_enabled ev (sv_registry sv))"
| "server_enabled (TopicEvent ev) sv \<longleftrightarrow>
     (case ev of Notice _ _ \<Rightarrow> False | _ \<Rightarrow> topics_enabled ev (sv_topics sv))"
| "server_enabled _ sv \<longleftrightarrow> True"

inductive server_run :: "url_params \<Rightarrow> jwt_verify \<Rightarrow> server_event list \<Rightarrow> server \<Rightarrow> bool" for url jwt where
  server_start: "server_run url jwt [] new_server"
| server_next: "server_run url jwt evs sv \<Longrightarrow> server_enabled ev sv \<Longrightarrow>
    server_exec url jwt ev sv = (sv', effs, cmds) \<Longrightarrow> server_run url jwt (evs @ [ev]) sv'"

text \<open>The state alone.\<close>

abbreviation server_after :: "url_params \<Rightarrow> jwt_verify \<Rightarrow> server_event \<Rightarrow> server \<Rightarrow> server" where
  "server_after url jwt ev sv \<equiv> fst (server_exec url jwt ev sv)"

lemma server_run_after:
  "server_run url jwt evs sv \<Longrightarrow> server_enabled ev sv \<Longrightarrow> server_run url jwt (evs @ [ev]) (server_after url jwt ev sv)"
  by (cases "server_exec url jwt ev sv") (auto intro: server_next)

section \<open>The gateway and the registry\<close>

text \<open>The gateway either leaves the registry alone, or makes it take a connection.\<close>

lemma gateway_cases:
  assumes "gateway_handleConnection url jwt loaded uuid now client args (vst, st) = ((vst', st'), effs)"
  obtains (rejected) reason where "st' = st" "effs = [CloseSocket client WS_CLOSE_POLICY_VIOLATION reason]"
      "vst' = vst \<or> vst = None"
  | (connected) token config payload u c x where "vst' = Some config" "vst = Some config \<or> vst = None"
      "jwt token (jwt_publicKey config) (jwt_options config) = Inr payload"
      "get_prop payload (str ''sub'') = Str u" "get_prop payload (str ''exp'') = Num x"
      "(st', effs) = snd (handleConnection uuid now \<lparr>p_socket = client, p_userId = Some u, p_clientId = Some c,
         p_expiresAt = seconds_to_ms x\<rparr> st)"
      "non_blank u" "non_blank c"
proof -
  have keep: "snd (verify_token jwt loaded token vst) = (case vst of Some c \<Rightarrow> Some c
      | None \<Rightarrow> (case loaded of Inl _ \<Rightarrow> None | Inr c \<Rightarrow> Some c))" for token
    by (simp add: verify_token_def getConfig_def split: option.split sum.split)
  obtain d v where d: "gateway_decision url jwt loaded args vst = (d, v)" by fastforce
  show thesis
  proof (cases d)
    case (Rejected reason)
    then have "st' = st" "effs = [CloseSocket client WS_CLOSE_POLICY_VIOLATION reason]" "vst' = v"
      using assms d by (auto simp: gateway_handleConnection_def)
    moreover have "v = vst \<or> vst = None"
      using d keep by (auto simp: gateway_decision_def Let_def split: option.splits)
    ultimately show thesis using rejected by blast
  next
    case (Authorized u c e)
    from gateway_authorized [OF d [unfolded this]] obtain token config payload x where a:
      "vst = Some config \<or> vst = None \<and> loaded = Inr config"
      "jwt token (jwt_publicKey config) (jwt_options config) = Inr payload"
      "get_prop payload (str ''sub'') = Str u" "get_prop payload (str ''exp'') = Num x" "e = seconds_to_ms x"
      "gi_token (extractGatewayIdentity url args) = Some token"
      "gi_userId (extractGatewayIdentity url args) = Some u" "gi_clientId (extractGatewayIdentity url args) = Some c"
      by blast
    have "non_blank u" "non_blank c"
      using a(7,8) by (auto simp: extractGatewayIdentity_def no_identity_def parse_ids parseNonBlank_iff Let_def
          split: if_splits jsval.splits option.splits)
    moreover have "v = snd (verify_token jwt loaded token vst)" using d a(6) by (auto simp: gateway_decision_def Let_def)
    then have "vst' = Some config" using assms d Authorized keep a(1)
      by (auto simp: gateway_handleConnection_def split_def prod_eq_iff)
    moreover have "(st', effs) = snd (handleConnection uuid now \<lparr>p_socket = client, p_userId = Some u,
        p_clientId = Some c, p_expiresAt = e\<rparr> st)"
      using assms d Authorized by (auto simp: gateway_handleConnection_def split_def prod_eq_iff)
    ultimately show thesis using connected a by blast
  qed
qed

lemma gateway_step:
  assumes "gateway_handleConnection url jwt loaded uuid now client args (vst, st) = ((vst', st'), effs)"
  shows "st' = st \<and> (\<forall>t. notices t effs = []) \<or> (\<exists>ev. ws_step st ev effs st')"
  using assms
proof (cases rule: gateway_cases)
  case (connected token config payload u c x)
  let ?p = "\<lparr>p_socket = client, p_userId = Some u, p_clientId = Some c, p_expiresAt = seconds_to_ms x\<rparr>"
  have "ws_step st (Connection uuid now ?p) effs st'"
    by (rule ws_step.intros [of _ _ sample_env]) (use connected(6) in simp_all)
  then show ?thesis by blast
qed simp

section \<open>Sessions keep what they were given\<close>

text \<open>The sessions with their timers left out.\<close>

definition passports :: "ws_state \<Rightarrow> session list" where
  "passports st = map (\<lambda>s. s\<lparr>s_expiryTimer := None\<rparr>) (heap st)"

lemma timer_of_itself: "\<exists>t. s = s\<lparr>s_expiryTimer := t\<rparr>"
  by (rule exI [of _ "s_expiryTimer s"]) simp

lemma passports_timer_irrelevant:
  "length (heap st') = length (heap st) \<Longrightarrow>
   (\<And>r. r < length (heap st) \<Longrightarrow> \<exists>t. heap st' ! r = (heap st ! r)\<lparr>s_expiryTimer := t\<rparr>) \<Longrightarrow>
   passports st' = passports st"
  unfolding passports_def by (rule nth_equalityI) fastforce+

lemma passports_clear: "r < length (heap st) \<Longrightarrow> passports (clearExpiryTimer r st) = passports st"
  by (rule passports_timer_irrelevant) (auto simp: clearExpiryTimer_heap timer_of_itself)

lemma passports_released: "r < length (heap st) \<Longrightarrow> passports (released r st) = passports st"
  using passports_clear by (simp add: passports_def)

lemma passports_arm: "r < length (heap st) \<Longrightarrow> passports (arm r d st) = passports st"
  by (rule passports_timer_irrelevant) (auto simp: arm_heap timer_of_itself)

lemma passports_schedule: "r < length (heap st) \<Longrightarrow> passports (fst (scheduleExpiry now r st)) = passports st"
  by (simp add: scheduleExpiry_eq handleExpiry_eq passports_released passports_arm Let_def)

lemma passports_clear_all:
  "\<forall>r \<in> set rs. r < length (heap st) \<Longrightarrow> passports (fold clearExpiryTimer rs st) = passports st"
  by (induction rs arbitrary: st) (simp_all add: passports_clear)

lemma passports_connection:
  "passports (fst (snd (handleConnection uuid now params st))) = passports st \<or>
   (\<exists>u c. p_userId params = Some u \<and> p_clientId params = Some c \<and>
      passports (fst (snd (handleConnection uuid now params st))) = passports st @ [new_session uuid u c params])"
proof (cases "\<exists>u c. p_userId params = Some u \<and> p_clientId params = Some c \<and> map_get (sessions st) c = None")
  case True
  then obtain u c where uc: "p_userId params = Some u" "p_clientId params = Some c" "map_get (sessions st) c = None"
    by blast
  let ?st = "enrolled u c (new_session uuid u c params) st"
  have "fst (snd (handleConnection uuid now params st)) = fst (scheduleExpiry now (length (heap st)) ?st)"
    by (simp add: handleConnection_eq [OF uc] Let_def split: prod.split)
  moreover have "passports ?st = passports st @ [new_session uuid u c params]"
    by (simp add: passports_def new_session_def)
  ultimately show ?thesis using passports_schedule [of "length (heap st)" ?st now] uc by simp
next
  case False
  then have "fst (snd (handleConnection uuid now params st)) = st"
    by (intro handleConnection_refused) (cases "p_userId params"; cases "p_clientId params"; auto)
  then show ?thesis by simp
qed

lemma passports_exec:
  assumes "ws_enabled ev st" "ws_inv st" "\<And>uuid now params. ev \<noteq> Connection uuid now params"
  shows "passports (fst (ws_exec env ev st)) = passports st"
proof (cases ev)
  case (Message r data)
  then show ?thesis
    using handleMessage_state [of env "s_userId (heap st ! r)" "s_clientId (heap st ! r)" data st]
    by (auto simp: passports_def)
next
  case (Closed r)
  then show ?thesis using assms(1) on_close_state [of r st] passports_released [of r st] by simp
next
  case (TimerFired t now now')
  then obtain r d where t: "map_get (timers st) t = Some (r, d)" using assms(1) by auto
  let ?st = "st\<lparr>timers := map_delete t (timers st)\<rparr>"
  have r: "r < length (heap ?st)" using fired_inv(3) [OF assms(2) t] by (simp add: registered_def)
  have "passports ?st = passports st" by (simp add: passports_def)
  then show ?thesis using passports_schedule [OF r] passports_released [OF r] TimerFired t
    by (simp add: handleExpiryTimer_def handleExpiry_eq [OF r])
next
  case (BroadcastSettled k answer)
  then show ?thesis using settle_broadcast_state [of env k answer st] by (simp add: passports_def)
next
  case Shutdown
  have "\<forall>r \<in> set (map snd (sessions st)). r < length (heap st)"
    using sessions_registered [OF assms(2)] registered_less by blast
  with Shutdown show ?thesis by (simp add: onModuleDestroy_def passports_clear_all)
qed (use assms(3) in auto)

section \<open>Invariants of the server\<close>

text \<open>The cached settings are the first that loaded, and every session was admitted with them.\<close>

definition vouched :: "jwt_verify \<Rightarrow> jwt_config \<Rightarrow> session \<Rightarrow> bool" where
  "vouched jwt config s \<longleftrightarrow>
     (\<exists>token payload x. jwt token (jwt_publicKey config) (jwt_options config) = Inr payload \<and>
        get_prop payload (str ''sub'') = Str (s_userId s) \<and> get_prop payload (str ''exp'') = Num x \<and>
        s_expiresAt s = seconds_to_ms x) \<and>
     non_blank (s_userId s) \<and> non_blank (s_clientId s)"

definition all_vouched :: "jwt_verify \<Rightarrow> server \<Rightarrow> bool" where
  "all_vouched jwt sv \<longleftrightarrow>
     (\<forall>s \<in> set (passports (sv_registry sv)). \<exists>config. sv_verifier sv = Some config \<and> vouched jwt config s)"

lemma verify_keeps_config: "verify_token jwt loaded token (Some c) = (r, v) \<Longrightarrow> v = Some c"
  by (auto simp: verify_token_def getConfig_def split: sum.splits if_splits)

lemma guard_keeps_config: "snd (canActivate jwt loaded context (Some c)) = Some c"
  by (auto simp: canActivate_def verifyHeader_def dest: verify_keeps_config
      split: guard_request.split option.split prod.split sum.split)

lemma upgrade_vouched:
  assumes "gateway_handleConnection url jwt loaded uuid now client args (vst, st) = ((vst', st'), effs)"
    and "\<forall>s \<in> set (passports st). \<exists>config. vst = Some config \<and> vouched jwt config s"
  shows "\<forall>s \<in> set (passports st'). \<exists>config. vst' = Some config \<and> vouched jwt config s"
  using assms(1)
proof (cases rule: gateway_cases)
  case (rejected reason)
  then show ?thesis using assms(2) by auto
next
  case (connected token config payload u c x)
  let ?p = "\<lparr>p_socket = client, p_userId = Some u, p_clientId = Some c, p_expiresAt = seconds_to_ms x\<rparr>"
  have "vouched jwt config (new_session uuid u c ?p)"
    using connected(3-5,7,8) by (auto simp: vouched_def new_session_def)
  moreover have "st' = fst (snd (handleConnection uuid now ?p st))" using connected(6) by (metis fst_conv)
  ultimately have "\<forall>s \<in> set (passports st'). s \<in> set (passports st) \<or> vouched jwt config s"
    using passports_connection [of uuid now ?p st] by auto
  then show ?thesis using assms(2) connected(1,2) by fastforce
qed

text \<open>The claims of the topic service against the view of the registry, while no command fails.\<close>

definition claims_sound :: "server \<Rightarrow> bool" where
  "claims_sound sv \<longleftrightarrow> claims_agree (set (subscribed (sv_topics sv))) (view_of (sv_registry sv)) \<and>
     (\<exists>cs. claims_ok (sv_topics sv) cs)"

lemma effect_commands_append [simp]: "effect_commands (a @ b) = effect_commands a @ effect_commands b"
  by (simp add: effect_commands_def)

lemma notify_all_claims:
  "claims_ok ts cs \<Longrightarrow> claims_ok (fst (notify_all ns ts)) (cs @ effect_commands (snd (notify_all ns ts))) \<and>
     set (subscribed (fst (notify_all ns ts))) = fold claim_after ns (set (subscribed ts))"
proof (induction ns arbitrary: ts cs)
  case (Cons n ns)
  obtain ph e where n: "n = (ph, e)" by (cases n)
  obtain ts1 effs where x: "topics_exec (Notice ph e) ts = (ts1, effs)" by fastforce
  have "topics_step ts (Notice ph e) effs ts1" by (rule topics_step.intros [OF _ x]) simp
  from topics_step_claims [OF this Cons.prems] have "claims_ok ts1 (cs @ effect_commands effs)"
    "set (subscribed ts1) = claim_after n (set (subscribed ts))" by (simp_all add: n)
  with Cons.IH [of ts1 "cs @ effect_commands effs"] show ?case by (simp add: n x split_def Let_def)
qed simp

lemma finite_view: "finite (dom (view_of st))"
proof (rule finite_subset)
  show "dom (view_of st) \<subseteq> fst ` set (sessions st)"
    by (force simp: view_of_def map_get_def dom_def dest: map_of_SomeD split: option.splits)
qed simp

text \<open>A change of the registry whose notices observe its view keeps the claims sound.\<close>

lemma claims_follow:
  assumes "claims_sound sv" "observe_all (notices UserTopicTracker effs) (view_of (sv_registry sv)) = Some (view_of st)"
  shows "claims_sound \<lparr>sv_verifier = v, sv_registry = st, sv_topics = fst (notify_topics effs (sv_topics sv))\<rparr>"
proof -
  obtain cs where cs: "claims_agree (set (subscribed (sv_topics sv))) (view_of (sv_registry sv))" "claims_ok (sv_topics sv) cs"
    using assms(1) by (auto simp: claims_sound_def)
  from topic_tracker.agrees_all [OF finite_view cs(1) assms(2)] notify_all_claims [OF cs(2)] show ?thesis
    by (auto simp: claims_sound_def notify_topics_def)
qed

definition no_failed_command :: "server_event list \<Rightarrow> bool" where
  "no_failed_command evs \<longleftrightarrow> (\<forall>k err. TopicEvent (Reply k (Inl err)) \<notin> set evs)"

definition server_inv :: "jwt_verify \<Rightarrow> server \<Rightarrow> bool" where
  "server_inv jwt sv \<longleftrightarrow> ws_inv (sv_registry sv) \<and> trackers (sv_registry sv) = SESSION_TRACKERS \<and> all_vouched jwt sv"

lemma topic_tracked: "distinct SESSION_TRACKERS" "UserTopicTracker \<in> set SESSION_TRACKERS"
  by (simp_all add: SESSION_TRACKERS_def)

lemma registry_step:
  assumes "ws_step st ev effs st'" "ws_inv st" "trackers st = SESSION_TRACKERS"
  shows "ws_inv st' \<and> trackers st' = SESSION_TRACKERS \<and>
    observe_all (notices UserTopicTracker effs) (view_of st) = Some (view_of st')"
  using step_refines_view [OF assms(1,2), of UserTopicTracker] ws_step_inv [OF assms(1,2)] assms(3) topic_tracked
  by simp

lemma server_step_inv:
  assumes "server_inv jwt sv" "server_enabled ev sv"
  shows "server_inv jwt (server_after url jwt ev sv) \<and>
    (claims_sound sv \<longrightarrow> (\<forall>k err. ev \<noteq> TopicEvent (Reply k (Inl err))) \<longrightarrow> claims_sound (server_after url jwt ev sv))"
proof -
  note I = assms(1) [unfolded server_inv_def]
  show ?thesis
  proof (cases ev)
    case (Upgrade loaded uuid now client args)
    obtain vst st effs where g: "gateway_handleConnection url jwt loaded uuid now client args
        (sv_verifier sv, sv_registry sv) = ((vst, st), effs)" by (metis prod.collapse)
    have r: "ws_inv st \<and> trackers st = SESSION_TRACKERS \<and>
        observe_all (notices UserTopicTracker effs) (view_of (sv_registry sv)) = Some (view_of st)"
      using gateway_step [OF g] registry_step I by fastforce
    then show ?thesis using Upgrade g I upgrade_vouched [OF g] claims_follow [of sv effs st vst]
      by (simp add: server_inv_def all_vouched_def split_def Let_def)
  next
    case (HttpRequest loaded ctx)
    have "sv_verifier sv = Some c \<Longrightarrow> snd (canActivate jwt loaded ctx (sv_verifier sv)) = Some c" for c
      by (simp add: guard_keeps_config)
    then show ?thesis using HttpRequest I by (auto simp: server_inv_def all_vouched_def claims_sound_def)
  next
    case (Registry env e)
    obtain st effs where x: "ws_exec env e (sv_registry sv) = (st, effs)" by fastforce
    have en: "ws_enabled e (sv_registry sv)" "\<And>uuid now params. e \<noteq> Connection uuid now params"
      using assms(2) Registry by (auto split: ws_event.splits)
    have "ws_step (sv_registry sv) e effs st" by (rule ws_step.intros [OF en(1) x])
    from registry_step [OF this] I have r: "ws_inv st \<and> trackers st = SESSION_TRACKERS \<and>
        observe_all (notices UserTopicTracker effs) (view_of (sv_registry sv)) = Some (view_of st)" by simp
    have "passports st = passports (sv_registry sv)" using passports_exec [OF en(1) _ en(2), of env] I x by simp
    then show ?thesis using Registry x I r claims_follow [of sv effs st "sv_verifier sv"]
      by (simp add: server_inv_def all_vouched_def claims_sound_def split_def Let_def)
  next
    case (TopicEvent e)
    obtain ts effs where x: "topics_exec e (sv_topics sv) = (ts, effs)" by fastforce
    have en: "topics_enabled e (sv_topics sv)" "\<And>ph n. e \<noteq> Notice ph n"
      using assms(2) TopicEvent by (auto split: topics_event.splits)
    have step: "topics_step (sv_topics sv) e effs ts" by (rule topics_step.intros [OF en(1) x])
    have "claims_sound (sv\<lparr>sv_topics := ts\<rparr>)" if "claims_sound sv" "\<And>k err. e \<noteq> Reply k (Inl err)"
    proof -
      from that(1) obtain cs where "claims_ok (sv_topics sv) cs" by (auto simp: claims_sound_def)
      from topics_step_claims [OF step this that(2)] en(2) that(1) show ?thesis
        by (cases e) (auto simp: claims_sound_def)
    qed
    then show ?thesis using TopicEvent x I by (simp add: server_inv_def all_vouched_def)
  qed (use assms(1) in simp)
qed

lemma server_run_inv:
  "server_run url jwt evs sv \<Longrightarrow> server_inv jwt sv \<and> (no_failed_command evs \<longrightarrow> claims_sound sv)"
proof (induction rule: server_run.induct)
  case server_start
  have "view_of (new_registry SESSION_TRACKERS) = (\<lambda>_. None)"
    by (simp add: view_of_def new_registry_def js_simps fun_eq_iff)
  moreover have "claims_ok (setLocalDeliverer new_topics) []"
    by (simp add: claims_ok_def new_topics_def setLocalDeliverer_def)
  ultimately show ?case using new_registry_inv(1) [of SESSION_TRACKERS]
    by (auto simp: server_inv_def all_vouched_def passports_def new_server_def new_registry_def claims_sound_def
        claims_agree_def user_clients_def setLocalDeliverer_def new_topics_def)
next
  case (server_next evs sv ev sv' effs cmds)
  have sv': "sv' = server_after url jwt ev sv" using server_next.hyps(3) by simp
  show ?case unfolding sv' using server_next.IH server_step_inv [OF _ server_next.hyps(2), of jwt url]
    by (auto simp: no_failed_command_def)
qed

text \<open>The settings an event loads, should the verifier ask for them.\<close>

fun settings_of :: "server_event \<Rightarrow> jwt_config option" where
  "settings_of (Upgrade (Inr config) _ _ _ _) = Some config"
| "settings_of (HttpRequest (Inr config) _) = Some config"
| "settings_of _ = None"

lemma verify_settings:
  "verify_token jwt loaded token st = (r, v) \<Longrightarrow> v = st \<or> (\<exists>c. loaded = Inr c \<and> v = Some c)"
  by (auto simp: verify_token_def getConfig_def split: option.splits sum.splits if_splits)

lemma server_step_settings:
  "sv_verifier (server_after url jwt ev sv) = sv_verifier sv \<or>
   (\<exists>c. settings_of ev = Some c \<and> sv_verifier (server_after url jwt ev sv) = Some c)"
proof (cases ev)
  case (Upgrade loaded uuid now client args)
  let ?d = "gateway_decision url jwt loaded args (sv_verifier sv)"
  have "sv_verifier (server_after url jwt ev sv) = snd ?d"
    by (simp add: Upgrade gateway_handleConnection_def split_def Let_def split: resolve_result.split)
  moreover have "snd ?d = sv_verifier sv \<or> (\<exists>c. loaded = Inr c \<and> snd ?d = Some c)"
    using verify_settings [OF prod.collapse [symmetric]]
    by (auto simp: gateway_decision_def Let_def split: option.split)
  ultimately show ?thesis using Upgrade by auto
next
  case (HttpRequest loaded ctx)
  have "snd (canActivate jwt loaded ctx st) = st \<or> (\<exists>c. loaded = Inr c \<and> snd (canActivate jwt loaded ctx st) = Some c)" for st
    by (auto simp: canActivate_def verifyHeader_def dest: verify_settings
        split: guard_request.split option.split prod.split sum.split)
  from this [of "sv_verifier sv"] show ?thesis using HttpRequest by (cases loaded) auto
qed (simp_all add: split_def Let_def)

lemma server_run_settings:
  "server_run url jwt evs sv \<Longrightarrow> sv_verifier sv = Some c \<Longrightarrow> Some c \<in> settings_of ` set evs"
proof (induction rule: server_run.induct)
  case (server_next evs sv ev sv' effs cmds)
  have sv': "sv' = server_after url jwt ev sv" using server_next.hyps(3) by simp
  show ?case using server_next.IH server_next.prems server_step_settings [of url jwt ev sv]
    unfolding sv' by force
qed (simp add: new_server_def)

section \<open>A sample upgrade\<close>

definition sample_url :: url_params where
  "sample_url = (\<lambda>u. Some (\<lambda>k. if k = str ''userId'' then Some (str ''ann'')
     else if k = str ''clientId'' then Some (if u = str ''/ws'' then str ''c1'' else str ''c2'') else Some (str ''t'')))"

definition sample_jwt :: jwt_verify where
  "sample_jwt = (\<lambda>_ _ _. Inr (Obj [(str ''iss'', Str (str ''i'')), (str ''aud'', Str (str ''a'')),
     (str ''exp'', Num (Fin 5)), (str ''sub'', Str (str ''ann''))]))"

definition sample_request :: "jstr \<Rightarrow> server_event" where
  "sample_request path = Upgrade (Inr sample_config) (str ''tok'') 1000 7 [Obj [(str ''url'', Str path)]]"

abbreviation sample_upgrade :: server_event where
  "sample_upgrade \<equiv> sample_request (str ''/ws'')"

definition sample_client_id :: "jstr \<Rightarrow> client_id" where
  "sample_client_id path = (if path = str ''/ws'' then str ''c1'' else str ''c2'')"

lemma sample_decision:
  "gateway_decision sample_url sample_jwt (Inr sample_config) [Obj [(str ''url'', Str path)]] None
     = (Authorized (str ''ann'') (sample_client_id path) (Fin 5000), Some sample_config)"
proof -
  have "to_double (5000 :: rat) = Fin 5000" using to_double_int [of 5000] by simp
  then have ms: "seconds_to_ms (Fin 5) = Fin 5000" by (simp add: seconds_to_ms_def)
  have ok: "trim (str ''ann'') \<noteq> []" "trim (str ''t'') \<noteq> []" "trim (sample_client_id path) \<noteq> []"
    by (simp_all add: trim_eq_Nil str_def cu_def js_space_def sample_client_id_def)
  have params: "sample_url path = Some (\<lambda>k. if k = str ''userId'' then Some (str ''ann'')
      else if k = str ''clientId'' then Some (sample_client_id path) else Some (str ''t''))"
    unfolding sample_url_def sample_client_id_def by (rule refl)
  have ident: "extractGatewayIdentity sample_url [Obj [(str ''url'', Str path)]] =
      \<lparr>gi_userId = Some (str ''ann''), gi_clientId = Some (sample_client_id path), gi_token = Some (str ''t'')\<rparr>"
    using ok by (simp add: extractGatewayIdentity_def hasUpgradeUrl_def params parseUserId_def parseClientId_def
        parseToken_def parseNonBlank_def or_null_def or_undefined_def js_simps)
  show ?thesis
    by (simp add: gateway_decision_def ident verify_token_def getConfig_def sample_jwt_def isJwtPayload_def
        resolveGatewayIdentity_def claims_of_def or_undefined_def ms Let_def js_simps)
qed

lemma sample_server:
  "sv_registry (server_after sample_url sample_jwt sample_upgrade new_server) = sample_state"
proof -
  have p: "\<lparr>p_socket = 7, p_userId = Some (str ''ann''), p_clientId = Some (str ''c1''), p_expiresAt = Fin 5000\<rparr> = sample_params"
    by (simp add: sample_params_def)
  have "fst (snd (handleConnection (str ''tok'') 1000 sample_params (new_registry SESSION_TRACKERS))) = sample_state"
    using sample_exec by (simp add: sample_event_def)
  then show ?thesis
    by (simp add: sample_request_def new_server_def gateway_handleConnection_def sample_decision sample_client_id_def p split_def Let_def)
qed

lemma sample_server_run:
  "server_run sample_url sample_jwt [sample_upgrade] (server_after sample_url sample_jwt sample_upgrade new_server)"
  using server_run_after [OF server_start, of sample_upgrade] by (simp add: sample_request_def)

end
