(* ===== verification/Delivery.thy ===== *)
theory Delivery
  imports Server
begin

text \<open>
  Several replicas behind one Redis. Every replica runs on its own; what one publishes Redis may
  deliver to any replica, any number of times and in any order: nothing is assumed of the broker
  but that it makes up no message and keeps the channel of each. The result is end to end: a
  message a client receives was sent to that client's user by another client, and both were let
  in with a verified token.
\<close>

section \<open>The cluster\<close>

record cluster =
  cl_nodes :: "server list"
  cl_published :: "(jstr \<times> jstr) list"

datatype cluster_event = At nat server_event | Deliver nat nat socket_env

definition publishes :: "ws_effect list \<Rightarrow> (jstr \<times> jstr) list" where
  "publishes effs = concat (map (\<lambda>e. case e of Publish ch en \<Rightarrow> [(ch, en)] | _ \<Rightarrow> []) effs)"

fun cluster_exec :: "url_params \<Rightarrow> jwt_verify \<Rightarrow> cluster_event \<Rightarrow> cluster \<Rightarrow> cluster \<times> ws_effect list" where
  "cluster_exec url jwt (At j ev) c =
     (let (sv, effs, _) = server_exec url jwt ev (cl_nodes c ! j)
      in (\<lparr>cl_nodes = (cl_nodes c)[j := sv], cl_published = cl_published c @ publishes effs\<rparr>, effs))"
| "cluster_exec url jwt (Deliver i k env) c =
     (let (channel, envelope) = cl_published c ! k;
          (sv, effs, _) = server_exec url jwt (TopicMessage env envelope channel) (cl_nodes c ! i)
      in (c\<lparr>cl_nodes := (cl_nodes c)[i := sv]\<rparr>, effs))"

fun cluster_enabled :: "cluster_event \<Rightarrow> cluster \<Rightarrow> bool" where
  "cluster_enabled (At j ev) c \<longleftrightarrow> j < length (cl_nodes c) \<and> server_enabled ev (cl_nodes c ! j) \<and>
     (case ev of TopicMessage _ _ _ \<Rightarrow> False | _ \<Rightarrow> True)"
| "cluster_enabled (Deliver i k env) c \<longleftrightarrow> i < length (cl_nodes c) \<and> k < length (cl_published c)"

inductive cluster_run :: "url_params \<Rightarrow> jwt_verify \<Rightarrow> nat \<Rightarrow> cluster_event list \<Rightarrow> cluster \<Rightarrow> bool" for url jwt n where
  cluster_start: "cluster_run url jwt n [] \<lparr>cl_nodes = replicate n new_server, cl_published = []\<rparr>"
| cluster_next: "cluster_run url jwt n evs c \<Longrightarrow> cluster_enabled ev c \<Longrightarrow> cluster_exec url jwt ev c = (c', effs) \<Longrightarrow>
    cluster_run url jwt n (evs @ [ev]) c'"

section \<open>Only messages are published\<close>

lemma publishes_simps [simp]:
  "publishes [] = []" "publishes (Publish ch en # es) = (ch, en) # publishes es"
  "publishes (a @ b) = publishes a @ publishes b" "publishes (CloseSocket s n why # es) = publishes es"
  "publishes (TerminateSocket s # es) = publishes es" "publishes (SendSocket s p # es) = publishes es"
  "publishes (ListenSocket s r # es) = publishes es" "publishes (NotifyConnect t e # es) = publishes es"
  "publishes (NotifyDisconnect t e # es) = publishes es" "publishes (Log l m x # es) = publishes es"
  by (simp_all add: publishes_def)

lemma publishes_fanOut [simp]: "publishes (fanOut st s ph) = []"
  by (simp add: fanOut_def publishes_def notifyTracker_def o_def split: phase.split)

lemma publishes_send [simp]: "publishes (snd (sendToClient env c m st)) = []"
  by (auto simp: sendToClient_def split: option.split stringified.split)

lemma publishes_nack [simp]: "publishes (sendNack env c reason st) = []"
  by (simp add: sendNack_def)

lemma publishes_release [simp]: "publishes (snd (snd (release r st))) = []"
  by (simp add: release_def Let_def)

lemma publishes_expiry [simp]:
  "publishes (snd (handleExpiry r st)) = []" "publishes (snd (scheduleExpiry now r st)) = []"
  "publishes (snd (handleExpiryTimer now now' r st)) = []" "publishes (snd (on_close r st)) = []"
proof -
  obtain ok st' effs where r: "release r st = (ok, st', effs)" by (cases "release r st")
  with publishes_release [of r st] have "publishes effs = []" by simp
  then show e: "publishes (snd (handleExpiry r st)) = []" "publishes (snd (on_close r st)) = []"
    by (cases ok; simp add: handleExpiry_def on_close_def r Let_def)+
  then show s: "publishes (snd (scheduleExpiry now r st)) = []" for now by (simp add: scheduleExpiry_def Let_def)
  show "publishes (snd (handleExpiryTimer now now' r st)) = []" using e s by (simp add: handleExpiryTimer_def)
qed

lemma publishes_connection [simp]: "publishes (snd (snd (handleConnection uuid now params st))) = []"
proof (cases "p_userId params = None \<or> p_clientId params = None
    \<or> (\<exists>c. p_clientId params = Some c \<and> map_get (sessions st) c \<noteq> None)")
  case True
  then show ?thesis by (auto simp: handleConnection_def split: option.split)
next
  case False
  then obtain u c where uc: "p_userId params = Some u" "p_clientId params = Some c" "map_get (sessions st) c = None"
    by auto
  show ?thesis by (simp add: handleConnection_eq [OF uc] Let_def split_def)
qed

lemma publishes_settle [simp]: "publishes (snd (settle_broadcast env k answer st)) = []"
  by (simp add: settle_broadcast_def Let_def delivery_failed_def sendToUser_published_def
      split: sum.split prod.split)

lemma publishes_message:
  assumes "(ch, en) \<in> set (publishes (snd (handleMessage env u c data st)))"
  shows "\<exists>target message. parseInboundFrame data = Send target message \<and> ch = channelFor target \<and>
    buildUserTopicEnvelope message (Some c) = Inr en"
  using assms
  by (cases "parseInboundFrame data")
    (auto simp: handleMessage_def Let_def canSendTo_def sendToUser_def split: sum.splits)

lemma publishes_exec:
  assumes "(ch, en) \<in> set (publishes (fst (snd (server_exec url jwt ev sv))))" "server_enabled ev sv"
    and "\<And>env m channel. ev \<noteq> TopicMessage env m channel"
  shows "\<exists>env r data target message. ev = Registry env (Message r data) \<and> r < length (heap (sv_registry sv)) \<and>
    parseInboundFrame data = Send target message \<and> ch = channelFor target \<and>
    buildUserTopicEnvelope message (Some (s_clientId (heap (sv_registry sv) ! r))) = Inr en"
proof (cases ev)
  case (Upgrade loaded uuid now client args)
  obtain vst st effs where g: "gateway_handleConnection url jwt loaded uuid now client args
      (sv_verifier sv, sv_registry sv) = ((vst, st), effs)" by (metis prod.collapse)
  then have "publishes effs = []"
  proof (cases rule: gateway_cases)
    case (connected token config payload u c x)
    then show ?thesis
      using publishes_connection [of uuid now "\<lparr>p_socket = client, p_userId = Some u, p_clientId = Some c,
         p_expiresAt = seconds_to_ms x\<rparr>" "sv_registry sv"] by (metis snd_conv)
  qed simp
  with assms(1) Upgrade g show ?thesis by (simp add: split_def Let_def)
next
  case (Registry env e)
  have p: "(ch, en) \<in> set (publishes (snd (ws_exec env e (sv_registry sv))))"
    using assms(1) Registry by (simp add: split_def Let_def)
  show ?thesis
  proof (cases e)
    case (Message r data)
    with p publishes_message assms(2) Registry show ?thesis by fastforce
  next
    case (SocketError r err)
    with p show ?thesis by (simp add: handleError_def split: if_splits)
  next
    case (TimerFired t now now')
    with p show ?thesis by (auto split: option.splits)
  qed (use p assms(2) Registry in auto)
qed (use assms(1,3) in \<open>simp_all add: split_def Let_def\<close>)

section \<open>Replicas of a cluster\<close>

text \<open>A step of a replica only appends to its sessions, timers left out.\<close>

lemma server_passports:
  assumes "server_inv jwt sv" "server_enabled ev sv"
  shows "\<exists>xs. passports (sv_registry (server_after url jwt ev sv)) = passports (sv_registry sv) @ xs"
proof (cases ev)
  case (Upgrade loaded uuid now client args)
  obtain vst st effs where g: "gateway_handleConnection url jwt loaded uuid now client args
      (sv_verifier sv, sv_registry sv) = ((vst, st), effs)" by (metis prod.collapse)
  then have "\<exists>xs. passports st = passports (sv_registry sv) @ xs"
  proof (cases rule: gateway_cases)
    case (connected token config payload u c x)
    then have "st = fst (snd (handleConnection uuid now \<lparr>p_socket = client, p_userId = Some u,
        p_clientId = Some c, p_expiresAt = seconds_to_ms x\<rparr> (sv_registry sv)))" by (metis fst_conv)
    then show ?thesis by (metis append_Nil2 passports_connection)
  qed simp
  with Upgrade g show ?thesis by (simp add: split_def Let_def)
next
  case (Registry env e)
  have "ws_enabled e (sv_registry sv)" "\<And>uuid now params. e \<noteq> Connection uuid now params"
    using assms(2) Registry by (auto split: ws_event.splits)
  from passports_exec [OF this(1) _ this(2), of env] assms(1) Registry show ?thesis
    by (simp add: server_inv_def split_def Let_def)
qed (simp_all add: split_def Let_def)

lemma topics_exec_deliverer: "localDeliverer (fst (topics_exec ev ts)) = localDeliverer ts"
proof (cases ev)
  case (Notice ph e)
  then show ?thesis
    by (cases ph) (simp_all add: topics_handleConnect_def topics_handleDisconnect_def withTopicOp_def Let_def)
next
  case (Reply k reply)
  then show ?thesis
    by (simp add: topic_reply_def topic_op_failed_def Let_def split: sum.split topic_kind.split)
qed (simp add: topic_wake_def Let_def)

lemma notify_all_deliverer: "localDeliverer (fst (notify_all ns ts)) = localDeliverer ts"
proof (induction ns arbitrary: ts)
  case (Cons n ns)
  with topics_exec_deliverer [of "Notice (fst n) (snd n)" ts] show ?case by (cases n) (simp add: split_def Let_def)
qed simp

lemma server_run_deliverer: "server_run url jwt evs sv \<Longrightarrow> localDeliverer (sv_topics sv)"
proof (induction rule: server_run.induct)
  case (server_next evs sv ev sv' effs cmds)
  have sv': "sv' = server_after url jwt ev sv" using server_next.hyps(3) by simp
  show ?case unfolding sv' using server_next.IH
    by (cases ev) (simp_all add: split_def Let_def notify_topics_def notify_all_deliverer topics_exec_deliverer
        del: topics_exec.simps)
qed (simp add: new_server_def setLocalDeliverer_def)

text \<open>Each replica of a cluster is in a run of its own, and each published envelope comes from a
  message of one of the sessions.\<close>

definition sent_by :: "cluster_event list \<Rightarrow> cluster \<Rightarrow> jstr \<times> jstr \<Rightarrow> bool" where
  "sent_by evs c p \<longleftrightarrow>
     (\<exists>j env r data target message. At j (Registry env (Message r data)) \<in> set evs \<and> j < length (cl_nodes c) \<and>
        r < length (heap (sv_registry (cl_nodes c ! j))) \<and> parseInboundFrame data = Send target message \<and>
        fst p = channelFor target \<and>
        buildUserTopicEnvelope message (Some (s_clientId (heap (sv_registry (cl_nodes c ! j)) ! r))) = Inr (snd p))"

lemma sent_by_later:
  assumes "sent_by evs c p" "length (cl_nodes c') = length (cl_nodes c)"
    and "\<And>j. j < length (cl_nodes c) \<Longrightarrow>
      \<exists>xs. passports (sv_registry (cl_nodes c' ! j)) = passports (sv_registry (cl_nodes c ! j)) @ xs"
  shows "sent_by (evs @ [ev]) c' p"
proof -
  obtain j env r data target message where s: "At j (Registry env (Message r data)) \<in> set evs" "j < length (cl_nodes c)"
    "r < length (heap (sv_registry (cl_nodes c ! j)))" "parseInboundFrame data = Send target message"
    "fst p = channelFor target"
    "buildUserTopicEnvelope message (Some (s_clientId (heap (sv_registry (cl_nodes c ! j)) ! r))) = Inr (snd p)"
    using assms(1) by (auto simp: sent_by_def)
  let ?h = "heap (sv_registry (cl_nodes c ! j))" and ?h' = "heap (sv_registry (cl_nodes c' ! j))"
  obtain xs where xs: "passports (sv_registry (cl_nodes c' ! j)) = passports (sv_registry (cl_nodes c ! j)) @ xs"
    using assms(3) [OF s(2)] by blast
  have len: "r < length ?h'" using s(3) arg_cong [OF xs, of length] by (simp add: passports_def)
  have "passports (sv_registry (cl_nodes c' ! j)) ! r = passports (sv_registry (cl_nodes c ! j)) ! r"
    unfolding xs using s(3) by (simp add: nth_append passports_def)
  then have "(?h' ! r)\<lparr>s_expiryTimer := None\<rparr> = (?h ! r)\<lparr>s_expiryTimer := None\<rparr>"
    using s(3) len by (simp add: passports_def)
  then have "s_clientId (?h' ! r) = s_clientId (?h ! r)" by (metis session.select_convs(2) session.surjective session.update_convs(6))
  with s len assms(2) show ?thesis unfolding sent_by_def by fastforce
qed

definition cluster_inv :: "url_params \<Rightarrow> jwt_verify \<Rightarrow> cluster_event list \<Rightarrow> cluster \<Rightarrow> bool" where
  "cluster_inv url jwt evs c \<longleftrightarrow>
     (\<forall>j < length (cl_nodes c). \<exists>es. server_run url jwt es (cl_nodes c ! j)) \<and>
     (\<forall>p \<in> set (cl_published c). sent_by evs c p)"

lemma replica_step:
  assumes "server_run url jwt es sv" "server_enabled ev sv"
  shows "\<exists>es'. server_run url jwt es' (server_after url jwt ev sv)"
    "\<exists>xs. passports (sv_registry (server_after url jwt ev sv)) = passports (sv_registry sv) @ xs"
  using server_run_after [OF assms] server_passports [OF _ assms(2), of jwt url] server_run_inv [OF assms(1)] by blast+

lemma nodes_updated:
  assumes "\<forall>j < length nodes. \<exists>es. server_run url jwt es (nodes ! j)" "i < length nodes" "server_enabled ev (nodes ! i)"
  shows "\<forall>j < length nodes. \<exists>es. server_run url jwt es (nodes[i := server_after url jwt ev (nodes ! i)] ! j)"
    "j < length nodes \<Longrightarrow> \<exists>xs. passports (sv_registry (nodes[i := server_after url jwt ev (nodes ! i)] ! j))
       = passports (sv_registry (nodes ! j)) @ xs"
proof -
  obtain es where "server_run url jwt es (nodes ! i)" using assms(1,2) by blast
  note R = replica_step [OF this assms(3)]
  show "\<forall>j < length nodes. \<exists>es. server_run url jwt es (nodes[i := server_after url jwt ev (nodes ! i)] ! j)"
  proof (intro allI impI)
    fix j assume "j < length nodes"
    then show "\<exists>es. server_run url jwt es (nodes[i := server_after url jwt ev (nodes ! i)] ! j)"
      using assms(1,2) R(1) by (cases "i = j") auto
  qed
  show "j < length nodes \<Longrightarrow> \<exists>xs. passports (sv_registry (nodes[i := server_after url jwt ev (nodes ! i)] ! j))
       = passports (sv_registry (nodes ! j)) @ xs"
    using R(2) by (cases "i = j") (simp_all del: server_exec.simps)
qed

lemma cluster_step_inv:
  assumes "cluster_inv url jwt evs c" "cluster_enabled ev c"
  shows "cluster_inv url jwt (evs @ [ev]) (fst (cluster_exec url jwt ev c))"
proof (cases ev)
  case (At j e)
  let ?sv = "cl_nodes c ! j"
  let ?c = "\<lparr>cl_nodes = (cl_nodes c)[j := server_after url jwt e ?sv],
     cl_published = cl_published c @ publishes (fst (snd (server_exec url jwt e ?sv)))\<rparr>"
  have en: "j < length (cl_nodes c)" "server_enabled e ?sv" "\<And>env m channel. e \<noteq> TopicMessage env m channel"
    using assms(2) At by (auto split: server_event.splits)
  note U = nodes_updated [OF _ en(1,2), of url jwt]
  have runs: "\<forall>j < length (cl_nodes c). \<exists>es. server_run url jwt es (cl_nodes c ! j)"
    and old: "\<And>p. p \<in> set (cl_published c) \<Longrightarrow> sent_by evs c p"
    using assms(1) by (simp_all add: cluster_inv_def)
  have "sent_by (evs @ [ev]) ?c p" if p: "p \<in> set (cl_published c)" for p
    by (rule sent_by_later [OF old [OF p]]) (simp, simp only: cluster.simps U(2) [OF runs])
  moreover have "sent_by (evs @ [ev]) ?c (ch, t)" if p: "(ch, t) \<in> set (publishes (fst (snd (server_exec url jwt e ?sv))))" for ch t
  proof -
    obtain env r data target message where m: "e = Registry env (Message r data)" "r < length (heap (sv_registry ?sv))"
      "parseInboundFrame data = Send target message" "ch = channelFor target"
      "buildUserTopicEnvelope message (Some (s_clientId (heap (sv_registry ?sv) ! r))) = Inr t"
      using publishes_exec [OF p en(2,3)] by blast
    have "heap (sv_registry (server_after url jwt e ?sv)) = heap (sv_registry ?sv)"
      using handleMessage_state [of env "s_userId (heap (sv_registry ?sv) ! r)" "s_clientId (heap (sv_registry ?sv) ! r)"
          data "sv_registry ?sv"]
      by (auto simp: m(1) split_def Let_def)
    with m At en(1) show ?thesis unfolding sent_by_def
      by (intro exI [of _ j] exI [of _ env] exI [of _ r] exI [of _ data] exI [of _ target] exI [of _ message])
        (simp del: server_exec.simps)
  qed
  ultimately have "\<forall>p \<in> set (cl_published ?c). sent_by (evs @ [ev]) ?c p" by auto
  moreover have "fst (cluster_exec url jwt ev c) = ?c" by (simp add: At split_def Let_def)
  ultimately show ?thesis using U(1) [OF runs] by (simp add: cluster_inv_def)
next
  case (Deliver i k env)
  let ?e = "TopicMessage env (snd (cl_published c ! k)) (fst (cl_published c ! k))" and ?sv = "cl_nodes c ! i"
  have "server_after url jwt ?e ?sv = ?sv" by simp
  then have "fst (cluster_exec url jwt ev c) = c"
    by (simp add: Deliver split_def Let_def)
  moreover have "cluster_inv url jwt (evs @ [ev]) c"
    using assms(1) unfolding cluster_inv_def sent_by_def by fastforce
  ultimately show ?thesis by simp
qed

lemma cluster_run_inv: "cluster_run url jwt n evs c \<Longrightarrow> cluster_inv url jwt evs c"
proof (induction rule: cluster_run.induct)
  case cluster_start
  have "server_run url jwt [] new_server" by (rule server_start)
  then show ?case by (auto simp: cluster_inv_def)
next
  case (cluster_next evs c ev c' effs)
  have "c' = fst (cluster_exec url jwt ev c)" using cluster_next.hyps(3) by simp
  with cluster_step_inv [OF cluster_next.IH cluster_next.hyps(2)] show ?case by simp
qed

lemma session_vouched:
  assumes "server_inv jwt sv" "r < length (heap (sv_registry sv))"
  shows "\<exists>config. sv_verifier sv = Some config \<and> vouched jwt config (heap (sv_registry sv) ! r)"
proof -
  have "(heap (sv_registry sv) ! r)\<lparr>s_expiryTimer := None\<rparr> \<in> set (passports (sv_registry sv))"
    using assms(2) by (simp add: passports_def)
  with assms(1) show ?thesis by (force simp: server_inv_def all_vouched_def vouched_def)
qed

lemma session_registered:
  assumes "ws_inv st" "map_get (sessions st) c = Some r"
  shows "registered st r \<and> s_clientId (heap st ! r) = c"
proof -
  have "r < length (idents st) \<and> snd (idents st ! r) = c"
    using assms index_okD(3) by (fastforce simp: ws_inv_def)
  then have "r < length (heap st)" "s_clientId (heap st ! r) = c" by (auto simp: idents_nth)
  with assms(2) show ?thesis by (simp add: registered_def)
qed

lemma sends_mem: "(s, p) \<in> set (sends effs) \<longleftrightarrow> SendSocket s p \<in> set effs"
  by (induction effs rule: sends.induct) auto

section \<open>Properties\<close>

text \<open>C3: End to end, in every run of any number of replicas, with Redis free to repeat, reorder and drop:
  whatever a delivery sends to a client is the message, as it was sent, of a \<open>sendMessage\<close> frame
  from a session with another client id, addressed to the receiving session's user; and both
  sessions were admitted with a token that verified for their own user.\<close>

theorem deliveries_are_addressed:
  assumes "cluster_run url jwt n evs c" and "cluster_enabled (Deliver i k env) c"
    and "SendSocket sock payload \<in> set (snd (cluster_exec url jwt (Deliver i k env) c))"
  shows "\<exists>j env' r data message sender receiver config config'.
    At j (Registry env' (Message r data)) \<in> set evs \<and>
    parseInboundFrame data = Send (s_userId receiver) message \<and> JSON_stringify message = Text payload \<and>
    sender = heap (sv_registry (cl_nodes c ! j)) ! r \<and>
    getSession (s_clientId receiver) (sv_registry (cl_nodes c ! i)) = Some receiver \<and> s_socket receiver = sock \<and>
    s_clientId receiver \<noteq> s_clientId sender \<and>
    sv_verifier (cl_nodes c ! j) = Some config \<and> vouched jwt config sender \<and>
    sv_verifier (cl_nodes c ! i) = Some config' \<and> vouched jwt config' receiver"
proof -
  have inv: "cluster_inv url jwt evs c" by (rule cluster_run_inv [OF assms(1)])
  let ?B = "cl_nodes c ! i"
  obtain ch t where p: "cl_published c ! k = (ch, t)" by fastforce
  have i: "i < length (cl_nodes c)" and "(ch, t) \<in> set (cl_published c)"
    using assms(2) p nth_mem [of k "cl_published c"] by simp_all
  then have "sent_by evs c (ch, t)" using inv by (simp add: cluster_inv_def)
  then obtain j env' r data target message where s: "At j (Registry env' (Message r data)) \<in> set evs"
    "j < length (cl_nodes c)" "r < length (heap (sv_registry (cl_nodes c ! j)))"
    "parseInboundFrame data = Send target message" "ch = channelFor target"
    "buildUserTopicEnvelope message (Some (s_clientId (heap (sv_registry (cl_nodes c ! j)) ! r))) = Inr t"
    by (auto simp: sent_by_def)
  obtain esA esB where runs: "server_run url jwt esA (cl_nodes c ! j)" "server_run url jwt esB ?B"
    using inv i s(2) unfolding cluster_inv_def by blast
  note A = server_run_inv [OF runs(1), THEN conjunct1] and B = server_run_inv [OF runs(2), THEN conjunct1]
  let ?sender = "heap (sv_registry (cl_nodes c ! j)) ! r"
  obtain config where vA: "sv_verifier (cl_nodes c ! j) = Some config" "vouched jwt config ?sender"
    using session_vouched [OF A s(3)] by blast
  obtain res effs where x: "handleTopicMessage (\<lambda>u p x. sendToLocalUser env u p x (sv_registry ?B)) t
      (channelFor target) (sv_topics ?B) = (res, effs)" by fastforce
  have "ws_inv (sv_registry ?B)" using B by (simp add: server_inv_def)
  from envelope_delivery [OF _ _ _ s(6) this server_run_deliverer [OF runs(2)] x] parseInboundFrame_parsed [OF s(4)] vA(2)
  obtain payload' cs where d: "JSON_stringify message = Text payload'"
    "set cs = {cl \<in> online (sv_registry ?B) target. cl \<noteq> s_clientId ?sender \<and> deliverable env (sv_registry ?B) cl}"
    "sends effs = map (\<lambda>cl. (socket_of (sv_registry ?B) cl, payload')) cs"
    by (auto simp: vouched_def)
  have "snd (cluster_exec url jwt (Deliver i k env) c) = effs" by (simp add: p s(5) x)
  then have "(sock, payload) \<in> set (sends effs)" using assms(3) by (simp add: sends_mem)
  then obtain cl where cl: "cl \<in> online (sv_registry ?B) target" "cl \<noteq> s_clientId ?sender"
    "sock = socket_of (sv_registry ?B) cl" "payload = payload'"
    using d by auto
  then obtain r' where r': "map_get (sessions (sv_registry ?B)) cl = Some r'"
    "s_userId (heap (sv_registry ?B) ! r') = target" by (auto simp: online_def)
  have reg: "registered (sv_registry ?B) r'" "s_clientId (heap (sv_registry ?B) ! r') = cl"
    using session_registered [OF \<open>ws_inv (sv_registry ?B)\<close> r'(1)] by simp_all
  obtain config' where vB: "sv_verifier ?B = Some config'" "vouched jwt config' (heap (sv_registry ?B) ! r')"
    using session_vouched [OF B registered_less [OF reg(1)]] by blast
  have "getSession cl (sv_registry ?B) = Some (heap (sv_registry ?B) ! r')" by (simp add: getSession_def r'(1))
  moreover from this have "s_socket (heap (sv_registry ?B) ! r') = sock" by (simp add: cl(3) socket_of_def)
  ultimately show ?thesis using s(1,4) d(1) cl(2,4) reg(2) r'(2) vA vB by blast
qed

lemma cluster_at:
  "cluster_run url jwt n evs c \<Longrightarrow> j < length (cl_nodes c) \<Longrightarrow> server_enabled ev (cl_nodes c ! j) \<Longrightarrow>
   (\<And>env m channel. ev \<noteq> TopicMessage env m channel) \<Longrightarrow>
   cluster_run url jwt n (evs @ [At j ev])
     \<lparr>cl_nodes = (cl_nodes c)[j := server_after url jwt ev (cl_nodes c ! j)],
      cl_published = cl_published c @ publishes (fst (snd (server_exec url jwt ev (cl_nodes c ! j))))\<rparr>"
  by (rule cluster_next) (auto simp: split_def Let_def split: server_event.split)

lemma upgrade_publishes_nothing: "publishes (fst (snd (server_exec url jwt (sample_request path) sv))) = []"
proof (rule ccontr)
  assume "publishes (fst (snd (server_exec url jwt (sample_request path) sv))) \<noteq> []"
  then obtain ch en where "(ch, en) \<in> set (publishes (fst (snd (server_exec url jwt (sample_request path) sv))))"
    by (metis list.set_intros(1) neq_Nil_conv surj_pair)
  from publishes_exec [OF this] show False by (simp add: sample_request_def)
qed

lemma sample_sender:
  "passports (sv_registry (server_after sample_url sample_jwt (sample_request (str ''/w2'')) new_server))
     = [new_session (str ''tok'') (str ''ann'') (str ''c2'')
          \<lparr>p_socket = 7, p_userId = Some (str ''ann''), p_clientId = Some (str ''c2''), p_expiresAt = Fin 5000\<rparr>]"
proof -
  let ?p = "\<lparr>p_socket = 7, p_userId = Some (str ''ann''), p_clientId = Some (str ''c2''), p_expiresAt = Fin 5000\<rparr>"
  let ?r = "new_registry SESSION_TRACKERS"
  let ?s = "new_session (str ''tok'') (str ''ann'') (str ''c2'') ?p"
  have "map_get (sessions ?r) (str ''c2'') = None" by (simp add: new_registry_def js_simps)
  from handleConnection_eq [of ?p "str ''ann''" "str ''c2''", OF _ _ this]
  have "fst (snd (handleConnection (str ''tok'') 1000 ?p ?r)) =
      fst (scheduleExpiry 1000 0 (enrolled (str ''ann'') (str ''c2'') ?s ?r))"
    by (simp add: Let_def split_def new_registry_def)
  moreover have "0 < length (heap (enrolled (str ''ann'') (str ''c2'') ?s ?r))" by simp
  from passports_schedule [OF this, of 1000] have
    "passports (fst (scheduleExpiry 1000 0 (enrolled (str ''ann'') (str ''c2'') ?s ?r))) = [?s]"
    by (simp add: passports_def new_registry_def new_session_def)
  moreover have "sample_client_id (str ''/w2'') = str ''c2''" by (simp add: sample_client_id_def)
  ultimately show ?thesis
    by (simp add: sample_request_def new_server_def gateway_handleConnection_def sample_decision split_def Let_def)
qed

lemma sample_sender_session:
  "\<exists>s. heap (sv_registry (server_after sample_url sample_jwt (sample_request (str ''/w2'')) new_server)) = [s] \<and>
     s_clientId s = str ''c2''"
  using sample_sender
  by (auto simp: passports_def new_session_def dest: arg_cong [of _ _ s_clientId] simp del: server_exec.simps)

lemma sample_request_enabled:
  "server_enabled (sample_request path) sv" "sample_request path \<noteq> TopicMessage env m channel"
  by (simp_all add: sample_request_def)

lemma sample_delivery:
  assumes "buildUserTopicEnvelope Null (Some (str ''c2'')) = Inr t" "localDeliverer topics"
  shows "\<exists>payload. SendSocket 7 payload \<in> set (snd (handleTopicMessage
    (\<lambda>u p x. sendToLocalUser sample_env u p x sample_state) t (channelFor (str ''ann'')) topics))"
proof -
  have nb: "non_blank (str ''ann'')" "non_blank (str ''c2'')"
    by (simp_all add: non_blank_def trim_eq_Nil str_def cu_def js_space_def)
  obtain res effs where x: "handleTopicMessage (\<lambda>u p x. sendToLocalUser sample_env u p x sample_state) t
      (channelFor (str ''ann'')) topics = (res, effs)" by fastforce
  from envelope_delivery [OF _ nb assms(1) ws_run_inv [OF sample_run new_registry_inv(1)] assms(2) x] obtain payload cs where d:
    "set cs = {c \<in> online sample_state (str ''ann''). c \<noteq> str ''c2'' \<and> deliverable sample_env sample_state c}"
    "sends effs = map (\<lambda>c. (socket_of sample_state c, payload)) cs" by auto
  have "str ''c1'' \<in> set cs" unfolding d(1)
    by (simp add: online_def deliverable_def getSession_def sample_state_def sample_session_def sample_env_def map_get_def)
  moreover have "socket_of sample_state (str ''c1'') = 7"
    by (simp add: socket_of_def getSession_def sample_state_def sample_session_def map_get_def)
  ultimately have "(7, payload) \<in> set (sends effs)" using d(2) by force
  then show ?thesis using x by (auto simp: sends_mem)
qed

theorem deliveries_are_addressed_witness:
  "\<exists>evs c payload sender. cluster_run sample_url sample_jwt 2 evs c \<and>
     SendSocket 7 payload \<in> set (snd (cluster_exec sample_url sample_jwt (Deliver 1 0 sample_env) c)) \<and>
     (\<exists>config. vouched sample_jwt config sender) \<and> s_clientId sender \<noteq> str ''c1''"
proof -
  let ?a = "server_after sample_url sample_jwt (sample_request (str ''/w2'')) new_server"
  let ?b = "server_after sample_url sample_jwt sample_upgrade new_server"
  obtain raw where raw: "parseInboundFrame (RawString raw) = Send (str ''ann'') Null"
    using send_frame_routed [of Null "str ''ann''"] by (auto simp: non_blank_def trim_eq_Nil str_def cu_def js_space_def)
  obtain t where t: "buildUserTopicEnvelope Null (Some (str ''c2'')) = Inr t"
    using envelope_built_and_parsed [of Null "Some (str ''c2'')"]
    by (auto simp: non_blank_def trim_eq_Nil str_def cu_def js_space_def)
  let ?m = "Registry sample_env (Message 0 (RawString raw))"
  have two: "replicate 2 x = [x, x]" for x :: server by (simp add: numeral_2_eq_2)
  have run1: "cluster_run sample_url sample_jwt 2 [At 0 (sample_request (str ''/w2''))]
      \<lparr>cl_nodes = [?a, new_server], cl_published = []\<rparr>"
    using cluster_at [OF cluster_start [of sample_url sample_jwt 2] _ _ sample_request_enabled(2), of 0 "str ''/w2''"]
    by (simp add: upgrade_publishes_nothing sample_request_enabled two del: server_exec.simps)
  have run2: "cluster_run sample_url sample_jwt 2 [At 0 (sample_request (str ''/w2'')), At 1 sample_upgrade]
      \<lparr>cl_nodes = [?a, ?b], cl_published = []\<rparr>"
    using cluster_at [OF run1 _ _ sample_request_enabled(2), of 1 "str ''/ws''"]
    by (simp add: upgrade_publishes_nothing sample_request_enabled del: server_exec.simps)
  obtain s where heap: "heap (sv_registry ?a) = [s]" and id: "s_clientId s = str ''c2''"
    using sample_sender_session by blast
  have pub: "publishes (fst (snd (server_exec sample_url sample_jwt ?m ?a))) = [(channelFor (str ''ann''), t)]"
    by (simp add: heap id handleMessage_def raw canSendTo_def sendToUser_def t split_def Let_def)
  let ?a' = "server_after sample_url sample_jwt ?m ?a"
  let ?c = "\<lparr>cl_nodes = [?a', ?b], cl_published = [(channelFor (str ''ann''), t)]\<rparr>"
  have run3: "cluster_run sample_url sample_jwt 2 [At 0 (sample_request (str ''/w2'')), At 1 sample_upgrade, At 0 ?m] ?c"
    using cluster_at [OF run2, of 0 ?m] by (simp add: pub heap del: server_exec.simps)
  have "localDeliverer (sv_topics ?b)" using server_run_deliverer [OF sample_server_run] .
  with sample_delivery [OF t] obtain payload where p: "SendSocket 7 payload \<in> set (snd (handleTopicMessage
    (\<lambda>u p x. sendToLocalUser sample_env u p x sample_state) t (channelFor (str ''ann'')) (sv_topics ?b)))" by blast
  have sent: "SendSocket 7 payload \<in> set (snd (cluster_exec sample_url sample_jwt (Deliver 1 0 sample_env) ?c))"
    using p by (simp add: sample_server split_def Let_def del: server_exec.simps(1))
  have b: "getSession c (sv_registry ?b) = Some x \<Longrightarrow> c = str ''c1''" for c x
    unfolding sample_server by (simp add: getSession_def sample_state_def map_get_def split: if_splits)
  from deliveries_are_addressed [OF run3 _ sent] b
  obtain sender config where "vouched sample_jwt config sender" "s_clientId sender \<noteq> str ''c1''"
    by (simp del: server_exec.simps) metis
  with run3 sent show ?thesis by blast
qed

end
