(* ===== verification/Subscriptions.thy ===== *)
theory Subscriptions
  imports Server
begin

text \<open>
  One replica and its subscriber connection to Redis. Redis takes the commands of a connection in
  the order they were issued (its documented pipelining), changes what it delivers on the
  connection, and answers in the same order. No command fails in these runs: what a failing one
  does is in \<open>Topic_Properties\<close>. The result is that the channels Redis delivers settle on those of
  the users with a session.
\<close>

section \<open>The connection\<close>

record link =
  ln_server :: server
  ln_queue :: "(topic_kind \<times> jstr) list"
  ln_live :: "jstr set"

definition new_link :: link where
  "new_link = \<lparr>ln_server = new_server, ln_queue = [], ln_live = {}\<rparr>"

fun redis_apply :: "topic_kind \<times> jstr \<Rightarrow> jstr set \<Rightarrow> jstr set" where
  "redis_apply (Subscribe, ch) live = insert ch live"
| "redis_apply (Unsubscribe, ch) live = live - {ch}"

text \<open>The replica does something of its own; its commands join the queue.\<close>

definition local_step :: "url_params \<Rightarrow> jwt_verify \<Rightarrow> server_event \<Rightarrow> link \<Rightarrow> link" where
  "local_step url jwt ev l =
     (let (sv, _, cmds) = server_exec url jwt ev (ln_server l)
      in l\<lparr>ln_server := sv, ln_queue := ln_queue l @ effect_commands cmds\<rparr>)"

text \<open>Redis takes the oldest command and answers it; the oldest operation gets the answer.\<close>

definition answer :: "url_params \<Rightarrow> jwt_verify \<Rightarrow> link \<Rightarrow> link" where
  "answer url jwt l =
     (case ln_queue l of
        [] \<Rightarrow> l
      | c # q \<Rightarrow> \<lparr>ln_server = server_after url jwt (TopicEvent (Reply 0 (Inr ()))) (ln_server l),
                  ln_queue = q, ln_live = redis_apply c (ln_live l)\<rparr>)"

definition is_topic_event :: "server_event \<Rightarrow> bool" where
  "is_topic_event ev = (case ev of TopicEvent _ \<Rightarrow> True | _ \<Rightarrow> False)"

inductive link_run :: "url_params \<Rightarrow> jwt_verify \<Rightarrow> link \<Rightarrow> bool" for url jwt where
  link_start: "link_run url jwt new_link"
| link_local: "link_run url jwt l \<Longrightarrow> server_enabled ev (ln_server l) \<Longrightarrow> \<not> is_topic_event ev \<Longrightarrow>
    link_run url jwt (local_step url jwt ev l)"
| link_answer: "link_run url jwt l \<Longrightarrow> ln_queue l \<noteq> [] \<Longrightarrow> link_run url jwt (answer url jwt l)"

section \<open>Commands and operations\<close>

text \<open>The operations that have not ended are those whose command waits for its answer.\<close>

definition awaits :: "topics_state \<Rightarrow> (topic_kind \<times> jstr) list \<Rightarrow> bool" where
  "awaits ts q \<longleftrightarrow> map (\<lambda>op. (o_kind op, o_channel op)) (topic_ops ts) = q \<and>
     (\<forall>op \<in> set (topic_ops ts). \<not> o_sleeping op)"

definition user_commands :: "(topic_kind \<times> jstr) list \<Rightarrow> bool" where
  "user_commands cs \<longleftrightarrow> snd ` set cs \<subseteq> range channelFor"

lemma notice_awaits:
  "awaits ts q \<Longrightarrow> topics_exec (Notice ph e) ts = (ts', effs) \<Longrightarrow>
   awaits ts' (q @ effect_commands effs) \<and> user_commands (effect_commands effs)"
  by (cases ph) (auto simp: topics_handleConnect_def topics_handleDisconnect_def withTopicOp_def awaits_def
      user_commands_def Let_def split: if_splits)

lemma notify_all_awaits:
  "awaits ts q \<Longrightarrow> awaits (fst (notify_all ns ts)) (q @ effect_commands (snd (notify_all ns ts))) \<and>
     user_commands (effect_commands (snd (notify_all ns ts)))"
proof (induction ns arbitrary: ts q)
  case (Cons n ns)
  obtain ph e where n: "n = (ph, e)" by (cases n)
  obtain ts1 effs where x: "topics_exec (Notice ph e) ts = (ts1, effs)" by fastforce
  from notice_awaits [OF Cons.prems x] Cons.IH [of ts1 "q @ effect_commands effs"] show ?case
    by (auto simp: n x split_def Let_def user_commands_def)
qed (simp add: user_commands_def)

lemma local_topics:
  assumes "\<not> is_topic_event ev"
  shows "\<exists>ns. sv_topics (server_after url jwt ev sv) = fst (notify_all ns (sv_topics sv)) \<and>
    snd (snd (server_exec url jwt ev sv)) = snd (notify_all ns (sv_topics sv))"
proof -
  have "\<exists>ns. sv_topics sv = fst (notify_all ns (sv_topics sv)) \<and> [] = snd (notify_all ns (sv_topics sv))"
    by (rule exI [of _ "[]"]) simp
  then show ?thesis using assms
    by (cases ev) (auto simp: is_topic_event_def notify_topics_def split_def Let_def)
qed

lemma first_reply:
  assumes "awaits ts (c # q)"
  shows "topics_enabled (Reply 0 (Inr ())) ts" "awaits (fst (topic_reply 0 (Inr ()) ts)) q"
    "subscribed (fst (topic_reply 0 (Inr ()) ts)) = subscribed ts"
  using assms by (auto simp: awaits_def topic_reply_def remove_nth_def Let_def map_eq_Cons_conv)

lemma redis_applied: "ch \<in> fold redis_apply cs {} \<longleftrightarrow> last_command ch cs = Some Subscribe"
proof (induction cs rule: rev_induct)
  case (snoc c cs)
  obtain k ch' where "c = (k, ch')" by (cases c)
  with snoc show ?case by (cases k) (auto simp: last_command_snoc)
qed simp

lemma last_command_None: "ch \<notin> snd ` set cs \<Longrightarrow> last_command ch cs = None"
proof (induction cs rule: rev_induct)
  case (snoc c cs)
  then show ?case by (cases c) (auto simp: last_command_snoc)
qed simp

section \<open>The invariant\<close>

definition link_inv :: "jwt_verify \<Rightarrow> link \<Rightarrow> bool" where
  "link_inv jwt l \<longleftrightarrow> server_inv jwt (ln_server l) \<and> claims_sound (ln_server l) \<and>
     awaits (sv_topics (ln_server l)) (ln_queue l) \<and>
     (\<exists>taken. claims_ok (sv_topics (ln_server l)) (taken @ ln_queue l) \<and> user_commands (taken @ ln_queue l) \<and>
        ln_live l = fold redis_apply taken {})"

lemma local_step_inv:
  assumes "link_inv jwt l" "server_enabled ev (ln_server l)" "\<not> is_topic_event ev"
  shows "link_inv jwt (local_step url jwt ev l)"
proof -
  let ?sv = "ln_server l"
  obtain taken where I: "server_inv jwt ?sv" "claims_sound ?sv" "awaits (sv_topics ?sv) (ln_queue l)"
    "claims_ok (sv_topics ?sv) (taken @ ln_queue l)" "user_commands (taken @ ln_queue l)"
    "ln_live l = fold redis_apply taken {}"
    using assms(1) by (auto simp: link_inv_def)
  have "ev \<noteq> TopicEvent (Reply k (Inl err))" for k err using assms(3) by (auto simp: is_topic_event_def)
  then have inv: "server_inv jwt (server_after url jwt ev ?sv)" "claims_sound (server_after url jwt ev ?sv)"
    using server_step_inv [OF I(1) assms(2)] I(2) by simp_all
  obtain ns where ns: "sv_topics (server_after url jwt ev ?sv) = fst (notify_all ns (sv_topics ?sv))"
    "snd (snd (server_exec url jwt ev ?sv)) = snd (notify_all ns (sv_topics ?sv))"
    using local_topics [OF assms(3)] by blast
  have step: "ln_server (local_step url jwt ev l) = server_after url jwt ev ?sv"
    "ln_queue (local_step url jwt ev l) = ln_queue l @ effect_commands (snd (notify_all ns (sv_topics ?sv)))"
    "ln_live (local_step url jwt ev l) = ln_live l"
    by (simp_all add: local_step_def split_def ns(2))
  show ?thesis unfolding link_inv_def step
    using inv notify_all_awaits [OF I(3), of ns] notify_all_claims [OF I(4), of ns] I(5,6)
    by (auto simp: ns(1) user_commands_def intro!: exI [of _ taken])
qed

lemma answer_inv:
  assumes "link_inv jwt l" "ln_queue l = c # q"
  shows "link_inv jwt (answer url jwt l)" "ln_queue (answer url jwt l) = q"
    "sv_registry (ln_server (answer url jwt l)) = sv_registry (ln_server l)"
proof -
  let ?sv = "ln_server l" and ?ev = "TopicEvent (Reply 0 (Inr ()))"
  obtain taken where I: "server_inv jwt ?sv" "claims_sound ?sv" "awaits (sv_topics ?sv) (c # q)"
    "claims_ok (sv_topics ?sv) (taken @ c # q)" "user_commands (taken @ c # q)"
    "ln_live l = fold redis_apply taken {}"
    using assms by (auto simp: link_inv_def)
  note F = first_reply [OF I(3)]
  have en: "server_enabled ?ev ?sv" using F(1) by simp
  have ts: "sv_topics (server_after url jwt ?ev ?sv) = fst (topic_reply 0 (Inr ()) (sv_topics ?sv))"
    by (simp add: split_def Let_def)
  have "claims_ok (fst (topic_reply 0 (Inr ()) (sv_topics ?sv))) (taken @ c # q)"
    using I(4) F(2,3) by (simp add: claims_ok_def awaits_def)
  moreover have "server_inv jwt (server_after url jwt ?ev ?sv)" "claims_sound (server_after url jwt ?ev ?sv)"
    using server_step_inv [OF I(1) en, of url] I(2) by (simp_all del: server_exec.simps)
  ultimately show "link_inv jwt (answer url jwt l)"
    using I(5,6) F(2) by (auto simp: link_inv_def answer_def assms(2) ts simp del: server_exec.simps
        intro!: exI [of _ "taken @ [c]"])
  show "ln_queue (answer url jwt l) = q" "sv_registry (ln_server (answer url jwt l)) = sv_registry ?sv"
    by (simp_all add: answer_def assms(2) split_def Let_def)
qed

lemma link_run_inv: "link_run url jwt l \<Longrightarrow> link_inv jwt l"
proof (induction rule: link_run.induct)
  case link_start
  have "server_inv jwt new_server" "claims_sound new_server"
    using server_run_inv [OF server_start] by (simp_all add: no_failed_command_def)
  then show ?case
    by (auto simp: link_inv_def new_link_def awaits_def new_server_def setLocalDeliverer_def new_topics_def
        claims_ok_def user_commands_def intro!: exI [of _ "[]"])
next
  case (link_local l ev)
  then show ?case by (simp add: local_step_inv)
next
  case (link_answer l)
  then obtain c q where "ln_queue l = c # q" by (cases "ln_queue l") auto
  with link_answer answer_inv(1) show ?case by blast
qed

text \<open>A channel without a command on its way is delivered exactly when its user is online.\<close>

lemma settled_channel:
  assumes "link_inv jwt l" "channelFor u \<notin> snd ` set (ln_queue l)"
  shows "channelFor u \<in> ln_live l \<longleftrightarrow> online (sv_registry (ln_server l)) u \<noteq> {}"
proof -
  obtain taken where I: "claims_sound (ln_server l)" "claims_ok (sv_topics (ln_server l)) (taken @ ln_queue l)"
    "ln_live l = fold redis_apply taken {}"
    using assms(1) by (auto simp: link_inv_def)
  have "filter (\<lambda>c. snd c = channelFor u) (rev (taken @ ln_queue l)) = filter (\<lambda>c. snd c = channelFor u) (rev taken)"
    using assms(2) by (simp add: filter_empty_conv image_iff) metis
  then have "last_command (channelFor u) (taken @ ln_queue l) = last_command (channelFor u) taken"
    by (simp add: last_command_def)
  with I(2,3) have "channelFor u \<in> ln_live l \<longleftrightarrow> channelFor u \<in> set (subscribed (sv_topics (ln_server l)))"
    by (simp add: redis_applied claims_ok_def)
  with I(1) show ?thesis by (simp add: claims_sound_def claims_agree_def user_clients_view)
qed

lemma live_channels_of_users:
  assumes "link_inv jwt l"
  shows "ln_live l \<subseteq> range channelFor"
proof
  fix ch assume "ch \<in> ln_live l"
  then obtain taken where t: "last_command ch taken = Some Subscribe" "user_commands (taken @ ln_queue l)"
    using assms by (auto simp: link_inv_def redis_applied)
  then have "ch \<in> snd ` set taken" using last_command_None [of ch taken] by auto
  then show "ch \<in> range channelFor" using t(2) by (auto simp: user_commands_def)
qed

lemma drain:
  "link_run url jwt l \<Longrightarrow> length (ln_queue l) = n \<Longrightarrow>
   link_run url jwt ((answer url jwt ^^ n) l) \<and> ln_queue ((answer url jwt ^^ n) l) = [] \<and>
   sv_registry (ln_server ((answer url jwt ^^ n) l)) = sv_registry (ln_server l)"
proof (induction n arbitrary: l)
  case (Suc n)
  then obtain c q where q: "ln_queue l = c # q" by (cases "ln_queue l") auto
  note A = answer_inv [OF link_run_inv [OF Suc.prems(1)] q, of url]
  have "link_run url jwt (answer url jwt l)" using Suc.prems(1) q by (simp add: link_answer)
  with Suc.IH [of "answer url jwt l"] A Suc.prems(2) q show ?case by (simp add: funpow_swap1)
qed simp

section \<open>Properties\<close>



end
