(* ===== verification/Arrival.thy ===== *)
theory Arrival
  imports Delivery Subscriptions
begin

text \<open>
  The counterpart of \<open>Delivery\<close>: not only is nothing misdelivered, a message is published and found
  by every open session of its target. Each replica is taken in any state of a run with its own
  connection to Redis, the only premise being that no command about the target's channel is still
  on its way.
\<close>

lemma link_run_server: "link_run url jwt l \<Longrightarrow> \<exists>evs. server_run url jwt evs (ln_server l)"
proof (induction rule: link_run.induct)
  case link_start
  have "server_run url jwt [] (ln_server new_link)" by (simp add: new_link_def server_start)
  then show ?case by blast
next
  case (link_local l ev)
  then obtain evs where "server_run url jwt evs (ln_server l)" by blast
  from server_run_after [OF this link_local.hyps(2)]
  have "server_run url jwt (evs @ [ev]) (ln_server (local_step url jwt ev l))"
    by (simp add: local_step_def split_def Let_def del: server_exec.simps)
  then show ?case by blast
next
  case (link_answer l)
  then obtain evs c q where run: "server_run url jwt evs (ln_server l)" and q: "ln_queue l = c # q"
    by (cases "ln_queue l") auto
  have "awaits (sv_topics (ln_server l)) (c # q)" using link_run_inv [OF link_answer.hyps(1)] q by (simp add: link_inv_def)
  from first_reply(1) [OF this] have "server_enabled (TopicEvent (Reply 0 (Inr ()))) (ln_server l)" by simp
  from server_run_after [OF run this]
  have "server_run url jwt (evs @ [TopicEvent (Reply 0 (Inr ()))]) (ln_server (answer url jwt l))"
    by (simp add: answer_def q del: server_exec.simps)
  then show ?case by blast
qed

lemma message_published:
  assumes "server_inv jwt sv" "server_enabled (Registry env (Message r data)) sv" "parseInboundFrame data = Send target message"
  shows "\<exists>t. buildUserTopicEnvelope message (Some (s_clientId (heap (sv_registry sv) ! r))) = Inr t \<and>
    non_blank (s_clientId (heap (sv_registry sv) ! r)) \<and>
    publishes (fst (snd (server_exec url jwt (Registry env (Message r data)) sv))) = [(channelFor target, t)]"
proof -
  let ?c = "s_clientId (heap (sv_registry sv) ! r)"
  have "r < length (heap (sv_registry sv))" using assms(2) by simp
  then have c: "non_blank ?c" using session_vouched [OF assms(1)] by (auto simp: vouched_def)
  then obtain t where t: "buildUserTopicEnvelope message (Some ?c) = Inr t"
    using envelope_built_and_parsed [of message "Some ?c"] parseInboundFrame_parsed [OF assms(3)] by auto
  then show ?thesis using assms(3) c
    by (simp add: handleMessage_def canSendTo_def sendToUser_def split_def Let_def)
qed


text \<open>A replica with one session whose commands have been answered.\<close>

definition sample_link :: "jstr \<Rightarrow> link" where
  "sample_link path =
     (let l = local_step sample_url sample_jwt (sample_request path) new_link
      in (answer sample_url sample_jwt ^^ length (ln_queue l)) l)"

lemma sample_link:
  "link_run sample_url sample_jwt (sample_link path)" "ln_queue (sample_link path) = []"
  "sv_registry (ln_server (sample_link path)) = sv_registry (server_after sample_url sample_jwt (sample_request path) new_server)"
proof -
  let ?l = "local_step sample_url sample_jwt (sample_request path) new_link"
  have run: "link_run sample_url sample_jwt ?l"
    by (rule link_local [OF link_start]) (simp_all add: sample_request_def is_topic_event_def)
  have "sv_registry (ln_server ?l) = sv_registry (server_after sample_url sample_jwt (sample_request path) new_server)"
    by (simp add: local_step_def new_link_def split_def Let_def del: server_exec.simps)
  with drain [OF run refl] show "link_run sample_url sample_jwt (sample_link path)" "ln_queue (sample_link path) = []"
    "sv_registry (ln_server (sample_link path)) = sv_registry (server_after sample_url sample_jwt (sample_request path) new_server)"
    by (simp_all add: sample_link_def Let_def del: server_exec.simps)
qed


end
