(* ===== verification/Url_Text.thy ===== *)
theory Url_Text
  imports Common
begin

text \<open>
  The text of a URL as the probe scripts write it: \<open>encodeURIComponent\<close> and the serialization of
  \<open>URLSearchParams\<close>, both over the UTF-8 bytes of a string. Strings are 16-bit code units, so a
  surrogate without its partner has no bytes: the first function throws on it, the second replaces
  it by U+FFFD.
\<close>

section \<open>UTF-8\<close>

definition code_point_bytes :: "nat \<Rightarrow> nat list" where
  "code_point_bytes n =
     (if n < 0x80 then [n]
      else if n < 0x800 then [0xC0 + n div 64, 0x80 + n mod 64]
      else if n < 0x10000 then [0xE0 + n div 4096, 0x80 + n div 64 mod 64, 0x80 + n mod 64]
      else [0xF0 + n div 262144, 0x80 + n div 4096 mod 64, 0x80 + n div 64 mod 64, 0x80 + n mod 64])"

definition surrogate_pair :: "code_unit \<Rightarrow> code_unit \<Rightarrow> nat" where
  "surrogate_pair c d = 0x10000 + (unat c - 0xD800) * 1024 + (unat d - 0xDC00)"

fun utf8_bytes :: "jstr \<Rightarrow> nat list option" where
  "utf8_bytes [] = Some []"
| "utf8_bytes (c # cs) =
     (if high_surrogate c then
        (case cs of
           d # ds \<Rightarrow> if low_surrogate d
                    then map_option (\<lambda>bs. code_point_bytes (surrogate_pair c d) @ bs) (utf8_bytes ds) else None
         | [] \<Rightarrow> None)
      else if low_surrogate c then None
      else map_option (\<lambda>bs. code_point_bytes (unat c) @ bs) (utf8_bytes cs))"

fun to_well_formed :: "jstr \<Rightarrow> jstr" where
  "to_well_formed [] = []"
| "to_well_formed (c # cs) =
     (if high_surrogate c then
        (case cs of
           d # ds \<Rightarrow> if low_surrogate d then c # d # to_well_formed ds else 0xFFFD # to_well_formed cs
         | [] \<Rightarrow> [0xFFFD])
      else if low_surrogate c then 0xFFFD # to_well_formed cs
      else c # to_well_formed cs)"

section \<open>Percent encoding\<close>

definition upper_hex :: "nat \<Rightarrow> code_unit" where
  "upper_hex d = (if d < 10 then of_nat (48 + d) else of_nat (55 + d))"

definition percent_byte :: "nat \<Rightarrow> jstr" where
  "percent_byte b = [37, upper_hex (b div 16), upper_hex (b mod 16)]"

definition alphanumeric :: "nat \<Rightarrow> bool" where
  "alphanumeric b \<longleftrightarrow> 48 \<le> b \<and> b \<le> 57 \<or> 65 \<le> b \<and> b \<le> 90 \<or> 97 \<le> b \<and> b \<le> 122"

text \<open>The other unreserved characters of \<open>encodeURIComponent\<close> are \<open>- _ . ! ~ * ' ( )\<close>, those of a
  form \<open>* - . _\<close>.\<close>

definition uri_byte :: "nat \<Rightarrow> jstr" where
  "uri_byte b =
     (if alphanumeric b \<or> b \<in> {45, 95, 46, 33, 126, 42, 39, 40, 41} then [of_nat b] else percent_byte b)"

definition encodeURIComponent :: "jstr \<Rightarrow> jstr throws" where
  "encodeURIComponent s =
     (case utf8_bytes s of
        None \<Rightarrow> Inl (Err (str ''URI malformed'') [(str ''name'', Str (str ''URIError''))])
      | Some bytes \<Rightarrow> Inr (concat (map uri_byte bytes)))"

definition form_byte :: "nat \<Rightarrow> jstr" where
  "form_byte b =
     (if b = 32 then [43]
      else if alphanumeric b \<or> b \<in> {42, 45, 46, 95} then [of_nat b] else percent_byte b)"

definition form_component :: "jstr \<Rightarrow> jstr" where
  "form_component s = concat (map form_byte (the (utf8_bytes (to_well_formed s))))"

definition form_encode :: "(jstr \<times> jstr) list \<Rightarrow> jstr" where
  "form_encode ps = join (str ''&'') (map (\<lambda>(k, v). form_component k @ str ''='' @ form_component v) ps)"

section \<open>Reading a form\<close>

text \<open>The inverse, as a server reads a query: pairs at \<open>&\<close>, key and value at the first \<open>=\<close>, \<open>+\<close> is
  a space, and bytes that are the UTF-8 of a string. Text that is not ASCII and bytes that are not
  UTF-8 are left open.\<close>

fun split_on :: "code_unit \<Rightarrow> jstr \<Rightarrow> jstr list" where
  "split_on sep [] = [[]]"
| "split_on sep (c # cs) =
     (if c = sep then [] # split_on sep cs
      else (case split_on sep cs of [] \<Rightarrow> [[c]] | p # ps \<Rightarrow> (c # p) # ps))"

fun percent_read :: "jstr \<Rightarrow> nat list option" where
  "percent_read [] = Some []"
| "percent_read (c # cs) =
     (if 0x80 \<le> c then None
      else if c = 43 then map_option ((#) 32) (percent_read cs)
      else if c = 37 then
        (case cs of
           a # b # rest \<Rightarrow>
             (case (hex_val a, hex_val b) of
                (Some h, Some l) \<Rightarrow> map_option ((#) (16 * h + l)) (percent_read rest)
              | _ \<Rightarrow> map_option ((#) 37) (percent_read cs))
         | _ \<Rightarrow> map_option ((#) 37) (percent_read cs))
      else map_option ((#) (unat c)) (percent_read cs))"

definition tail_byte :: "nat \<Rightarrow> bool" where
  "tail_byte b \<longleftrightarrow> 0x80 \<le> b \<and> b < 0xC0"

definition code_point_units :: "nat \<Rightarrow> jstr" where
  "code_point_units n =
     (if n < 0x10000 then [of_nat n]
      else [of_nat (0xD800 + (n - 0x10000) div 1024), of_nat (0xDC00 + (n - 0x10000) mod 1024)])"

fun utf8_read :: "nat list \<Rightarrow> jstr option" where
  "utf8_read [] = Some []"
| "utf8_read (b # bs) =
     (if b < 0x80 then map_option ((@) (code_point_units b)) (utf8_read bs)
      else if 0xC0 \<le> b \<and> b < 0xE0 then
        (case bs of
           c # rest \<Rightarrow>
             let n = (b - 0xC0) * 64 + (c - 0x80) in
             if tail_byte c \<and> 0x80 \<le> n then map_option ((@) (code_point_units n)) (utf8_read rest) else None
         | _ \<Rightarrow> None)
      else if 0xE0 \<le> b \<and> b < 0xF0 then
        (case bs of
           c # d # rest \<Rightarrow>
             let n = (b - 0xE0) * 4096 + (c - 0x80) * 64 + (d - 0x80) in
             if tail_byte c \<and> tail_byte d \<and> 0x800 \<le> n \<and> \<not> (0xD800 \<le> n \<and> n \<le> 0xDFFF)
             then map_option ((@) (code_point_units n)) (utf8_read rest) else None
         | _ \<Rightarrow> None)
      else if 0xF0 \<le> b then
        (case bs of
           c # d # e # rest \<Rightarrow>
             let n = (b - 0xF0) * 262144 + (c - 0x80) * 4096 + (d - 0x80) * 64 + (e - 0x80) in
             if tail_byte c \<and> tail_byte d \<and> tail_byte e \<and> 0x10000 \<le> n \<and> n < 0x110000
             then map_option ((@) (code_point_units n)) (utf8_read rest) else None
         | _ \<Rightarrow> None)
      else None)"

definition component_read :: "jstr \<Rightarrow> jstr option" where
  "component_read s = Option.bind (percent_read s) utf8_read"

definition pair_read :: "jstr \<Rightarrow> (jstr \<times> jstr) option" where
  "pair_read p =
     (let k = takeWhile (\<lambda>c. c \<noteq> 61) p; v = drop (Suc (length k)) p in
      case (component_read k, component_read v) of (Some k', Some v') \<Rightarrow> Some (k', v') | _ \<Rightarrow> None)"

definition form_read :: "jstr \<Rightarrow> (jstr \<times> jstr) list option" where
  "form_read q = those (map pair_read (filter (\<lambda>p. p \<noteq> []) (split_on 38 q)))"

section \<open>Round trips\<close>

lemma hex_val_upper [simp]: "d < 16 \<Longrightarrow> hex_val (upper_hex d) = Some d"
proof -
  have "list_all (\<lambda>d. hex_val (upper_hex d) = Some d) [0..<16]" by code_simp
  then show "d < 16 \<Longrightarrow> ?thesis" by (simp add: list_all_iff)
qed

lemma unit_of_byte: "b < 256 \<Longrightarrow> unat (of_nat b :: code_unit) = b"
  by (simp add: unat_of_nat)

lemma alphanumeric_bound: "alphanumeric b \<Longrightarrow> b < 128 \<and> b \<noteq> 37 \<and> b \<noteq> 43 \<and> b \<noteq> 38 \<and> b \<noteq> 61"
  by (auto simp: alphanumeric_def)

lemma percent_read_plain:
  assumes "b < 128" "b \<noteq> 37" "b \<noteq> 43"
  shows "percent_read (of_nat b # s) = map_option ((#) b) (percent_read s)"
proof -
  have "unat (of_nat b :: code_unit) = b" using assms(1) by (simp add: unit_of_byte)
  moreover from this have "\<not> 0x80 \<le> (of_nat b :: code_unit)" "(of_nat b :: code_unit) \<noteq> 37" "(of_nat b :: code_unit) \<noteq> 43"
    using assms by (auto simp: word_le_nat_alt dest: arg_cong [of _ _ unat])
  ultimately show ?thesis by simp
qed

lemma percent_read_byte: "b < 256 \<Longrightarrow> percent_read (percent_byte b @ s) = map_option ((#) b) (percent_read s)"
  by (simp add: percent_byte_def div_less_iff_less_mult)

lemma percent_read_form: "b < 256 \<Longrightarrow> percent_read (form_byte b @ s) = map_option ((#) b) (percent_read s)"
  using percent_read_plain [of b s] percent_read_byte [of b s] alphanumeric_bound [of b]
  by (auto simp: form_byte_def)

lemma percent_read_bytes:
  assumes "\<And>b s. b < 256 \<Longrightarrow> percent_read (enc b @ s) = map_option ((#) b) (percent_read s)"
  shows "list_all (\<lambda>b. b < 256) bytes \<Longrightarrow> percent_read (concat (map enc bytes)) = Some bytes"
  by (induction bytes) (simp_all add: assms)

lemma code_point_bytes_bound: "n < 0x110000 \<Longrightarrow> list_all (\<lambda>b. b < 256) (code_point_bytes n)"
proof -
  have "m mod 64 < 128" for m :: nat by (rule less_trans [of _ 64]) simp_all
  then show "n < 0x110000 \<Longrightarrow> ?thesis" by (simp add: code_point_bytes_def div_less_iff_less_mult)
qed

lemma code_point_parts:
  "n div 4096 * 4096 + n div 64 mod 64 * 64 + n mod 64 = (n :: nat)"
  "n div 262144 * 262144 + n div 4096 mod 64 * 4096 + n div 64 mod 64 * 64 + n mod 64 = n"
proof -
  have "n div 4096 = n div 64 div 64" "n div 262144 = n div 4096 div 64" by (simp_all add: div_mult2_eq [symmetric])
  moreover have "n div 64 = n div 64 div 64 * 64 + n div 64 mod 64" by simp
  moreover have "n div 4096 = n div 4096 div 64 * 64 + n div 4096 mod 64" by simp
  moreover have "n = n div 64 * 64 + n mod 64" by simp
  ultimately show "n div 4096 * 4096 + n div 64 mod 64 * 64 + n mod 64 = n"
    "n div 262144 * 262144 + n div 4096 mod 64 * 4096 + n div 64 mod 64 * 64 + n mod 64 = n" by linarith+
qed

lemma utf8_read_code_point:
  assumes "n < 0x110000" "\<not> (0xD800 \<le> n \<and> n \<le> 0xDFFF)"
  shows "utf8_read (code_point_bytes n @ bs) = map_option ((@) (code_point_units n)) (utf8_read bs)"
proof -
  have t: "tail_byte (0x80 + m mod 64)" for m by (simp add: tail_byte_def)
  consider "n < 0x80" | "0x80 \<le> n" "n < 0x800" | "0x800 \<le> n" "n < 0x10000" | "0x10000 \<le> n" by linarith
  then show ?thesis
  proof cases
    case 2
    then have "n div 64 < 32" by (simp add: div_less_iff_less_mult)
    with 2 t show ?thesis by (simp add: code_point_bytes_def Let_def)
  next
    case 3
    have "n div 4096 < 16" using 3 by (simp add: div_less_iff_less_mult)
    with 3 t assms(2) code_point_parts(1) [of n] show ?thesis by (simp add: code_point_bytes_def Let_def)
  next
    case 4
    with t assms(1) code_point_parts(2) [of n] show ?thesis by (simp add: code_point_bytes_def Let_def)
  qed (simp add: code_point_bytes_def)
qed

lemma code_point_units_unit:
  "\<not> high_surrogate c \<Longrightarrow> \<not> low_surrogate c \<Longrightarrow>
    code_point_units (unat c) = [c] \<and> unat c < 0x110000 \<and> \<not> (0xD800 \<le> unat c \<and> unat c \<le> 0xDFFF)"
  using unsigned_less [of c, where ?'a = nat]
  by (auto simp: code_point_units_def high_surrogate_def low_surrogate_def word_le_nat_alt)

lemma code_point_units_pair:
  assumes "high_surrogate c" "low_surrogate d"
  shows "code_point_units (surrogate_pair c d) = [c, d] \<and> surrogate_pair c d < 0x110000 \<and>
    \<not> (0xD800 \<le> surrogate_pair c d \<and> surrogate_pair c d \<le> 0xDFFF)"
proof -
  have c: "0xD800 \<le> unat c" "unat c \<le> 0xDBFF" and d: "0xDC00 \<le> unat d" "unat d \<le> 0xDFFF"
    using assms by (simp_all add: high_surrogate_def low_surrogate_def word_le_nat_alt)
  let ?h = "unat c - 0xD800" and ?l = "unat d - 0xDC00"
  have "?l < 1024" "?h < 1024" using c d by linarith+
  then have "(?h * 1024 + ?l) div 1024 = ?h" "(?h * 1024 + ?l) mod 1024 = ?l" by simp_all
  moreover have "surrogate_pair c d = 0x10000 + (?h * 1024 + ?l)" by (simp add: surrogate_pair_def)
  moreover have "of_nat (0xD800 + ?h) = c" "of_nat (0xDC00 + ?l) = d"
    using c(1) d(1) by simp_all
  ultimately show ?thesis using \<open>?l < 1024\<close> \<open>?h < 1024\<close> unfolding code_point_units_def
    by (simp del: of_nat_add of_nat_numeral)
qed

lemma utf8_roundtrip:
  "utf8_bytes s = Some bytes \<Longrightarrow> utf8_read bytes = Some s \<and> list_all (\<lambda>b. b < 256) bytes"
proof (induction s arbitrary: bytes rule: utf8_bytes.induct)
  case (2 c cs)
  show ?case
  proof (cases "high_surrogate c")
    case True
    with "2.prems" obtain d ds bs where "cs = d # ds" "low_surrogate d" "utf8_bytes ds = Some bs"
      "bytes = code_point_bytes (surrogate_pair c d) @ bs" by (auto split: list.splits if_splits)
    with "2.IH"(1) [OF True] code_point_units_pair [OF True] show ?thesis
      by (simp add: utf8_read_code_point code_point_bytes_bound)
  next
    case False
    with "2.prems" obtain bs where "\<not> low_surrogate c" "utf8_bytes cs = Some bs" "bytes = code_point_bytes (unat c) @ bs"
      by (auto split: if_splits)
    with "2.IH"(2) [OF False] code_point_units_unit [OF False] show ?thesis
      by (simp add: utf8_read_code_point code_point_bytes_bound)
  qed
qed simp

text \<open>Replacing lone surrogates leaves a string with bytes, and one that has bytes unchanged.\<close>

lemma to_well_formed_bytes: "utf8_bytes (to_well_formed s) \<noteq> None"
proof (induction s rule: to_well_formed.induct)
  case (2 c cs)
  have r: "\<not> high_surrogate 0xFFFD" "\<not> low_surrogate 0xFFFD" by (simp_all add: high_surrogate_def low_surrogate_def)
  show ?case
  proof (cases "high_surrogate c")
    case True
    show ?thesis
    proof (cases cs)
      case (Cons d ds)
      then show ?thesis using True r "2.IH"(1) [OF True Cons] "2.IH"(2) [OF True Cons]
        by (cases "low_surrogate d") (simp_all del: to_well_formed.simps add: to_well_formed.simps(2) [of c])
    qed (use True r in simp)
  next
    case False
    then show ?thesis using r "2.IH"(3,4) by (cases "low_surrogate c") simp_all
  qed
qed simp

lemma to_well_formed_id: "utf8_bytes s = Some bytes \<Longrightarrow> to_well_formed s = s"
proof (induction s arbitrary: bytes rule: utf8_bytes.induct)
  case (2 c cs)
  show ?case
  proof (cases "high_surrogate c")
    case True
    with "2.prems" obtain d ds bs where "cs = d # ds" "low_surrogate d" "utf8_bytes ds = Some bs"
      by (auto split: list.splits if_splits)
    with "2.IH"(1) [OF True] True show ?thesis by simp
  next
    case False
    with "2.prems" obtain bs where "\<not> low_surrogate c" "utf8_bytes cs = Some bs" by (auto split: if_splits)
    with "2.IH"(2) [OF False] False show ?thesis by simp
  qed
qed simp

lemma form_component_roundtrip: "component_read (form_component s) = Some (to_well_formed s)"
proof -
  obtain bytes where b: "utf8_bytes (to_well_formed s) = Some bytes" using to_well_formed_bytes by blast
  from utf8_roundtrip [OF b] have "percent_read (form_component s) = Some bytes" "utf8_read bytes = Some (to_well_formed s)"
    using percent_read_bytes [of form_byte, OF percent_read_form] by (simp_all add: form_component_def b)
  then show ?thesis by (simp add: component_read_def)
qed

lemma percent_read_uri: "b < 256 \<Longrightarrow> percent_read (uri_byte b @ s) = map_option ((#) b) (percent_read s)"
  using percent_read_plain [of b s] percent_read_byte [of b s] alphanumeric_bound [of b]
  by (auto simp: uri_byte_def)

lemma uri_component_roundtrip: "encodeURIComponent s = Inr t \<Longrightarrow> component_read t = Some s"
proof -
  assume "encodeURIComponent s = Inr t"
  then obtain bytes where b: "utf8_bytes s = Some bytes" "t = concat (map uri_byte bytes)"
    by (auto simp: encodeURIComponent_def split: option.splits)
  from utf8_roundtrip [OF b(1)] show ?thesis
    using percent_read_bytes [of uri_byte, OF percent_read_uri] by (simp add: b(2) component_read_def)
qed

text \<open>A whole form is read back, key by key.\<close>

lemma form_byte_safe: "b < 256 \<Longrightarrow> 38 \<notin> set (form_byte b) \<and> 61 \<notin> set (form_byte b)"
proof -
  have "list_all (\<lambda>b. 38 \<notin> set (form_byte b) \<and> 61 \<notin> set (form_byte b)) [0..<256]" by code_simp
  then show "b < 256 \<Longrightarrow> ?thesis" by (simp add: list_all_iff)
qed

lemma form_component_safe: "38 \<notin> set (form_component s) \<and> 61 \<notin> set (form_component s)"
proof -
  obtain bytes where b: "utf8_bytes (to_well_formed s) = Some bytes" using to_well_formed_bytes by blast
  with utf8_roundtrip [OF b] show ?thesis using form_byte_safe by (fastforce simp: form_component_def list_all_iff)
qed

lemma split_on_plain: "sep \<notin> set p \<Longrightarrow> split_on sep p = [p]"
  by (induction p) auto

lemma split_on_append: "sep \<notin> set p \<Longrightarrow> split_on sep (p @ sep # q) = p # split_on sep q"
  by (induction p) auto

lemma split_on_join: "ps \<noteq> [] \<Longrightarrow> \<forall>p \<in> set ps. sep \<notin> set p \<Longrightarrow> split_on sep (join [sep] ps) = ps"
proof (induction "[sep]" ps rule: join.induct)
  case (3 p q ps)
  then show ?case by (simp add: split_on_append)
qed (simp_all add: split_on_plain)

lemma pair_read_form: "pair_read (form_component k @ 61 # form_component v) = Some (to_well_formed k, to_well_formed v)"
proof -
  have "takeWhile (\<lambda>c. c \<noteq> 61) (form_component k @ 61 # form_component v) = form_component k"
    using form_component_safe [of k] by (subst takeWhile_append2) auto
  then show ?thesis by (simp add: pair_read_def form_component_roundtrip)
qed

lemma form_roundtrip:
  "form_read (form_encode ps) = Some (map (\<lambda>(k, v). (to_well_formed k, to_well_formed v)) ps)"
proof (cases "ps = []")
  case False
  let ?texts = "map (\<lambda>(k, v). form_component k @ str ''='' @ form_component v) ps"
  have eq: "str ''='' = [61]" "str ''&'' = [38]" by (simp_all add: str_def cu_def)
  have "split_on 38 (form_encode ps) = ?texts" unfolding form_encode_def eq(2)
    using False form_component_safe by (intro split_on_join) (auto simp: eq(1))
  moreover have "filter (\<lambda>p. p \<noteq> []) ?texts = ?texts" by (auto simp: filter_id_conv eq(1))
  moreover have "map pair_read ?texts = map Some (map (\<lambda>(k, v). (to_well_formed k, to_well_formed v)) ps)"
    by (auto simp: pair_read_form eq(1))
  moreover have "those (map Some xs) = Some xs" for xs :: "(jstr \<times> jstr) list" by (induction xs) simp_all
  ultimately show ?thesis by (simp only: form_read_def)
qed (simp add: form_encode_def form_read_def)

lemma uri_byte_safe: "b < 256 \<Longrightarrow> 38 \<notin> set (uri_byte b)"
proof -
  have "list_all (\<lambda>b. 38 \<notin> set (uri_byte b)) [0..<256]" by code_simp
  then show "b < 256 \<Longrightarrow> ?thesis" by (simp add: list_all_iff)
qed

lemma uri_component_safe: "encodeURIComponent s = Inr t \<Longrightarrow> 38 \<notin> set t"
proof -
  assume "encodeURIComponent s = Inr t"
  then obtain bytes where b: "utf8_bytes s = Some bytes" "t = concat (map uri_byte bytes)"
    by (auto simp: encodeURIComponent_def split: option.splits)
  with utf8_roundtrip [OF b(1)] show ?thesis using uri_byte_safe by (fastforce simp: list_all_iff)
qed

lemma key_query_read:
  assumes "encodeURIComponent v = Inr t"
  shows "form_read (str ''key='' @ t) = Some [(str ''key'', v)]"
proof -
  have k: "str ''key='' = str ''key'' @ [61]" by (simp add: str_def cu_def)
  have "38 \<notin> set (str ''key='' @ t)" using uri_component_safe [OF assms] by (simp add: str_def cu_def)
  then have "split_on 38 (str ''key='' @ t) = [str ''key='' @ t]" by (rule split_on_plain)
  moreover have "takeWhile (\<lambda>c. c \<noteq> 61) (str ''key='' @ t) = str ''key''" by (simp add: str_def cu_def)
  moreover have "component_read (str ''key'') = Some (str ''key'')"
    by (simp add: component_read_def str_def cu_def code_point_units_def)
  ultimately show ?thesis using uri_component_roundtrip [OF assms] by (simp add: form_read_def pair_read_def k)
qed

end
