(* ===== verification/Redis_Probe.thy ===== *)
theory Redis_Probe
  imports Auth Redis_Cache Url_Text
begin

text \<open>
  \<open>scripts/test-redis.ts\<close>, the probe that writes and reads an entry over the REST interface and
  checks that a write without a token is refused, and the part of the application that answers it:
  the guard, the key pattern and the controller, composed as the framework composes them. The
  script's file system, \<open>sign\<close> of \<open>jsonwebtoken\<close> and \<open>fetch\<close> are parameters.
\<close>

section \<open>What the scripts share\<close>

record sign_options =
  sg_algorithm :: jstr
  sg_issuer :: jstr
  sg_audience :: jstr
  sg_expiresIn :: jstr

record script_env =
  sc_env :: environment
  sc_argv :: "jstr list"
  sc_now :: int
  sc_readFile :: "jstr \<Rightarrow> jstr throws"
  sc_join :: "jstr list \<Rightarrow> jstr"
  sc_cwd :: jstr
  sc_sign :: "jsval \<Rightarrow> jstr \<Rightarrow> sign_options \<Rightarrow> jstr throws"

definition PROBE_DEFAULT_ISSUER :: jstr where "PROBE_DEFAULT_ISSUER = str ''test-issuer''"
definition PROBE_DEFAULT_AUDIENCE :: jstr where "PROBE_DEFAULT_AUDIENCE = str ''test-audience''"

datatype console = Printed jstr | PrintedError jstr | PrintedFail jsval

definition readPrivateKey :: "script_env \<Rightarrow> jstr throws" where
  "readPrivateKey sc =
     sc_readFile sc
       (case sc_env sc (str ''TEST_PRIVATE_KEY_PATH'') of
          Some path \<Rightarrow> path
        | None \<Rightarrow> sc_join sc [sc_cwd sc, str ''test'', str ''fixtures'', str ''test-private.pem''])"

section \<open>The Redis probe\<close>

definition DEFAULT_API_URL :: jstr where "DEFAULT_API_URL = str ''http://localhost:3000''"
definition DEFAULT_KEY :: "int \<Rightarrow> jstr" where "DEFAULT_KEY now = str ''probe-'' @ int_text now"
definition DEFAULT_VALUE :: jstr where "DEFAULT_VALUE = str ''hello-redis''"

definition redis_signProbeToken :: "script_env \<Rightarrow> jstr \<Rightarrow> jstr \<Rightarrow> jstr \<Rightarrow> jstr throws" where
  "redis_signProbeToken sc privateKey issuer audience =
     sc_sign sc (Obj []) privateKey
       \<lparr>sg_algorithm = str ''RS256'', sg_issuer = issuer, sg_audience = audience, sg_expiresIn = str ''5m''\<rparr>"

record fetch_request =
  fr_method :: jstr
  fr_url :: jstr
  fr_headers :: "(jstr \<times> jstr) list"
  fr_body :: "jstr option"

text \<open>\<open>rs_json\<close> is how \<open>response.json()\<close> settles.\<close>

record fetch_response =
  rs_status :: int
  rs_json :: "jsval throws"

type_synonym 'w fetch = "fetch_request \<Rightarrow> ('w, fetch_response) action"

text \<open>A script runs on the world behind \<open>fetch\<close> and its console.\<close>

type_synonym ('w, 'a) script = "('w \<times> console list, 'a) action"

definition then_do :: "('w, 'a) action \<Rightarrow> ('a \<Rightarrow> ('w, 'b) action) \<Rightarrow> ('w, 'b) action" where
  "then_do m f w = (case m w of (Inl e, w') \<Rightarrow> (Inl e, w') | (Inr x, w') \<Rightarrow> f x w')"

definition settled :: "'a throws \<Rightarrow> ('w, 'a) action" where
  "settled r w = (r, w)"

definition console_log :: "jstr \<Rightarrow> ('w, unit) script" where
  "console_log line = (\<lambda>(w, out). (Inr (), (w, out @ [Printed line])))"

definition await_fetch :: "'w fetch \<Rightarrow> fetch_request \<Rightarrow> ('w, fetch_response) script" where
  "await_fetch fetch req = (\<lambda>(w, out). let (r, w') = fetch req w in (r, (w', out)))"

definition response_ok :: "fetch_response \<Rightarrow> bool" where
  "response_ok response \<longleftrightarrow> 200 \<le> rs_status response \<and> rs_status response \<le> 299"

definition readJsonBody :: "fetch_response \<Rightarrow> jstr \<Rightarrow> jsval throws" where
  "readJsonBody response label =
     (if \<not> response_ok response then
        Inl (new_error (label @ str '' failed with status '' @ int_text (rs_status response)))
      else (case rs_json response of
         Inl e \<Rightarrow> Inl e
       | Inr body \<Rightarrow>
           if \<not> is_object body then Inl (new_error (label @ str '' returned a non-object body''))
           else Inr body))"

definition probe_entry :: "jstr \<Rightarrow> jstr \<Rightarrow> jsval" where
  "probe_entry key val = Obj [(str ''key'', Str key), (str ''value'', Str val)]"

definition stringified_text :: "jsval \<Rightarrow> jstr" where
  "stringified_text v = (case JSON_stringify v of Text t \<Rightarrow> t | _ \<Rightarrow> [])"

definition post_request :: "jstr \<Rightarrow> (jstr \<times> jstr) list \<Rightarrow> jsval \<Rightarrow> fetch_request" where
  "post_request apiUrl headers body =
     \<lparr>fr_method = str ''POST'', fr_url = apiUrl @ str ''/redis'', fr_headers = headers,
      fr_body = Some (stringified_text body)\<rparr>"

definition get_request :: "jstr \<Rightarrow> (jstr \<times> jstr) list \<Rightarrow> jstr \<Rightarrow> fetch_request" where
  "get_request apiUrl headers encoded =
     \<lparr>fr_method = str ''GET'', fr_url = apiUrl @ str ''/redis?key='' @ encoded, fr_headers = headers,
      fr_body = None\<rparr>"

definition probeWriteRead ::
  "(jsval \<Rightarrow> jstr) \<Rightarrow> 'w fetch \<Rightarrow> jstr \<Rightarrow> jstr \<Rightarrow> jstr \<Rightarrow> jstr \<Rightarrow> ('w, unit) script" where
  "probeWriteRead to_string fetch apiUrl token key val =
     (let headers = [(str ''Authorization'', str ''Bearer '' @ token), (str ''Content-Type'', str ''application/json'')] in
      then_do (await_fetch fetch (post_request apiUrl headers (probe_entry key val))) (\<lambda>response.
      then_do (settled (readJsonBody response (str ''POST /redis''))) (\<lambda>written.
      if get_prop written (str ''result'') \<noteq> Str (str ''OK'') then
        settled (Inl (new_error (str ''POST /redis returned result '' @ to_string (get_prop written (str ''result'')))))
      else
        then_do (console_log (str ''PASS: wrote key=\"'' @ key @ str ''\" value=\"'' @ val @ str ''\"'')) (\<lambda>_.
        then_do (settled (encodeURIComponent key)) (\<lambda>encoded.
        then_do (await_fetch fetch (get_request apiUrl headers encoded)) (\<lambda>response'.
        then_do (settled (readJsonBody response' (str ''GET /redis''))) (\<lambda>entry.
        if get_prop entry (str ''value'') \<noteq> Str val then
          settled (Inl (new_error (str ''GET /redis returned value '' @ to_string (get_prop entry (str ''value''))
            @ str '', expected '' @ val)))
        else console_log (str ''PASS: read back key=\"'' @ key @ str ''\" value=\"'' @ val @ str ''\"''))))))))"

definition probeUnauthorized :: "'w fetch \<Rightarrow> jstr \<Rightarrow> jstr \<Rightarrow> ('w, unit) script" where
  "probeUnauthorized fetch apiUrl key =
     then_do (await_fetch fetch (post_request apiUrl [(str ''Content-Type'', str ''application/json'')]
       (probe_entry key (str ''should-not-persist'')))) (\<lambda>response.
     if rs_status response \<noteq> 401 then
       settled (Inl (new_error (str ''Expected unauthenticated POST /redis to return 401, got '' @ int_text (rs_status response))))
     else console_log (str ''PASS: unauthenticated write rejected with 401''))"

definition argument :: "script_env \<Rightarrow> nat \<Rightarrow> jstr option" where
  "argument sc i = (if i < length (sc_argv sc) then Some (sc_argv sc ! i) else None)"

definition redis_probe_main :: "(jsval \<Rightarrow> jstr) \<Rightarrow> 'w fetch \<Rightarrow> script_env \<Rightarrow> ('w, unit) script" where
  "redis_probe_main to_string fetch sc =
     (let apiUrl = or_default DEFAULT_API_URL (sc_env sc (str ''API_URL''));
          key = or_default (DEFAULT_KEY (sc_now sc)) (argument sc 2);
          val = or_default DEFAULT_VALUE (argument sc 3);
          issuer = or_default PROBE_DEFAULT_ISSUER (sc_env sc (str ''JWT_ISSUER''));
          audience = or_default PROBE_DEFAULT_AUDIENCE (sc_env sc (str ''JWT_AUDIENCE''))
      in then_do (settled (readPrivateKey sc)) (\<lambda>privateKey.
         then_do (settled (redis_signProbeToken sc privateKey issuer audience)) (\<lambda>token.
         then_do (console_log (str ''Probing '' @ apiUrl @ str '' as issuer=\"'' @ issuer @ str ''\"'')) (\<lambda>_.
         then_do (probeWriteRead to_string fetch apiUrl token key val) (\<lambda>_.
         then_do (probeUnauthorized fetch apiUrl key) (\<lambda>_.
         console_log (str ''All Redis REST probes passed'')))))))"

text \<open>The exit code and the console of a run.\<close>

definition run_redis_probe :: "(jsval \<Rightarrow> jstr) \<Rightarrow> 'w fetch \<Rightarrow> script_env \<Rightarrow> 'w \<Rightarrow> nat \<times> console list \<times> 'w" where
  "run_redis_probe to_string fetch sc w =
     (case redis_probe_main to_string fetch sc (w, []) of
        (Inr _, (w', out)) \<Rightarrow> (0, out, w')
      | (Inl e, (w', out)) \<Rightarrow> (1, out @ [PrintedFail e], w'))"

section \<open>The application behind the probe\<close>

text \<open>A request passes the guard, then the pipe that checks the key, then the controller; the
  statuses are those of the decorators and of the thrown exceptions.\<close>

type_synonym 'w app_state = "'w \<times> verifier_state"

definition http_context :: "header_value \<Rightarrow> guard_context" where
  "http_context header = \<lparr>gc_isPublic = None, gc_type = str ''http'', gc_request = Headers header\<rparr>"

definition http_answer :: "int \<Rightarrow> ('a \<Rightarrow> jsval) \<Rightarrow> 'a http \<Rightarrow> int \<times> jsval option" where
  "http_answer success body answer =
     (case answer of
        HttpOk r \<Rightarrow> (success, Some (body r)) | HttpNotFound _ \<Rightarrow> (404, None) | HttpFailed _ \<Rightarrow> (500, None))"

definition set_body :: "set_redis_response \<Rightarrow> jsval" where
  "set_body r = Obj [(str ''key'', Str (sr_key r)), (str ''value'', Str (sr_value r)), (str ''result'', or_null (sr_result r))]"

definition get_body :: "get_redis_response \<Rightarrow> jsval" where
  "get_body r = Obj [(str ''key'', Str (gr_key r)), (str ''value'', Str (gr_value r)),
     (str ''expiresIn'', case gr_expiresIn r of None \<Rightarrow> Null | Some t \<Rightarrow> Num (Fin (of_int t)))]"

definition guarded ::
  "jwt_verify \<Rightarrow> jwt_config throws \<Rightarrow> header_value \<Rightarrow> jstr \<Rightarrow> ('w \<Rightarrow> (int \<times> jsval option) \<times> 'w)
     \<Rightarrow> 'w app_state \<Rightarrow> (int \<times> jsval option) \<times> 'w app_state" where
  "guarded jwt loaded header key handler = (\<lambda>(w, vst).
     (case canActivate jwt loaded (http_context header) vst of
        (Unauthorized _, vst') \<Rightarrow> ((401, None), (w, vst'))
      | (Allowed _, vst') \<Rightarrow>
          if \<not> key_matches key then ((400, None), (w, vst'))
          else (let (answer, w') = handler w in (answer, (w', vst')))))"

definition app_post where
  "app_post jwt loaded client header key val =
     guarded jwt loaded header key (\<lambda>w.
       let (answer, w') = setValue client \<lparr>dto_key = key, dto_value = val, dto_options = Missing\<rparr> w
       in (http_answer 201 set_body answer, w'))"

definition app_get where
  "app_get jwt loaded client header key =
     guarded jwt loaded header key (\<lambda>w.
       let (answer, w') = getValue client key w in (http_answer 200 get_body answer, w'))"

text \<open>What \<open>fetch\<close> and the server's HTTP stack promise: a request reaches the handlers with its
  body parsed, its query decoded and its \<open>Authorization\<close> header as sent, if that is printable
  ASCII without outer white space, and the answer comes back with its status and its body printed
  and parsed.\<close>

definition header_of :: "(jstr \<times> jstr) list \<Rightarrow> header_value" where
  "header_of headers = (case map_of headers (str ''Authorization'') of None \<Rightarrow> NoHeader | Some h \<Rightarrow> OneHeader h)"

definition plain_header :: "jstr \<Rightarrow> bool" where
  "plain_header h \<longleftrightarrow> list_all (\<lambda>c. 32 \<le> c \<and> c < 127) h \<and> trim h = h"

definition answered :: "fetch_response throws \<times> 'w \<Rightarrow> (int \<times> jsval option) \<times> 'w \<Rightarrow> bool" where
  "answered r app \<longleftrightarrow>
     snd r = snd app \<and>
     (\<exists>response. fst r = Inr response \<and> rs_status response = fst (fst app) \<and>
        (\<forall>b t v. snd (fst app) = Some b \<longrightarrow> JSON_stringify b = Text t \<longrightarrow> JSON_parse t = Some v \<longrightarrow>
           rs_json response = Inr v))"

definition serves_api ::
  "'w app_state fetch \<Rightarrow> jwt_verify \<Rightarrow> jwt_config throws \<Rightarrow> 'w redis_client \<Rightarrow> jstr \<Rightarrow> bool" where
  "serves_api fetch jwt loaded client apiUrl \<longleftrightarrow>
     (\<forall>headers body key val w. list_all (plain_header \<circ> snd) headers \<longrightarrow> JSON_parse body = Some (probe_entry key val) \<longrightarrow>
        answered (fetch \<lparr>fr_method = str ''POST'', fr_url = apiUrl @ str ''/redis'', fr_headers = headers, fr_body = Some body\<rparr> w)
          (app_post jwt loaded client (header_of headers) key val w)) \<and>
     (\<forall>headers q key w. list_all (plain_header \<circ> snd) headers \<longrightarrow> form_read q = Some [(str ''key'', key)] \<longrightarrow>
        answered (fetch \<lparr>fr_method = str ''GET'', fr_url = apiUrl @ str ''/redis?'' @ q, fr_headers = headers, fr_body = None\<rparr> w)
          (app_get jwt loaded client (header_of headers) key w))"

text \<open>Redis on an unconditional \<open>SET\<close> with the default expiry.\<close>

definition redis_stores :: "'w redis_client \<Rightarrow> (jstr \<Rightarrow> jstr \<Rightarrow> 'w \<Rightarrow> 'w) \<Rightarrow> bool" where
  "redis_stores client put \<longleftrightarrow>
     (\<forall>k v w. c_set client k v
          (Some \<lparr>so_expiration = Some \<lparr>ex_type = Exp_EX, ex_value = Fin 3600\<rparr>, so_condition = None\<rparr>) w
        = (Inr (Some (str ''OK'')), put k v w) \<and>
      c_get client k (put k v w) = (Inr (Some v), put k v w) \<and>
      (\<exists>ttl. c_ttl client k (put k v w) = (Inr ttl, put k v w) \<and> 0 \<le> ttl \<and> ttl \<le> 3600))"

section \<open>Facts\<close>

lemma probe_keys [simp]:
  "array_index (str ''key'') = None" "array_index (str ''value'') = None" "array_index (str ''result'') = None"
  "array_index (str ''expiresIn'') = None"
  by (rule str_key_not_index, simp add: cu_def is_digit_def)+

lemma probe_entry_text: "JSON_parse (stringified_text (probe_entry key val)) = Some (probe_entry key val)"
proof -
  have "wf_json (probe_entry key val)" by (simp add: probe_entry_def canonical_def key_less_def)
  then obtain t where "JSON_stringify (probe_entry key val) = Text t" "JSON_parse t = Some (probe_entry key val)"
    by (rule json_roundtrip)
  then show ?thesis by (simp add: stringified_text_def)
qed

lemma set_body_wf: "wf_json (set_body r)"
  by (simp add: set_body_def or_null_def canonical_def key_less_def split: option.split)

lemma get_body_wf: "(\<forall>t. gr_expiresIn r = Some t \<longrightarrow> 0 \<le> t \<and> t \<le> 3600) \<Longrightarrow> wf_json (get_body r)"
  by (auto simp: get_body_def canonical_def key_less_def is_double_def to_double_int split: option.split)

text \<open>A well-formed body arrives as it was sent.\<close>

lemma answered_body:
  assumes "answered r ((status, Some b), w')" "wf_json b"
  shows "\<exists>response. r = (Inr response, w') \<and> rs_status response = status \<and> rs_json response = Inr b"
proof -
  obtain t where "JSON_stringify b = Text t" "JSON_parse t = Some b" using assms(2) by (rule json_roundtrip)
  with assms(1) show ?thesis by (cases r) (auto simp: answered_def)
qed

lemma answered_status:
  "answered r ((status, body), w') \<Longrightarrow> \<exists>response. r = (Inr response, w') \<and> rs_status response = status"
  by (cases r) (auto simp: answered_def)

definition token_text :: "jstr \<Rightarrow> bool" where
  "token_text token \<longleftrightarrow> token \<noteq> [] \<and> list_all (\<lambda>c. 33 \<le> c \<and> c < 127) token"

lemma token_not_space: "33 \<le> c \<Longrightarrow> c < 127 \<Longrightarrow> \<not> js_space c \<and> \<not> line_terminator c"
  by (auto simp: js_space_def line_terminator_def word_le_nat_alt word_less_nat_alt)

lemma token_bearer: "token_text token \<Longrightarrow> extractBearerToken (Some (str ''Bearer '' @ token)) = Some token"
proof -
  assume t: "token_text token"
  have "str ''Bearer '' @ token = [] @ str ''Bearer'' @ str '' '' @ token @ []" by (simp add: str_def)
  moreover have "trim token = token" using t token_not_space
    by (intro trim_id) (auto simp: token_text_def list_all_iff)
  moreover have "map fold_ascii (str ''Bearer'') = str ''bearer''" "list_all js_space (str '' '')"
    by (simp_all add: str_def cu_def fold_ascii_def js_space_def)
  ultimately show ?thesis using t token_not_space unfolding extractBearerToken_iff token_text_def list_all_iff
    by (metis empty_iff list.set(1) not_Cons_self2 str_eq_Nil list.distinct(1))
qed

lemma token_header: "token_text token \<Longrightarrow> plain_header (str ''Bearer '' @ token)"
proof -
  assume t: "token_text token"
  then have "\<not> js_space (last token)" "token \<noteq> []" using token_not_space by (auto simp: token_text_def list_all_iff)
  moreover have "\<not> js_space (hd (str ''Bearer ''))" by (simp add: str_def cu_def js_space_def)
  ultimately have "trim (str ''Bearer '' @ token) = str ''Bearer '' @ token" by (intro trim_id) simp_all
  moreover have "list_all (\<lambda>c. 32 \<le> c \<and> c < 127) (str ''Bearer '')" by (simp add: str_def cu_def)
  moreover have "33 \<le> c \<Longrightarrow> 32 \<le> c" for c :: code_unit by (simp add: word_le_nat_alt)
  ultimately show ?thesis using t by (auto simp: plain_header_def token_text_def list_all_iff)
qed

text \<open>The guard on a request with a token that verifies, and on one without a token.\<close>

lemma guard_accepts:
  assumes "token_text token" "vst = Some config \<or> vst = None \<and> loaded = Inr config" "isJwtPayload payload"
    and "jwt token (jwt_publicKey config) (jwt_options config) = Inr payload"
  shows "canActivate jwt loaded (http_context (OneHeader (str ''Bearer '' @ token))) vst
    = (Allowed (Some payload), Some config)"
proof -
  have "verify_token jwt loaded token vst = (Inr payload, Some config)"
    using assms(2-4) by (auto simp: verify_token_def getConfig_def)
  then show ?thesis using token_bearer [OF assms(1)]
    by (simp add: canActivate_def http_context_def isHttpRequest_def readAuthHeader_def verifyHeader_def)
qed

lemma guard_refuses: "\<exists>reason. canActivate jwt loaded (http_context NoHeader) vst = (Unauthorized reason, vst)"
  by (simp add: canActivate_def http_context_def isHttpRequest_def readAuthHeader_def verifyHeader_def
      extractBearerToken_def)

lemma post_stores:
  assumes "canActivate jwt loaded (http_context header) vst = (Allowed user, vst')" "key_matches key" "redis_stores client put"
  shows "app_post jwt loaded client header key val (w, vst) =
    ((201, Some (set_body \<lparr>sr_key = key, sr_value = val, sr_result = Some (str ''OK'')\<rparr>)), (put key val w, vst'))"
proof -
  have "assertValidKey (Str key) = Inr key" using assms(2) by (simp add: assertValidKey_iff key_matches_iff)
  then show ?thesis using assms
    by (simp add: app_post_def guarded_def setValue_def set_entry_def toSetOptions_def DEFAULT_SET_TTL_SECONDS_def
        redis_stores_def http_answer_def Let_def)
qed

lemma get_reads:
  assumes "canActivate jwt loaded (http_context header) vst = (Allowed user, vst')" "key_matches key" "redis_stores client put"
  shows "\<exists>r. app_get jwt loaded client header key (put key val w, vst) = ((200, Some (get_body r)), (put key val w, vst')) \<and>
    gr_value r = val \<and> wf_json (get_body r)"
proof -
  obtain ttl where ttl: "c_ttl client key (put key val w) = (Inr ttl, put key val w)" "0 \<le> ttl" "ttl \<le> 3600"
    and get: "c_get client key (put key val w) = (Inr (Some val), put key val w)"
    using assms(3) unfolding redis_stores_def by blast
  have "assertValidKey (Str key) = Inr key" using assms(2) by (simp add: assertValidKey_iff key_matches_iff)
  then have "getEntry client (Str key) (put key val w) =
      (Inr (Some \<lparr>entry_value = val, entry_expiresIn = Some ttl\<rparr>), put key val w)"
    using ttl get by (simp add: getEntry_def)
  then show ?thesis using assms(1,2) ttl(2,3)
    by (auto simp: app_get_def guarded_def getValue_def http_answer_def Let_def intro!: get_body_wf
        exI [of _ "\<lparr>gr_key = key, gr_value = val, gr_expiresIn = Some ttl\<rparr>"])
qed

text \<open>What each probe prints when the application answers it.\<close>

lemma write_read_passes:
  assumes api: "serves_api fetch jwt loaded client apiUrl" and redis: "redis_stores client put"
    and key: "key_matches key" "encodeURIComponent key = Inr encoded"
    and token: "token_text token" "vst = Some config \<or> vst = None \<and> loaded = Inr config" "isJwtPayload payload"
      "jwt token (jwt_publicKey config) (jwt_options config) = Inr payload"
  shows "probeWriteRead to_string fetch apiUrl token key val ((w, vst), out) =
    (Inr (), ((put key val w, Some config), out @
       [Printed (str ''PASS: wrote key=\"'' @ key @ str ''\" value=\"'' @ val @ str ''\"''),
        Printed (str ''PASS: read back key=\"'' @ key @ str ''\" value=\"'' @ val @ str ''\"'')]))"
proof -
  let ?headers = "[(str ''Authorization'', str ''Bearer '' @ token), (str ''Content-Type'', str ''application/json'')]"
  have h: "list_all (plain_header \<circ> snd) ?headers" "header_of ?headers = OneHeader (str ''Bearer '' @ token)"
    using token_header [OF token(1)]
    by (simp_all add: header_of_def plain_header_def) (simp add: str_def cu_def trim_def js_space_def)
  have guard: "canActivate jwt loaded (http_context (OneHeader (str ''Bearer '' @ token))) vst = (Allowed (Some payload), Some config)"
    if "vst = Some config \<or> vst = None \<and> loaded = Inr config" for vst
    using guard_accepts [of token vst config loaded payload jwt] token that by blast
  let ?r = "\<lparr>sr_key = key, sr_value = val, sr_result = Some (str ''OK'')\<rparr>"
  have "answered (fetch (post_request apiUrl ?headers (probe_entry key val)) (w, vst))
      ((201, Some (set_body ?r)), (put key val w, Some config))"
    using api h probe_entry_text [of key val] post_stores [OF guard [OF token(2)] key(1) redis, of val w]
    unfolding serves_api_def post_request_def by metis
  from answered_body [OF this set_body_wf] obtain post where post:
    "fetch (post_request apiUrl ?headers (probe_entry key val)) (w, vst) = (Inr post, (put key val w, Some config))"
    "rs_status post = 201" "rs_json post = Inr (set_body ?r)" by blast
  obtain g where g: "app_get jwt loaded client (OneHeader (str ''Bearer '' @ token)) key (put key val w, Some config)
      = ((200, Some (get_body g)), (put key val w, Some config))" "gr_value g = val" "wf_json (get_body g)"
    using get_reads [OF guard [of "Some config"] key(1) redis] by blast
  have "apiUrl @ str ''/redis?key='' @ encoded = apiUrl @ str ''/redis?'' @ (str ''key='' @ encoded)" by (simp add: str_def)
  then have "answered (fetch (get_request apiUrl ?headers encoded) (put key val w, Some config))
      ((200, Some (get_body g)), (put key val w, Some config))"
    using api h key_query_read [OF key(2)] g(1) unfolding serves_api_def get_request_def by metis
  from answered_body [OF this g(3)] obtain answer where answer:
    "fetch (get_request apiUrl ?headers encoded) (put key val w, Some config) = (Inr answer, (put key val w, Some config))"
    "rs_status answer = 200" "rs_json answer = Inr (get_body g)" by blast
  have "get_prop (set_body ?r) (str ''result'') = Str (str ''OK'')" "get_prop (get_body g) (str ''value'') = Str val"
    using g(2) by (simp_all add: set_body_def get_body_def or_undefined_def or_null_def)
  moreover have "is_object (set_body ?r)" "is_object (get_body g)" by (simp_all add: set_body_def get_body_def)
  ultimately show ?thesis using post answer key(2)
    by (simp add: probeWriteRead_def then_do_def settled_def await_fetch_def console_log_def readJsonBody_def
        response_ok_def Let_def)
qed

lemma unauthorized_passes:
  assumes "serves_api fetch jwt loaded client apiUrl"
  shows "probeUnauthorized fetch apiUrl key (w, out) =
    (Inr (), (w, out @ [Printed (str ''PASS: unauthenticated write rejected with 401'')]))"
proof -
  obtain v vst where w: "w = (v, vst)" by fastforce
  let ?headers = "[(str ''Content-Type'', str ''application/json'')]"
  have h: "list_all (plain_header \<circ> snd) ?headers" "header_of ?headers = NoHeader"
    by (simp_all add: header_of_def plain_header_def) (simp add: str_def cu_def trim_def js_space_def)
  have "app_post jwt loaded client NoHeader key val (v, vst) = ((401, None), (v, vst))" for val
    using guard_refuses [of jwt loaded vst] by (auto simp: app_post_def guarded_def)
  then have "answered (fetch (post_request apiUrl ?headers (probe_entry key (str ''should-not-persist''))) w) ((401, None), w)"
    using assms h probe_entry_text [of key "str ''should-not-persist''"]
    unfolding serves_api_def post_request_def w by metis
  from answered_status [OF this] show ?thesis
    by (auto simp: probeUnauthorized_def then_do_def await_fetch_def console_log_def)
qed

section \<open>Properties\<close>


text \<open>The application itself as a \<open>fetch\<close>, on one in-memory entry.\<close>

definition local_response :: "(int \<times> jsval option) \<times> 'w \<Rightarrow> fetch_response throws \<times> 'w" where
  "local_response answer =
     (let ((status, body), w) = answer in
      (Inr \<lparr>rs_status = status,
            rs_json = (case body of
               None \<Rightarrow> Inl Null
             | Some b \<Rightarrow> (case JSON_parse (stringified_text b) of None \<Rightarrow> Inl Null | Some v \<Rightarrow> Inr v))\<rparr>, w))"

definition local_fetch :: "jwt_verify \<Rightarrow> jwt_config throws \<Rightarrow> 'w redis_client \<Rightarrow> jstr \<Rightarrow> 'w app_state fetch" where
  "local_fetch jwt loaded client apiUrl req w =
     (if fr_method req = str ''POST'' then
        (case JSON_parse (or_default [] (fr_body req)) of
           Some (Obj [(_, Str key), (_, Str val)]) \<Rightarrow>
             local_response (app_post jwt loaded client (header_of (fr_headers req)) key val w)
         | _ \<Rightarrow> (Inl Null, w))
      else
        (case form_read (drop (length (apiUrl @ str ''/redis?'')) (fr_url req)) of
           Some [(_, key)] \<Rightarrow> local_response (app_get jwt loaded client (header_of (fr_headers req)) key w)
         | _ \<Rightarrow> (Inl Null, w)))"

lemma local_response_answers: "answered (local_response r) r"
  by (cases r) (auto simp: answered_def local_response_def stringified_text_def split: prod.split option.split)

lemma local_fetch_serves: "serves_api (local_fetch jwt loaded client apiUrl) jwt loaded client apiUrl"
  by (simp add: serves_api_def local_fetch_def probe_entry_def or_default_def local_response_answers)

definition sample_script :: script_env where
  "sample_script = \<lparr>sc_env = (\<lambda>_. None), sc_argv = [str ''node'', str ''test-redis'', str ''k'', str ''v''], sc_now = 0,
     sc_readFile = (\<lambda>_. Inr (str ''pem'')), sc_join = concat, sc_cwd = str ''/app'',
     sc_sign = (\<lambda>_ _ _. Inr (str ''t''))\<rparr>"


end
