(* ===== verification/Ws_Probe.thy ===== *)
theory Ws_Probe
  imports Redis_Probe
begin

text \<open>
  \<open>scripts/test-ws.ts\<close>, the probe that opens a session with a signed token and keeps it, or asserts
  that a connection without a token is closed with 1008. The script is a state machine over the
  events of its client socket; \<open>new WebSocket\<close>, which throws on a URL it does not accept, is a
  parameter. The last part runs it against the gateway.
\<close>

section \<open>Arguments\<close>

definition NO_AUTH :: jstr where "NO_AUTH = str ''--no-auth''"

definition positionalArgs :: "script_env \<Rightarrow> jstr list" where
  "positionalArgs sc = filter (\<lambda>arg. arg \<noteq> NO_AUTH) (drop 2 (sc_argv sc))"

definition positional :: "script_env \<Rightarrow> nat \<Rightarrow> jstr option" where
  "positional sc i = (if i < length (positionalArgs sc) then Some (positionalArgs sc ! i) else None)"

definition probe_endpoint :: "script_env \<Rightarrow> jstr" where
  "probe_endpoint sc = or_default (str ''ws://localhost:3000/ws'') (positional sc 0)"

definition requireArgs :: "script_env \<Rightarrow> (jstr \<times> jstr) throws" where
  "requireArgs sc =
     (case (positional sc 1, positional sc 2) of
        (Some userId, Some clientId) \<Rightarrow>
          if userId = [] \<or> clientId = [] then Inl (new_error (str ''Missing required <userId> <clientId> arguments. Usage: npx ts-node --transpile-only scripts/test-ws.ts [endpoint] <userId> <clientId> [--no-auth]''))
          else Inr (userId, clientId)
      | _ \<Rightarrow> Inl (new_error (str ''Missing required <userId> <clientId> arguments. Usage: npx ts-node --transpile-only scripts/test-ws.ts [endpoint] <userId> <clientId> [--no-auth]'')))"

definition ws_readPrivateKey :: "script_env \<Rightarrow> jstr throws" where
  "ws_readPrivateKey sc =
     sc_readFile sc
       (case sc_env sc (str ''TEST_PRIVATE_KEY_PATH'') of
          Some path \<Rightarrow> path
        | None \<Rightarrow> sc_join sc [sc_cwd sc, str ''test'', str ''fixtures'', str ''test-private.pem''])"

definition ws_signProbeToken :: "script_env \<Rightarrow> jstr \<Rightarrow> jstr \<Rightarrow> jstr throws" where
  "ws_signProbeToken sc privateKey userId =
     sc_sign sc (Obj [(str ''sub'', Str userId)]) privateKey
       \<lparr>sg_algorithm = str ''RS256'',
        sg_issuer = or_default PROBE_DEFAULT_ISSUER (sc_env sc (str ''JWT_ISSUER'')),
        sg_audience = or_default PROBE_DEFAULT_AUDIENCE (sc_env sc (str ''JWT_AUDIENCE'')), sg_expiresIn = str ''5m''\<rparr>"

section \<open>The client socket\<close>

text \<open>What the listeners of \<open>connect\<close> close over, and which of its one-shot listeners are left.\<close>

record connection =
  cn_label :: jstr
  cn_expectClose :: bool
  cn_intentional :: bool
  cn_onOpen :: bool
  cn_onError :: bool
  cn_onClose :: bool

datatype client_event = Opened | SocketFailed jsval | SocketClosed int jstr | MessageArrived jstr | WaitOver

datatype client_action = OpenUrl jstr | SendText jstr | CloseClient | StartWait int

text \<open>Where \<open>main\<close> is suspended. \<open>Settled\<close> is after its promise settled, \<open>Crashed\<close> after an
  \<open>error\<close> event nobody listens to.\<close>

datatype probe_stage = Connecting | AwaitingClose | Waiting | Settled | Crashed

record ws_probe =
  pb_stage :: probe_stage
  pb_rejected :: bool
  pb_userId :: jstr
  pb_conn :: "connection option"
  pb_onMessage :: bool
  pb_exitCode :: nat
  pb_out :: "console list"

definition print_line :: "jstr \<Rightarrow> ws_probe \<Rightarrow> ws_probe" where
  "print_line line p = p\<lparr>pb_out := pb_out p @ [Printed line]\<rparr>"

text \<open>\<open>main().catch\<close>.\<close>

definition main_failed :: "jsval \<Rightarrow> ws_probe \<Rightarrow> ws_probe" where
  "main_failed err p = p\<lparr>pb_stage := Settled, pb_exitCode := 1, pb_out := pb_out p @ [PrintedFail err]\<rparr>"

definition connect ::
  "(jstr \<Rightarrow> unit throws) \<Rightarrow> jstr \<Rightarrow> jstr \<Rightarrow> bool \<Rightarrow> ws_probe \<Rightarrow> ws_probe \<times> client_action list" where
  "connect ws_new url label expectClose p =
     (case ws_new url of
        Inl e \<Rightarrow> (main_failed e p, [])
      | Inr _ \<Rightarrow>
          (p\<lparr>pb_stage := Connecting,
             pb_conn := Some \<lparr>cn_label = label, cn_expectClose = expectClose, cn_intentional = False,
               cn_onOpen = True, cn_onError = True, cn_onClose = True\<rparr>\<rparr>, [OpenUrl url]))"

definition connect_on_close :: "int \<Rightarrow> jstr \<Rightarrow> connection \<Rightarrow> ws_probe \<Rightarrow> ws_probe" where
  "connect_on_close code reason cn p =
     (if \<not> cn_onClose cn then p
      else
        (let p' = p\<lparr>pb_conn := Some (cn\<lparr>cn_onClose := False\<rparr>)\<rparr> in
         if \<not> cn_intentional cn \<and> \<not> cn_expectClose cn then
           p'\<lparr>pb_exitCode := 1, pb_out := pb_out p' @ [PrintedError (str ''FAIL: '' @ cn_label cn
             @ str '' closed unexpectedly with '' @ int_text code @ str '' ('' @ reason @ str '')'')]\<rparr>
         else p'))"

section \<open>The two probes\<close>

definition rejected_url :: "script_env \<Rightarrow> jstr \<Rightarrow> jstr \<Rightarrow> jstr" where
  "rejected_url sc userId clientId =
     probe_endpoint sc @ str ''?'' @ form_encode [(str ''userId'', userId), (str ''clientId'', clientId)]"

definition session_url :: "script_env \<Rightarrow> jstr \<Rightarrow> jstr \<Rightarrow> jstr \<Rightarrow> jstr" where
  "session_url sc userId clientId token =
     probe_endpoint sc @ str ''?''
       @ form_encode [(str ''userId'', userId), (str ''clientId'', clientId), (str ''token'', token)]"

definition probeRejected :: "(jstr \<Rightarrow> unit throws) \<Rightarrow> script_env \<Rightarrow> ws_probe \<Rightarrow> ws_probe \<times> client_action list" where
  "probeRejected ws_new sc p =
     (case requireArgs sc of
        Inl e \<Rightarrow> (main_failed e p, [])
      | Inr (userId, clientId) \<Rightarrow>
          connect ws_new (rejected_url sc userId clientId) (str ''rejected-probe'') True
            (print_line (str ''Connecting without a token: '' @ probe_endpoint sc) (p\<lparr>pb_rejected := True\<rparr>)))"

definition new_probe :: ws_probe where
  "new_probe = \<lparr>pb_stage = Connecting, pb_rejected = False, pb_userId = [], pb_conn = None, pb_onMessage = False,
     pb_exitCode = 0, pb_out = []\<rparr>"

definition ws_probe_main :: "(jstr \<Rightarrow> unit throws) \<Rightarrow> script_env \<Rightarrow> ws_probe \<times> client_action list" where
  "ws_probe_main ws_new sc =
     (case requireArgs sc of
        Inl e \<Rightarrow> (main_failed e new_probe, [])
      | Inr (userId, clientId) \<Rightarrow>
          if NO_AUTH \<in> set (sc_argv sc) then probeRejected ws_new sc new_probe
          else (case ws_readPrivateKey sc of
             Inl e \<Rightarrow> (main_failed e new_probe, [])
           | Inr privateKey \<Rightarrow>
               (case ws_signProbeToken sc privateKey userId of
                  Inl e \<Rightarrow> (main_failed e new_probe, [])
                | Inr token \<Rightarrow>
                    connect ws_new (session_url sc userId clientId token) (str ''session'') False
                      (print_line (str ''Connecting to '' @ probe_endpoint sc @ str '' with userId='' @ userId
                         @ str '' clientId='' @ clientId) (new_probe\<lparr>pb_userId := userId\<rparr>)))))"

text \<open>\<open>main\<close> after the socket opened: the text it sends and the wait of 120 seconds.\<close>

definition ping_text :: "jstr \<Rightarrow> jstr" where
  "ping_text userId =
     stringified_text (Obj [(str ''op'', Str SEND_MESSAGE_OP), (str ''target'', Str userId), (str ''message'', Str (str ''PING''))])"

definition session_opened :: "ws_probe \<Rightarrow> ws_probe \<times> client_action list" where
  "session_opened p =
     (print_line (str ''Waiting 120 seconds before closing the connection'')
        (print_line (str ''PASS: message sent'')
          ((print_line (str ''PASS: authenticated connection opened'') p)\<lparr>pb_onMessage := True, pb_stage := Waiting\<rparr>)),
      [SendText (ping_text (pb_userId p)), StartWait 120000])"

definition wait_over :: "connection \<Rightarrow> ws_probe \<Rightarrow> ws_probe \<times> client_action list" where
  "wait_over cn p =
     (print_line (str ''Connection closed'') (p\<lparr>pb_conn := Some (cn\<lparr>cn_intentional := True\<rparr>), pb_stage := Settled\<rparr>),
      [CloseClient])"

definition close_received :: "int \<Rightarrow> ws_probe \<Rightarrow> ws_probe" where
  "close_received closeCode p =
     (if closeCode \<noteq> 1008 then
        main_failed (new_error (str ''Expected rejection with 1008, got '' @ int_text closeCode)) p
      else print_line (str ''PASS: tokenless connection rejected with close code 1008'') (p\<lparr>pb_stage := Settled\<rparr>))"

text \<open>One event. Listeners run in the order they were added: that of \<open>connect\<close> before that of
  \<open>waitForClose\<close>. A rejection of a settled promise is ignored.\<close>

definition ws_probe_step :: "client_event \<Rightarrow> ws_probe \<Rightarrow> ws_probe \<times> client_action list" where
  "ws_probe_step ev p =
     (case pb_conn p of
        None \<Rightarrow> (p, [])
      | Some cn \<Rightarrow>
          if pb_stage p = Crashed then (p, [])
          else (case ev of
             Opened \<Rightarrow>
               if \<not> cn_onOpen cn then (p, [])
               else
                 (let p' = p\<lparr>pb_conn := Some (cn\<lparr>cn_onOpen := False\<rparr>)\<rparr> in
                  if pb_stage p \<noteq> Connecting then (p', [])
                  else if pb_rejected p then (p'\<lparr>pb_stage := AwaitingClose\<rparr>, [])
                  else session_opened p')
           | SocketFailed err \<Rightarrow>
               if \<not> cn_onError cn then (p\<lparr>pb_stage := Crashed, pb_exitCode := 1\<rparr>, [])
               else
                 (let p' = p\<lparr>pb_conn := Some (cn\<lparr>cn_onError := False\<rparr>)\<rparr> in
                  if pb_stage p = Connecting then (main_failed err p', []) else (p', []))
           | SocketClosed code reason \<Rightarrow>
               (let p' = connect_on_close code reason cn p in
                if pb_stage p = AwaitingClose then (close_received code p', []) else (p', []))
           | MessageArrived text \<Rightarrow>
               if pb_onMessage p then (print_line (str ''Received message: '' @ text) p, []) else (p, [])
           | WaitOver \<Rightarrow> if pb_stage p = Waiting then wait_over cn p else (p, [])))"

definition ws_probe_run :: "client_event list \<Rightarrow> ws_probe \<Rightarrow> ws_probe" where
  "ws_probe_run evs p = fold (\<lambda>ev p. fst (ws_probe_step ev p)) evs p"

section \<open>Facts\<close>

lemma ws_probe_run_simps [simp]:
  "ws_probe_run [] p = p" "ws_probe_run (ev # evs) p = ws_probe_run evs (fst (ws_probe_step ev p))"
  "ws_probe_run (as @ bs) p = ws_probe_run bs (ws_probe_run as p)"
  by (simp_all add: ws_probe_run_def)

text \<open>The usage text marks the endpoint as optional, but the first argument is always read as one: a
  user and a client alone are refused.\<close>

lemma endpoint_is_not_optional: "length (positionalArgs sc) = 2 \<Longrightarrow> isl (requireArgs sc)"
  by (simp add: requireArgs_def positional_def)

text \<open>Messages only add to the console.\<close>

lemma messages_print: "\<exists>out. ws_probe_run (map MessageArrived ms) p = p\<lparr>pb_out := out\<rparr>"
proof (induction ms arbitrary: p)
  case Nil
  have "p = p\<lparr>pb_out := pb_out p\<rparr>" by simp
  then show ?case by (metis list.map(1) ws_probe_run_simps(1))
next
  case (Cons m ms)
  have "\<exists>out. fst (ws_probe_step (MessageArrived m) p) = p\<lparr>pb_out := out\<rparr>"
  proof (cases "pb_conn p = None \<or> pb_stage p = Crashed \<or> \<not> pb_onMessage p")
    case True
    then have "fst (ws_probe_step (MessageArrived m) p) = p\<lparr>pb_out := pb_out p\<rparr>"
      by (auto simp: ws_probe_step_def split: option.split)
    then show ?thesis by blast
  next
    case False
    then show ?thesis by (auto simp: ws_probe_step_def print_line_def)
  qed
  then obtain out where out: "fst (ws_probe_step (MessageArrived m) p) = p\<lparr>pb_out := out\<rparr>" by blast
  obtain out' where "ws_probe_run (map MessageArrived ms) (p\<lparr>pb_out := out\<rparr>) = p\<lparr>pb_out := out\<rparr>\<lparr>pb_out := out'\<rparr>"
    using Cons.IH by blast
  with out show ?case by auto
qed

lemma ping_routed: "non_blank u \<Longrightarrow> parseInboundFrame (RawString (ping_text u)) = Send u (Str (str ''PING''))"
  using send_frame_routed [of "Str (str ''PING'')" u]
  by (auto simp: ping_text_def stringified_text_def send_frame_def)

lemma token_utf8: "list_all (\<lambda>c. 33 \<le> c \<and> c < 127) s \<Longrightarrow> utf8_bytes s \<noteq> None"
  by (induction s) (auto simp: high_surrogate_def low_surrogate_def word_le_nat_alt word_less_nat_alt)

lemma token_non_blank: "token_text token \<Longrightarrow> non_blank token"
  using token_not_space by (cases token) (auto simp: token_text_def non_blank_def trim_eq_Nil)

text \<open>The server's reading of a query, documented for \<open>URLSearchParams\<close>.\<close>

definition reads_queries :: "url_params \<Rightarrow> jstr \<Rightarrow> bool" where
  "reads_queries url path \<longleftrightarrow> (\<forall>q ps. form_read q = Some ps \<longrightarrow> url (path @ str ''?'' @ q) = Some (map_of ps))"

definition upgrade_args :: "jstr \<Rightarrow> jstr \<Rightarrow> jsval list" where
  "upgrade_args path q = [Obj [(str ''url'', Str (path @ str ''?'' @ q))]]"

lemma probe_identity:
  assumes "reads_queries url path"
  shows "extractGatewayIdentity url (upgrade_args path (form_encode ps)) =
    (let params = map_of (map (\<lambda>(k, v). (to_well_formed k, to_well_formed v)) ps) in
     \<lparr>gi_userId = parseNonBlank (or_null (params (str ''userId''))),
      gi_clientId = parseNonBlank (or_null (params (str ''clientId''))),
      gi_token = parseNonBlank (or_null (params (str ''token'')))\<rparr>)"
  using assms form_roundtrip [of ps]
  by (simp add: extractGatewayIdentity_def upgrade_args_def hasUpgradeUrl_def or_undefined_def reads_queries_def
      parse_ids Let_def)

lemma param_names [simp]:
  "to_well_formed (str ''userId'') = str ''userId''" "to_well_formed (str ''clientId'') = str ''clientId''"
  "to_well_formed (str ''token'') = str ''token''"
  by (simp_all add: str_def cu_def high_surrogate_def low_surrogate_def)

text \<open>How the two waits end.\<close>

lemma close_verdict:
  assumes "pb_stage p = AwaitingClose" "pb_exitCode p = 0" "pb_conn p = Some cn" "cn_expectClose cn"
  shows "pb_stage (fst (ws_probe_step (SocketClosed code reason) p)) = Settled"
    "pb_exitCode (fst (ws_probe_step (SocketClosed code reason) p)) = 0 \<longleftrightarrow> code = 1008"
  using assms
  by (simp_all add: ws_probe_step_def close_received_def connect_on_close_def main_failed_def print_line_def Let_def)

lemma wait_verdict:
  assumes "pb_stage p = Waiting" "pb_exitCode p = 0" "pb_conn p = Some cn" "cn_onClose cn" "\<not> cn_intentional cn"
    "\<not> cn_expectClose cn"
  shows "pb_exitCode (ws_probe_run [WaitOver, SocketClosed code reason] p) = 0"
    "pb_exitCode (ws_probe_run [SocketClosed code reason, WaitOver] p) = 1"
  using assms by (simp_all add: ws_probe_step_def connect_on_close_def wait_over_def print_line_def Let_def)

text \<open>A URL parser that reads the query of \<open>/ws\<close>, and two command lines.\<close>

definition sample_query :: url_params where
  "sample_query u = map_option map_of (form_read (drop (length (str ''/ws'' @ str ''?'')) u))"

lemma sample_query_reads: "reads_queries sample_query (str ''/ws'')"
  by (simp add: reads_queries_def sample_query_def)

definition sample_command :: "jstr list \<Rightarrow> script_env" where
  "sample_command flags = sample_script\<lparr>sc_argv :=
     [str ''node'', str ''test-ws'', str ''ws://localhost:3000/ws'', str ''ann'', str ''c1''] @ flags\<rparr>"

lemma sample_command_args:
  "requireArgs (sample_command []) = Inr (str ''ann'', str ''c1'')" "NO_AUTH \<notin> set (sc_argv (sample_command []))"
  "requireArgs (sample_command [NO_AUTH]) = Inr (str ''ann'', str ''c1'')" "NO_AUTH \<in> set (sc_argv (sample_command [NO_AUTH]))"
  by (simp_all add: requireArgs_def positional_def positionalArgs_def sample_command_def NO_AUTH_def)

section \<open>Properties\<close>





end
