(* ===== verification/Dynamo.thy ===== *)
theory Dynamo
  imports Redis_Cache
begin

text \<open>
  \<open>src/dynamo\<close>: the settings of the DynamoDB client and the bootstrap decision
  (\<open>dynamo.constants.ts\<close>), the table schemas (\<open>table-defs.ts\<close>), item lifetimes (\<open>ttl.ts\<close>) and
  the bootstrap of tables and TTL (\<open>dynamo.service.ts\<close>). The client's \<open>send\<close> is a parameter on an
  explicit world; an operation returns its result or the value it throws, the world, and its log.
\<close>

section \<open>Lifetimes\<close>

definition TTL_ATTRIBUTE_NAME :: jstr where "TTL_ATTRIBUTE_NAME = str ''expiresAt''"
definition EXPIRING_ITEM_TTL_SECONDS :: int where "EXPIRING_ITEM_TTL_SECONDS = 30 * 24 * 60 * 60"
definition CLIENT_PRESENCE_TTL_SECONDS :: int where "CLIENT_PRESENCE_TTL_SECONDS = 24 * 60 * 60"

text \<open>The clock is in milliseconds.\<close>

definition buildExpiresAt :: "int option \<Rightarrow> int option \<Rightarrow> int \<Rightarrow> int" where
  "buildExpiresAt ttlSeconds nowEpochSeconds now =
     or_default (now div 1000) nowEpochSeconds + or_default EXPIRING_ITEM_TTL_SECONDS ttlSeconds"

section \<open>Settings\<close>

record dynamo_config =
  dc_endpoint :: jstr
  dc_hostname :: jstr
  dc_region :: jstr
  dc_accessKeyId :: jstr
  dc_secretAccessKey :: jstr

definition DEFAULT_DYNAMODB_ENDPOINT :: jstr where "DEFAULT_DYNAMODB_ENDPOINT = str ''http://localhost:8000''"
definition DEFAULT_AWS_REGION :: jstr where "DEFAULT_AWS_REGION = str ''us-east-1''"
definition DEFAULT_DUMMY_CREDENTIAL :: jstr where "DEFAULT_DUMMY_CREDENTIAL = str ''local''"

definition orLocalCredential :: "jstr option \<Rightarrow> jstr" where
  "orLocalCredential v = (if v = None \<or> v = Some [] then DEFAULT_DUMMY_CREDENTIAL else the v)"

text \<open>The URL parser gives protocol and host name, or fails.\<close>

record parsed_url =
  url_protocol :: jstr
  url_hostname :: jstr

definition getDynamoConfig :: "(jstr \<Rightarrow> parsed_url option) \<Rightarrow> environment \<Rightarrow> dynamo_config throws" where
  "getDynamoConfig parse_url env =
     (let rawEndpoint = or_default DEFAULT_DYNAMODB_ENDPOINT (env (str ''DYNAMODB_ENDPOINT''));
          invalid = Inl (new_error (str ''Invalid DYNAMODB_ENDPOINT: '' @ rawEndpoint))
      in case parse_url rawEndpoint of
           None \<Rightarrow> invalid
         | Some parsed \<Rightarrow>
             if url_protocol parsed \<noteq> str ''http:'' \<and> url_protocol parsed \<noteq> str ''https:'' then invalid
             else
               (let region = or_default DEFAULT_AWS_REGION (env (str ''AWS_REGION'')) in
                if trim region = [] then Inl (new_error (str ''Invalid AWS_REGION: must be a non-empty string''))
                else Inr \<lparr>dc_endpoint = rawEndpoint, dc_hostname = url_hostname parsed, dc_region = region,
                   dc_accessKeyId = orLocalCredential (env (str ''AWS_ACCESS_KEY_ID'')),
                   dc_secretAccessKey = orLocalCredential (env (str ''AWS_SECRET_ACCESS_KEY''))\<rparr>))"

definition LOCAL_DYNAMO_HOSTNAMES :: "jstr list" where
  "LOCAL_DYNAMO_HOSTNAMES =
     [str ''localhost'', str ''127.0.0.1'', str ''::1'', str ''dynamodb'', str ''host.docker.internal'']"

definition isLocalDynamoHostname :: "jstr \<Rightarrow> bool" where
  "isLocalDynamoHostname hostname =
     (let n = to_lower (trim hostname);
          normalized = (if starts_with n (str ''['') \<and> ends_with n (str '']'')
                        then take (length n - 2) (drop 1 n) else n)
      in normalized \<in> set LOCAL_DYNAMO_HOSTNAMES)"

record bootstrap_config =
  bc_hostname :: jstr
  bc_shouldBootstrap :: bool

definition getDynamoBootstrapConfig ::
  "(jstr \<Rightarrow> parsed_url option) \<Rightarrow> environment \<Rightarrow> bootstrap_config throws" where
  "getDynamoBootstrapConfig parse_url env =
     (case getDynamoConfig parse_url env of
        Inl e \<Rightarrow> Inl e
      | Inr config \<Rightarrow>
          Inr \<lparr>bc_hostname = dc_hostname config,
               bc_shouldBootstrap = (isLocalDynamoHostname (dc_hostname config)
                 \<or> fst (parseEnvFlag (env (str ''DYNAMODB_BOOTSTRAP'')) no_flag_options))\<rparr>)"

section \<open>Table schemas\<close>

datatype attribute_type = AttrS | AttrN
datatype key_type = HASH | RANGE

type_synonym key_schema = "(jstr \<times> key_type) list"

record secondary_index =
  ix_name :: jstr
  ix_schema :: key_schema

record create_table =
  ct_name :: jstr
  ct_attributes :: "(jstr \<times> attribute_type) list"
  ct_schema :: key_schema
  ct_indexes :: "secondary_index list"
  ct_payPerRequest :: bool

record table_definition =
  td_create :: create_table
  td_ttlAttribute :: "jstr option"

definition defineTable ::
  "jstr \<Rightarrow> (jstr \<times> attribute_type) list \<Rightarrow> key_schema \<Rightarrow> secondary_index list \<Rightarrow> jstr option \<Rightarrow> table_definition" where
  "defineTable n attrs schema indexes ttlAttribute =
     \<lparr>td_create = \<lparr>ct_name = n, ct_attributes = attrs, ct_schema = schema, ct_indexes = indexes,
        ct_payPerRequest = True\<rparr>, td_ttlAttribute = ttlAttribute\<rparr>"

definition TABLE_DEFINITIONS :: "table_definition list" where
  "TABLE_DEFINITIONS =
     [defineTable (str ''User'') [(str ''userId'', AttrS)] [(str ''userId'', HASH)] [] None,
      defineTable (str ''Clients'') [(str ''clientId'', AttrS), (str ''userId'', AttrS)] [(str ''clientId'', HASH)]
        [\<lparr>ix_name = str ''ClientsByUser'', ix_schema = [(str ''userId'', HASH), (str ''clientId'', RANGE)]\<rparr>]
        (Some TTL_ATTRIBUTE_NAME),
      defineTable (str ''LastSeen'') [(str ''userId'', AttrS)] [(str ''userId'', HASH)] [] None,
      defineTable (str ''Chat'') [(str ''chatId'', AttrS)] [(str ''chatId'', HASH)] [] None,
      defineTable (str ''Member'') [(str ''chatId'', AttrS), (str ''userId'', AttrS)]
        [(str ''chatId'', HASH), (str ''userId'', RANGE)]
        [\<lparr>ix_name = str ''MembersByUser'', ix_schema = [(str ''userId'', HASH), (str ''chatId'', RANGE)]\<rparr>] None,
      defineTable (str ''Inbox'') [(str ''clientId'', AttrS), (str ''messageId'', AttrS)]
        [(str ''clientId'', HASH), (str ''messageId'', RANGE)] [] (Some TTL_ATTRIBUTE_NAME),
      defineTable (str ''Message'')
        [(str ''messageId'', AttrS), (str ''chatId'', AttrS), (str ''timestamp'', AttrN)] [(str ''messageId'', HASH)]
        [\<lparr>ix_name = str ''MessagesByChat'', ix_schema = [(str ''chatId'', HASH), (str ''timestamp'', RANGE)]\<rparr>]
        (Some TTL_ATTRIBUTE_NAME)]"

section \<open>The client\<close>

datatype attribute = AttributeS jstr | AttributeN jstr

type_synonym item = "(jstr \<times> attribute) list"

datatype dynamo_command =
    ListTables nat
  | DescribeTable jstr
  | CreateTable create_table
  | DescribeTimeToLive jstr
  | UpdateTimeToLive jstr bool jstr
  | PutItem jstr item
  | DeleteItem jstr item jstr item

record ttl_description =
  ttl_status :: "jstr option"
  ttl_attribute :: "jstr option"

datatype dynamo_reply =
    Done
  | TableStatus "jstr option"
  | TimeToLive "ttl_description option"

type_synonym 'w dynamo_client = "dynamo_command \<Rightarrow> ('w, dynamo_reply) action"

datatype dynamo_log = DynamoLog jstr | DynamoWarn jstr | DynamoError jstr

text \<open>Sequencing of asynchronous operations that may throw and that log.\<close>

type_synonym ('w, 'a) dyn = "'w \<Rightarrow> 'a throws \<times> 'w \<times> dynamo_log list"

definition dyn_bind :: "('w, 'a) dyn \<Rightarrow> ('a \<Rightarrow> ('w, 'b) dyn) \<Rightarrow> ('w, 'b) dyn" where
  "dyn_bind m f w =
     (case m w of
        (Inl e, w', l) \<Rightarrow> (Inl e, w', l)
      | (Inr a, w', l) \<Rightarrow> (case f a w' of (r, w'', l') \<Rightarrow> (r, w'', l @ l')))"

definition dyn_catch :: "('w, 'a) dyn \<Rightarrow> (jsval \<Rightarrow> ('w, 'a) dyn) \<Rightarrow> ('w, 'a) dyn" where
  "dyn_catch m h w =
     (case m w of
        (Inl e, w', l) \<Rightarrow> (case h e w' of (r, w'', l') \<Rightarrow> (r, w'', l @ l'))
      | (Inr a, w', l) \<Rightarrow> (Inr a, w', l))"

definition dyn_return :: "'a \<Rightarrow> ('w, 'a) dyn" where
  "dyn_return a w = (Inr a, w, [])"

definition dyn_throw :: "jsval \<Rightarrow> ('w, 'a) dyn" where
  "dyn_throw e w = (Inl e, w, [])"

definition dyn_log :: "dynamo_log \<Rightarrow> ('w, unit) dyn" where
  "dyn_log l w = (Inr (), w, [l])"

definition dyn_send :: "'w dynamo_client \<Rightarrow> dynamo_command \<Rightarrow> ('w, dynamo_reply) dyn" where
  "dyn_send send c w = (case send c w of (r, w') \<Rightarrow> (r, w', []))"

section \<open>Bootstrap\<close>

definition dynamo_ping :: "'w dynamo_client \<Rightarrow> ('w, unit) action" where
  "dynamo_ping send w = (case send (ListTables 1) w of (Inl e, w') \<Rightarrow> (Inl e, w') | (Inr _, w') \<Rightarrow> (Inr (), w'))"

definition is_active :: "dynamo_reply \<Rightarrow> bool" where
  "is_active r \<longleftrightarrow> r = TableStatus (Some (str ''ACTIVE''))"

definition activation_options :: "jstr \<Rightarrow> retry_options" where
  "activation_options tableName = \<lparr>attempts = None, initialDelayMs = None, maxDelayMs = None, onAttemptFailed = True,
     failureMessage = Some (str ''Table '' @ tableName @ str '' did not become ACTIVE'')\<rparr>"

definition attempt_logs :: "(jstr \<Rightarrow> jstr) \<Rightarrow> retry_event list \<Rightarrow> dynamo_log list" where
  "attempt_logs text evs =
     concat (map (\<lambda>e. case e of AttemptFailed a n _ \<Rightarrow> [DynamoWarn (text (int_text a @ str ''/'' @ int_text n))]
                              | Sleep _ \<Rightarrow> []) evs)"

definition poll_active :: "'w dynamo_client \<Rightarrow> jstr \<Rightarrow> ('w, unit) action" where
  "poll_active send tableName w =
     (case send (DescribeTable tableName) w of
        (Inl e, w') \<Rightarrow> (Inl e, w')
      | (Inr r, w') \<Rightarrow>
          if is_active r then (Inr (), w')
          else (Inl (new_error (str ''Table '' @ tableName @ str '' is not ACTIVE yet'')), w'))"

definition waitUntilActive :: "'w dynamo_client \<Rightarrow> jstr \<Rightarrow> ('w, unit) dyn" where
  "waitUntilActive send tableName w =
     (case withBoundedRetry (poll_active send tableName) (activation_options tableName) w of
        (r, w', evs) \<Rightarrow>
          (r, w', attempt_logs (\<lambda>n. str ''DynamoDB table '' @ tableName @ str '' activation attempt '' @ n
                     @ str '' pending'') evs))"

text \<open>Whether the table is active already, or is to be waited for after being found or created.\<close>

definition ensureTable :: "'w dynamo_client \<Rightarrow> create_table \<Rightarrow> ('w, unit) dyn" where
  "ensureTable send table =
     (let tableName = ct_name table in
      dyn_bind
        (dyn_catch
           (dyn_bind (dyn_send send (DescribeTable tableName)) (\<lambda>r. dyn_return (is_active r)))
           (\<lambda>err. if \<not> isAwsError err (str ''ResourceNotFoundException'') then dyn_throw err
                  else dyn_catch
                    (dyn_bind (dyn_send send (CreateTable table)) (\<lambda>_. dyn_return False))
                    (\<lambda>createErr. if \<not> isAwsError createErr (str ''ResourceInUseException'')
                                 then dyn_throw createErr else dyn_return False)))
        (\<lambda>active. if active then dyn_return () else waitUntilActive send tableName))"

definition ttl_on :: "ttl_description option \<Rightarrow> bool" where
  "ttl_on d =
     (case d of None \<Rightarrow> False | Some t \<Rightarrow> ttl_status t = Some (str ''ENABLED'') \<or> ttl_status t = Some (str ''ENABLING''))"

definition ensureTtl :: "'w dynamo_client \<Rightarrow> jstr \<Rightarrow> jstr \<Rightarrow> ('w, unit) dyn" where
  "ensureTtl send tableName attributeName =
     dyn_bind (dyn_send send (DescribeTimeToLive tableName)) (\<lambda>r.
       let description = (case r of TimeToLive d \<Rightarrow> d | _ \<Rightarrow> None);
           attr = Option.bind description ttl_attribute in
       if ttl_on description \<and> attr = Some attributeName then dyn_return ()
       else
         dyn_bind
           (dyn_log (if ttl_on description
              then DynamoWarn (str ''DynamoDB table '' @ tableName @ str '' TTL uses attribute ''
                     @ or_default (str ''unknown'') attr @ str '', reconciling to '' @ attributeName)
              else DynamoLog (str ''Enabling DynamoDB TTL on table '' @ tableName @ str '' with attribute ''
                     @ attributeName)))
           (\<lambda>_. dyn_bind (dyn_send send (UpdateTimeToLive tableName True attributeName)) (\<lambda>_. dyn_return ())))"

fun ensure_all :: "'w dynamo_client \<Rightarrow> table_definition list \<Rightarrow> ('w, unit) dyn" where
  "ensure_all send [] = dyn_return ()"
| "ensure_all send (table # tables) =
     dyn_bind (ensureTable send (td_create table)) (\<lambda>_.
       dyn_bind (case td_ttlAttribute table of None \<Rightarrow> dyn_return ()
                 | Some a \<Rightarrow> ensureTtl send (ct_name (td_create table)) a)
         (\<lambda>_. ensure_all send tables))"

definition ensureTablesExist :: "'w dynamo_client \<Rightarrow> ('w, unit) dyn" where
  "ensureTablesExist send =
     dyn_bind (ensure_all send TABLE_DEFINITIONS) (\<lambda>_.
       dyn_log (DynamoLog (str ''Ensured DynamoDB tables ('' @ dec_digits (length TABLE_DEFINITIONS) @ str '')'')))"

definition dynamo_connect_options :: retry_options where
  "dynamo_connect_options = \<lparr>attempts = None, initialDelayMs = None, maxDelayMs = None, onAttemptFailed = True,
     failureMessage = Some (str ''Failed to connect to DynamoDB after 10 attempts'')\<rparr>"

definition dynamo_onModuleInit ::
  "'w dynamo_client \<Rightarrow> (jstr \<Rightarrow> parsed_url option) \<Rightarrow> environment \<Rightarrow> ('w, unit) dyn" where
  "dynamo_onModuleInit send parse_url env =
     dyn_bind
       (\<lambda>w. case withBoundedRetry (dynamo_ping send) dynamo_connect_options w of
          (r, w', evs) \<Rightarrow> (r, w', attempt_logs (\<lambda>n. str ''DynamoDB connect attempt '' @ n @ str '' failed'') evs))
       (\<lambda>_. case getDynamoBootstrapConfig parse_url env of
          Inl e \<Rightarrow> dyn_throw e
        | Inr bootstrap \<Rightarrow>
            if \<not> bc_shouldBootstrap bootstrap then
              dyn_log (DynamoLog (str ''Skipping DynamoDB table bootstrap for non-local endpoint host ''
                @ bc_hostname bootstrap))
            else dyn_catch (ensureTablesExist send)
              (\<lambda>err. dyn_log (DynamoError
                 (str ''DynamoDB table bootstrap failed, continuing without ensured tables: '' @ error_detail err
                  @ str ''. Bootstrap requires dynamodb:CreateTable, dynamodb:DescribeTable, ''
                  @ str ''dynamodb:DescribeTimeToLive, and dynamodb:UpdateTimeToLive on the configured endpoint.''))))"

text \<open>\<open>destroy\<close> is the client's own.\<close>

definition dynamo_onModuleDestroy :: "('w \<Rightarrow> 'w) \<Rightarrow> 'w \<Rightarrow> 'w" where
  "dynamo_onModuleDestroy destroy w = destroy w"

section \<open>Facts\<close>

lemmas dyn_defs = dyn_bind_def dyn_catch_def dyn_return_def dyn_throw_def dyn_log_def dyn_send_def

lemma dyn_bind_return [simp]: "dyn_bind (dyn_return a) f w = f a w"
  by (simp add: dyn_defs split: prod.split)

lemma dyn_bind_Inr: "m w = (Inr a, w', l) \<Longrightarrow> dyn_bind m f w = (case f a w' of (r, w'', l') \<Rightarrow> (r, w'', l @ l'))"
  by (simp add: dyn_bind_def)

lemma dyn_bind_Inl: "m w = (Inl e, w', l) \<Longrightarrow> dyn_bind m f w = (Inl e, w', l)"
  by (simp add: dyn_bind_def)

lemma ensureTable_active:
  "send (DescribeTable (ct_name table)) w = (Inr (TableStatus (Some (str ''ACTIVE''))), w') \<Longrightarrow>
     ensureTable send table w = (Inr (), w', [])"
  by (simp add: ensureTable_def dyn_defs is_active_def Let_def)

lemma ensureTtl_enabled:
  "send (DescribeTimeToLive n) w = (Inr (TimeToLive (Some d)), w') \<Longrightarrow> ttl_on (Some d) \<Longrightarrow>
     ttl_attribute d = Some a \<Longrightarrow> ensureTtl send n a w = (Inr (), w', [])"
  by (simp add: ensureTtl_def dyn_defs Let_def)

lemma ensure_all_ready:
  assumes "\<And>n. send (DescribeTable n) w = (Inr (TableStatus (Some (str ''ACTIVE''))), w)"
    and "\<And>t a. t \<in> set ts \<Longrightarrow> td_ttlAttribute t = Some a \<Longrightarrow>
      ensureTtl send (ct_name (td_create t)) a w = (Inr (), w, [])"
  shows "ensure_all send ts w = (Inr (), w, [])"
  using assms(2)
proof (induction ts)
  case Nil
  then show ?case by (simp add: dyn_return_def)
next
  case (Cons t ts)
  have "ensureTable send (td_create t) w = (Inr (), w, [])" by (rule ensureTable_active [of send, OF assms(1)])
  moreover have "(case td_ttlAttribute t of None \<Rightarrow> dyn_return ()
      | Some a \<Rightarrow> ensureTtl send (ct_name (td_create t)) a) w = (Inr (), w, [])"
    using Cons.prems by (cases "td_ttlAttribute t") (simp_all add: dyn_return_def)
  ultimately show ?case using Cons by (simp add: dyn_bind_Inr)
qed

section \<open>Schema checks\<close>

definition key_names :: "create_table \<Rightarrow> jstr list" where
  "key_names t = map fst (ct_schema t) @ concat (map (\<lambda>ix. map fst (ix_schema ix)) (ct_indexes t))"

definition schema_ok :: "key_schema \<Rightarrow> bool" where
  "schema_ok ks = (map snd ks = [HASH] \<or> map snd ks = [HASH, RANGE] \<and> distinct (map fst ks))"

text \<open>What CreateTable requires of a definition: exactly the key attributes are declared, each schema
  is a hash key with at most one range key; and the TTL attribute is not a key.\<close>

definition table_ok :: "table_definition \<Rightarrow> bool" where
  "table_ok td =
     (let t = td_create td in
      schema_ok (ct_schema t) \<and> list_all (\<lambda>ix. schema_ok (ix_schema ix)) (ct_indexes t)
      \<and> distinct (map fst (ct_attributes t))
      \<and> set (map fst (ct_attributes t)) = set (key_names t)
      \<and> distinct (map ix_name (ct_indexes t)) \<and> ct_payPerRequest t
      \<and> (case td_ttlAttribute td of None \<Rightarrow> True | Some a \<Rightarrow> a \<notin> set (key_names t)))"

section \<open>Properties\<close>

text \<open>Every table definition is one CreateTable accepts: table names are unique, each key schema
  is a hash key with at most one range key, exactly the key attributes are declared, and the TTL
  attribute, attached to the client, inbox and message tables only, is no key.\<close>

theorem table_schemas_are_consistent:
  "distinct (map (ct_name \<circ> td_create) TABLE_DEFINITIONS) \<and> list_all table_ok TABLE_DEFINITIONS \<and>
   map (ct_name \<circ> td_create) (filter (\<lambda>t. td_ttlAttribute t = Some TTL_ATTRIBUTE_NAME) TABLE_DEFINITIONS)
     = [str ''Clients'', str ''Inbox'', str ''Message''] \<and>
   length TABLE_DEFINITIONS = 7"
  by (auto simp: TABLE_DEFINITIONS_def defineTable_def table_ok_def schema_ok_def key_names_def Let_def
      TTL_ATTRIBUTE_NAME_def)

text \<open>What ensuring a table does in each case the client answers: an active table is left alone
  after one call, an error other than a missing table is passed on without creating anything, a
  missing table is created, and a creation that lost the race to another replica is tolerated;
  the table is then waited for.\<close>

theorem ensure_table_cases:
  assumes "send (DescribeTable (ct_name table)) w = (described, w1)"
    and "send (CreateTable table) w1 = (created, w2)"
  shows "ensureTable send table w =
    (case described of
       Inr r \<Rightarrow> if is_active r then (Inr (), w1, []) else waitUntilActive send (ct_name table) w1
     | Inl e \<Rightarrow>
         if \<not> isAwsError e (str ''ResourceNotFoundException'') then (Inl e, w1, [])
         else (case created of
            Inl e' \<Rightarrow> if isAwsError e' (str ''ResourceInUseException'')
                     then waitUntilActive send (ct_name table) w2 else (Inl e', w2, [])
          | Inr _ \<Rightarrow> waitUntilActive send (ct_name table) w2))"
  using assms
  by (auto simp: ensureTable_def dyn_defs Let_def split: sum.split prod.split)

theorem ensure_table_cases_witness:
  "ensureTable (\<lambda>c w. (Inr (TableStatus (Some (str ''ACTIVE''))), w)) (td_create (hd TABLE_DEFINITIONS)) (0 :: nat)
     = (Inr (), 0, [])"
  using ensure_table_cases [of "\<lambda>c w. (Inr (TableStatus (Some (str ''ACTIVE''))), w)"
      "td_create (hd TABLE_DEFINITIONS)" "0 :: nat" _ 0 _ 0]
  by (simp add: is_active_def)

text \<open>C26: The bootstrap is idempotent: when every table is active and has its TTL enabled on the right
  attribute, it changes nothing and issues no create or update.\<close>

theorem bootstrap_is_idempotent:
  assumes "\<And>n. send (DescribeTable n) w = (Inr (TableStatus (Some (str ''ACTIVE''))), w)"
    and "\<And>n. send (DescribeTimeToLive n) w =
      (Inr (TimeToLive (Some \<lparr>ttl_status = Some (str ''ENABLED''), ttl_attribute = Some TTL_ATTRIBUTE_NAME\<rparr>)), w)"
  shows "\<exists>l. ensureTablesExist send w = (Inr (), w, [DynamoLog l])"
proof -
  have "ensureTtl send (ct_name (td_create t)) a w = (Inr (), w, [])"
    if "t \<in> set TABLE_DEFINITIONS" "td_ttlAttribute t = Some a" for t a
  proof (rule ensureTtl_enabled [of send, OF assms(2)])
    show "ttl_attribute \<lparr>ttl_status = Some (str ''ENABLED''), ttl_attribute = Some TTL_ATTRIBUTE_NAME\<rparr> = Some a"
      using that by (auto simp: TABLE_DEFINITIONS_def defineTable_def)
  qed (simp add: ttl_on_def)
  from ensure_all_ready [of send, OF assms(1) this] show ?thesis
    by (simp add: ensureTablesExist_def dyn_bind_Inr dyn_log_def)
qed

theorem bootstrap_is_idempotent_witness:
  "\<exists>l. ensureTablesExist (\<lambda>c w. case c of
        DescribeTable n \<Rightarrow> (Inr (TableStatus (Some (str ''ACTIVE''))), w)
      | DescribeTimeToLive n \<Rightarrow> (Inr (TimeToLive (Some
          \<lparr>ttl_status = Some (str ''ENABLED''), ttl_attribute = Some TTL_ATTRIBUTE_NAME\<rparr>)), w)
      | _ \<Rightarrow> (Inr Done, w + 1)) (0 :: nat) = (Inr (), 0, [DynamoLog l])"
  by (rule bootstrap_is_idempotent) simp_all

text \<open>C27: Start-up fails only when DynamoDB does not answer within the retry budget or the settings are
  invalid: once it answers, a failing bootstrap is logged and tolerated, and it is not tried at all
  for an endpoint that is neither local nor opted in.\<close>

theorem startup_tolerates_bootstrap_failure:
  assumes "withBoundedRetry (dynamo_ping send) dynamo_connect_options w = (ping_result, w1, evs)"
    and "dynamo_onModuleInit send parse_url env w = (result, w', logs)"
  shows "(isl result \<longleftrightarrow> isl ping_result \<or> isl (getDynamoBootstrapConfig parse_url env)) \<and>
    (\<forall>config. getDynamoBootstrapConfig parse_url env = Inr config \<longrightarrow> \<not> bc_shouldBootstrap config \<longrightarrow> w' = w1)"
proof (cases ping_result)
  case (Inl e)
  then show ?thesis using assms by (auto simp: dynamo_onModuleInit_def dyn_bind_def)
next
  case (Inr u)
  show ?thesis
  proof (cases "getDynamoBootstrapConfig parse_url env")
    case (Inl e)
    then show ?thesis using assms Inr by (auto simp: dynamo_onModuleInit_def dyn_bind_def dyn_throw_def)
  next
    case (Inr config)
    then show ?thesis using assms \<open>ping_result = Inr u\<close>
      by (cases "ensureTablesExist send w1")
        (auto simp: dynamo_onModuleInit_def dyn_bind_def dyn_log_def dyn_catch_def split: if_splits sum.splits)
  qed
qed

theorem startup_tolerates_bootstrap_failure_witness:
  "\<not> isl (fst (dynamo_onModuleInit (\<lambda>c w. case c of ListTables _ \<Rightarrow> (Inr Done, w) | _ \<Rightarrow> (Inl Undefined, w))
      (\<lambda>_. Some \<lparr>url_protocol = str ''http:'', url_hostname = str ''localhost''\<rparr>) (\<lambda>_. None) (0 :: nat)))"
proof -
  let ?send = "\<lambda>c w. case c of ListTables _ \<Rightarrow> (Inr Done, w) | _ \<Rightarrow> (Inl Undefined, w :: nat)"
  let ?url = "\<lambda>_ :: jstr. Some \<lparr>url_protocol = str ''http:'', url_hostname = str ''localhost''\<rparr>"
  have p: "withBoundedRetry (dynamo_ping ?send) dynamo_connect_options 0 = (Inr (), 0, [])"
    by (simp add: withBoundedRetry_def retry_loop.simps [of _ _ 1] dynamo_connect_options_def retry_attempts_def
        or_default_def DEFAULT_ATTEMPTS_def dynamo_ping_def)
  have "trim (str ''us-east-1'') \<noteq> []" by (simp add: trim_eq_Nil str_def cu_def js_space_def)
  then have "\<not> isl (getDynamoBootstrapConfig ?url (\<lambda>_. None))"
    by (simp add: getDynamoBootstrapConfig_def getDynamoConfig_def Let_def or_default_def DEFAULT_AWS_REGION_def)
  moreover obtain r w' l where x: "dynamo_onModuleInit ?send ?url (\<lambda>_. None) 0 = (r, w', l)"
    by (cases "dynamo_onModuleInit ?send ?url (\<lambda>_. None) 0") auto
  ultimately show ?thesis using startup_tolerates_bootstrap_failure [OF p x] by simp
qed

text \<open>The DynamoDB settings are valid or refused: the endpoint parses with protocol http or https
  and the region is not blank; credentials are never empty; and a table bootstrap is decided
  exactly for the listed local hosts, whatever their case or IPv6 brackets, or by the flag.\<close>

theorem dynamo_settings_are_checked:
  "(case getDynamoConfig parse_url env of
      Inl e \<Rightarrow> True
    | Inr c \<Rightarrow> (\<exists>u. parse_url (dc_endpoint c) = Some u \<and> dc_hostname c = url_hostname u \<and>
          url_protocol u \<in> {str ''http:'', str ''https:''}) \<and> trim (dc_region c) \<noteq> []) \<and>
   orLocalCredential v \<noteq> [] \<and>
   (h \<in> set LOCAL_DYNAMO_HOSTNAMES \<longrightarrow> isLocalDynamoHostname h \<and> isLocalDynamoHostname (str ''['' @ h @ str '']'')) \<and>
   (case getDynamoBootstrapConfig parse_url env of
      Inl e \<Rightarrow> getDynamoConfig parse_url env = Inl e
    | Inr b \<Rightarrow> bc_shouldBootstrap b \<longleftrightarrow> isLocalDynamoHostname (bc_hostname b)
        \<or> fst (parseEnvFlag (env (str ''DYNAMODB_BOOTSTRAP'')) no_flag_options))"
proof -
  have "list_all (\<lambda>h. isLocalDynamoHostname h \<and> isLocalDynamoHostname (str ''['' @ h @ str '']''))
      LOCAL_DYNAMO_HOSTNAMES"
    by code_simp
  moreover have "orLocalCredential v \<noteq> []"
    by (cases v) (auto simp: orLocalCredential_def DEFAULT_DUMMY_CREDENTIAL_def)
  ultimately show ?thesis
    by (auto simp: list_all_iff getDynamoConfig_def getDynamoBootstrapConfig_def Let_def
        split: option.splits if_splits sum.split)
qed

theorem dynamo_settings_are_checked_witness:
  "isLocalDynamoHostname (str ''::1'') \<and> isLocalDynamoHostname (str ''['' @ str ''::1'' @ str '']'')"
  using dynamo_settings_are_checked [where h = "str ''::1''" and parse_url = "\<lambda>_. None" and env = "\<lambda>_. None"]
  by (simp add: LOCAL_DYNAMO_HOSTNAMES_def)

end
