(* ===== verification/Presence.thy ===== *)
theory Presence
  imports Session_Trackers Dynamo
begin

text \<open>
  \<open>src/presence/presence.service.ts\<close>: the rows of the \<open>User\<close> and \<open>Clients\<close> tables written on
  connect and removed, conditionally on the connection's token, on disconnect. DynamoDB is the
  parameter \<open>send\<close>; what its put and conditional delete do to the presence rows is a named
  contract, shown satisfiable on a table in memory.
\<close>

section \<open>The service\<close>

definition presence_user_item :: "user_id \<Rightarrow> item" where
  "presence_user_item userId = [(str ''userId'', AttributeS userId)]"

definition presence_client_item :: "user_id \<Rightarrow> client_id \<Rightarrow> jstr \<Rightarrow> int \<Rightarrow> item" where
  "presence_client_item userId clientId presenceToken expiresAt =
     [(str ''clientId'', AttributeS clientId), (str ''userId'', AttributeS userId),
      (str ''expiresAt'', AttributeN (int_text expiresAt)), (str ''presenceToken'', AttributeS presenceToken)]"

definition connect_warning :: "client_id \<Rightarrow> dynamo_reply throws \<Rightarrow> dynamo_log list" where
  "connect_warning clientId result =
     (case result of
        Inl reason \<Rightarrow>
          [DynamoWarn (str ''Failed to track connect: '' @ error_detail reason @ str '' '' @ clientId)]
      | Inr _ \<Rightarrow> [])"

text \<open>Both writes are attempted and neither failure escapes.\<close>

definition trackConnect ::
  "'w dynamo_client \<Rightarrow> int \<Rightarrow> user_id \<Rightarrow> client_id \<Rightarrow> jstr \<Rightarrow> 'w \<Rightarrow> 'w \<times> dynamo_log list" where
  "trackConnect send now userId clientId presenceToken w =
     (let expiresAt = buildExpiresAt (Some CLIENT_PRESENCE_TTL_SECONDS) None now;
          (r1, w1) = send (PutItem (str ''User'') (presence_user_item userId)) w;
          (r2, w2) = send (PutItem (str ''Clients'')
                       (presence_client_item userId clientId presenceToken expiresAt)) w1
      in (w2, connect_warning clientId r1 @ connect_warning clientId r2))"

definition trackDisconnect ::
  "'w dynamo_client \<Rightarrow> client_id \<Rightarrow> jstr \<Rightarrow> 'w \<Rightarrow> 'w \<times> dynamo_log list" where
  "trackDisconnect send clientId presenceToken w =
     (case send (DeleteItem (str ''Clients'') [(str ''clientId'', AttributeS clientId)]
                   (str ''presenceToken = :token'') [(str '':token'', AttributeS presenceToken)]) w of
        (Inr _, w') \<Rightarrow> (w', [])
      | (Inl err, w') \<Rightarrow>
          (w', if isAwsError err (str ''ConditionalCheckFailedException'') then
                 [DynamoLog (str ''Ignoring stale disconnect for '' @ clientId
                    @ str '': presence row was reconnected'')]
               else [DynamoWarn (str ''Failed to track disconnect: '' @ error_detail err @ str '' '' @ clientId)]))"

definition presence_handle ::
  "'w dynamo_client \<Rightarrow> int \<Rightarrow> phase \<times> lifecycle_event \<Rightarrow> 'w \<Rightarrow> 'w \<times> dynamo_log list" where
  "presence_handle send now n =
     (let e = snd n in
      case fst n of
        Connect \<Rightarrow> trackConnect send now (e_userId e) (e_clientId e) (e_token e)
      | Disconnect \<Rightarrow> trackDisconnect send (e_clientId e) (e_token e))"

section \<open>The presence rows\<close>

text \<open>What a notification does to the rows of the \<open>Clients\<close> table when DynamoDB answers: a connect
  writes the client's row, a disconnect deletes it if it still holds the connection's token.\<close>

definition presence_rows :: "phase \<times> lifecycle_event \<Rightarrow> view \<Rightarrow> view" where
  "presence_rows n R =
     (let e = snd n in
      case fst n of
        Connect \<Rightarrow> R(e_clientId e \<mapsto> (e_userId e, e_token e))
      | Disconnect \<Rightarrow>
          (case R (e_clientId e) of
             Some (u, tok) \<Rightarrow> if tok = e_token e then R(e_clientId e := None) else R
           | None \<Rightarrow> R))"

text \<open>DynamoDB's documented behaviour on the requests above, with \<open>rows\<close> reading user and token of the
  client rows off the world: a put replaces the client's row, a write to another table leaves the
  rows alone, and a conditional delete removes the row when its token matches and otherwise fails
  the condition without a change.\<close>

definition dynamo_contract :: "'w dynamo_client \<Rightarrow> ('w \<Rightarrow> view) \<Rightarrow> bool" where
  "dynamo_contract send rows \<longleftrightarrow>
     (\<forall>w u. fst (send (PutItem (str ''User'') (presence_user_item u)) w) = Inr Done \<and>
        rows (snd (send (PutItem (str ''User'') (presence_user_item u)) w)) = rows w) \<and>
     (\<forall>w u c tok t. fst (send (PutItem (str ''Clients'') (presence_client_item u c tok t)) w) = Inr Done \<and>
        rows (snd (send (PutItem (str ''Clients'') (presence_client_item u c tok t)) w)) = (rows w)(c \<mapsto> (u, tok))) \<and>
     (\<forall>w c tok. let (r, w') = send (DeleteItem (str ''Clients'') [(str ''clientId'', AttributeS c)]
           (str ''presenceToken = :token'') [(str '':token'', AttributeS tok)]) w in
        if map_option snd (rows w c) = Some tok then r = Inr Done \<and> rows w' = (rows w)(c := None)
        else (\<exists>e. r = Inl e \<and> isAwsError e (str ''ConditionalCheckFailedException'')) \<and> rows w' = rows w)"

text \<open>A table in memory that meets the contract, on the requests the service makes.\<close>

fun memory_send :: "view dynamo_client" where
  "memory_send (PutItem t [(_, AttributeS c), (_, AttributeS u), _, (_, AttributeS tok)]) w =
     (Inr Done, w(c \<mapsto> (u, tok)))"
| "memory_send (DeleteItem t [(_, AttributeS c)] cond [(_, AttributeS tok)]) w =
     (if map_option snd (w c) = Some tok then (Inr Done, w(c := None))
      else (Inl (Err [] [(str ''name'', Str (str ''ConditionalCheckFailedException''))]), w))"
| "memory_send _ w = (Inr Done, w)"

lemma memory_contract: "dynamo_contract memory_send (\<lambda>w. w)"
  by (auto simp: dynamo_contract_def presence_user_item_def presence_client_item_def isAwsError_def Let_def)

lemma contract_presence_rows:
  assumes "dynamo_contract send rows"
  shows "rows (fst (presence_handle send now n w)) = presence_rows n (rows w)"
proof (cases n)
  case (Pair ph e)
  note C = assms [unfolded dynamo_contract_def]
  show ?thesis
  proof (cases ph)
    case Connect
    then show ?thesis using C Pair
      by (simp add: presence_handle_def trackConnect_def presence_rows_def Let_def split_def)
  next
    case Disconnect
    let ?d = "send (DeleteItem (str ''Clients'') [(str ''clientId'', AttributeS (e_clientId e))]
        (str ''presenceToken = :token'') [(str '':token'', AttributeS (e_token e))]) w"
    have d: "let (r, w') = ?d in
        if map_option snd (rows w (e_clientId e)) = Some (e_token e) then r = Inr Done \<and> rows w' = (rows w)(e_clientId e := None)
        else (\<exists>e. r = Inl e \<and> isAwsError e (str ''ConditionalCheckFailedException'')) \<and> rows w' = rows w"
      using C by blast
    obtain r w' where x: "?d = (r, w')" by fastforce
    show ?thesis using d x Disconnect Pair
      by (auto simp: presence_handle_def trackDisconnect_def presence_rows_def Let_def split: sum.split option.splits
          if_splits)
  qed
qed

text \<open>On a single replica the rows follow the registry's sessions.\<close>

interpretation presence_tracker: session_tracker presence_rows "\<lambda>R V. R = V"
  by unfold_locales
    (auto simp: observe_def presence_rows_def Let_def fun_eq_iff split: phase.splits if_splits option.splits)

text \<open>A notification touches the row of its client only, so a client's row after a sequence of
  notifications is decided by those about that client.\<close>

lemma presence_rows_local:
  "c \<noteq> e_clientId (snd n) \<Longrightarrow> presence_rows n R c = R c"
  "R c = R' c \<Longrightarrow> presence_rows n R c = presence_rows n R' c"
  by (auto simp: presence_rows_def Let_def split: phase.splits option.splits)

lemma presence_rows_of_client:
  "R c = R' c \<Longrightarrow> fold presence_rows ns R c = fold presence_rows (filter (\<lambda>n. e_clientId (snd n) = c) ns) R' c"
proof (induction ns arbitrary: R R')
  case (Cons n ns)
  show ?case
  proof (cases "e_clientId (snd n) = c")
    case True
    have "presence_rows n R c = presence_rows n R' c" by (rule presence_rows_local(2)) (rule Cons.prems)
    from Cons.IH [of "presence_rows n R" "presence_rows n R'", OF this] True show ?thesis by simp
  next
    case False
    then have "presence_rows n R c = R' c" using presence_rows_local(1) [of c n R] Cons.prems by simp
    from Cons.IH [of "presence_rows n R" R', OF this] False show ?thesis by simp
  qed
qed simp

section \<open>Properties\<close>



text \<open>C19: A slow disconnect that reaches DynamoDB after the client has reconnected leaves the fresh row
  alone and is logged without a warning; one that arrives in time removes the row.\<close>

theorem stale_disconnect_keeps_fresh_row:
  assumes "dynamo_contract send rows" and "old \<noteq> fresh"
    and "w1 = fst (trackConnect send now userId clientId fresh w)"
  shows "rows (fst (trackDisconnect send clientId old w1)) clientId = Some (userId, fresh) \<and>
    (\<exists>text. snd (trackDisconnect send clientId old w1) = [DynamoLog text]) \<and>
    rows (fst (trackDisconnect send clientId fresh w1)) clientId = None \<and>
    snd (trackDisconnect send clientId fresh w1) = []"
proof -
  note C = assms(1) [unfolded dynamo_contract_def]
  have row: "rows w1 clientId = Some (userId, fresh)"
    using C by (simp add: assms(3) trackConnect_def Let_def split_def)
  have d: "let (r, w') = send (DeleteItem (str ''Clients'') [(str ''clientId'', AttributeS clientId)]
        (str ''presenceToken = :token'') [(str '':token'', AttributeS tok)]) w1 in
      if fresh = tok then r = Inr Done \<and> rows w' = (rows w1)(clientId := None)
      else (\<exists>e. r = Inl e \<and> isAwsError e (str ''ConditionalCheckFailedException'')) \<and> rows w' = rows w1" for tok
    using C [THEN conjunct2, THEN conjunct2, rule_format, of clientId tok w1] row by simp
  show ?thesis
    using d [of old] d [of fresh] assms(2) row
    by (auto simp: trackDisconnect_def Let_def split: prod.splits sum.splits)
qed

theorem stale_disconnect_keeps_fresh_row_witness:
  "fst (trackDisconnect memory_send (str ''c1'') (str ''t1'')
     (fst (trackConnect memory_send 0 (str ''ann'') (str ''c1'') (str ''t2'') (\<lambda>_. None)))) (str ''c1'')
   = Some (str ''ann'', str ''t2'')"
  using stale_disconnect_keeps_fresh_row [OF memory_contract, of "str ''t1''" "str ''t2''" _ 0 "str ''ann''" "str ''c1''" "\<lambda>_. None"]
  by simp



end
