(* ===== verification/Health.thy ===== *)
theory Health
  imports Presence
begin

text \<open>
  \<open>src/health\<close>: the probe paths and the matcher that metrics and tracing share
  (\<open>health.constants.ts\<close>), and the liveness and readiness handlers (\<open>health.controller.ts\<close>). The
  path of a URL resolved against \<open>http://localhost\<close> is the parameter \<open>url_pathname\<close>, \<open>None\<close> when
  the URL constructor throws.
\<close>

section \<open>Probe paths\<close>

definition HEALTH_BASE_PATH :: jstr where "HEALTH_BASE_PATH = str ''health''"
definition LIVE_SUBPATH :: jstr where "LIVE_SUBPATH = str ''live''"
definition READY_SUBPATH :: jstr where "READY_SUBPATH = str ''ready''"
definition HEALTH_PREFIX :: jstr where "HEALTH_PREFIX = str ''/health''"
definition LIVE_PATH :: jstr where "LIVE_PATH = HEALTH_PREFIX @ str ''/'' @ LIVE_SUBPATH"
definition READY_PATH :: jstr where "READY_PATH = HEALTH_PREFIX @ str ''/'' @ READY_SUBPATH"
definition HEALTH_PROBE_PATHS :: "jstr list" where "HEALTH_PROBE_PATHS = [LIVE_PATH, READY_PATH]"

type_synonym url_pathname = "jstr \<Rightarrow> jstr option"

text \<open>\<open>path.replace(/\/+$/, '') || '/'\<close>.\<close>

definition slash :: code_unit where "slash = cu CHR ''/''"

definition strip_slashes :: "jstr \<Rightarrow> jstr" where
  "strip_slashes path =
     (let s = rev (dropWhile (\<lambda>c. c = slash) (rev path)) in if s = [] then [slash] else s)"

definition isHealthRequest :: "url_pathname \<Rightarrow> jstr option \<Rightarrow> bool" where
  "isHealthRequest url_pathname url =
     (case url of
        None \<Rightarrow> False
      | Some u \<Rightarrow>
          if u = [] then False
          else (case url_pathname u of
             None \<Rightarrow> False
           | Some path \<Rightarrow> strip_slashes path \<in> set HEALTH_PROBE_PATHS))"

section \<open>Probes\<close>

datatype dependency_status = Up | Down
datatype health_status = Ok | Degraded

record ready_response =
  rr_status :: health_status
  rr_redis :: dependency_status
  rr_dynamo :: dependency_status

text \<open>A readiness answer: the body, or the body of a 503.\<close>

datatype ready_result = Ready ready_response | ServiceUnavailable ready_response

definition live :: health_status where "live = Ok"

definition dependency_status_of :: "'a throws \<Rightarrow> dependency_status" where
  "dependency_status_of r = (case r of Inr _ \<Rightarrow> Up | Inl _ \<Rightarrow> Down)"

text \<open>Both probes are started before either settles and both are awaited.\<close>

definition ready ::
  "'w redis_client \<Rightarrow> 'w dynamo_client \<Rightarrow> 'w \<Rightarrow> ready_result \<times> 'w" where
  "ready redis_client dynamo_client w =
     (let (redis_result, w1) = ping redis_client w;
          (dynamo_result, w2) = dynamo_ping dynamo_client w1;
          redis = dependency_status_of redis_result;
          dynamo = dependency_status_of dynamo_result
      in if redis \<noteq> Up \<or> dynamo \<noteq> Up
         then (ServiceUnavailable \<lparr>rr_status = Degraded, rr_redis = redis, rr_dynamo = dynamo\<rparr>, w2)
         else (Ready \<lparr>rr_status = Ok, rr_redis = redis, rr_dynamo = dynamo\<rparr>, w2))"

section \<open>Properties\<close>

lemma strip_slashes_iff:
  assumes "p \<noteq> []" "last p \<noteq> slash"
  shows "strip_slashes path = p \<longleftrightarrow> (\<exists>n. path = p @ replicate n slash)"
proof
  assume s: "strip_slashes path = p"
  let ?d = "dropWhile (\<lambda>c. c = slash) (rev path)" and ?t = "takeWhile (\<lambda>c. c = slash) (rev path)"
  have ne: "rev ?d = p" using s assms by (auto simp: strip_slashes_def Let_def split: if_splits)
  have "?t = replicate (length ?t) slash"
    by (rule replicate_length_same [symmetric]) (auto dest: set_takeWhileD)
  then have "rev ?t = replicate (length ?t) slash" by (metis rev_replicate)
  moreover have "path = rev ?d @ rev ?t" by (metis rev_append rev_rev_ident takeWhile_dropWhile_id)
  ultimately show "\<exists>n. path = p @ replicate n slash" using ne by metis
next
  assume "\<exists>n. path = p @ replicate n slash"
  then obtain n where path: "path = p @ replicate n slash" ..
  have "dropWhile (\<lambda>c. c = slash) (rev path) = dropWhile (\<lambda>c. c = slash) (rev p)"
    using dropWhile_append2 [of "replicate n slash" "\<lambda>c. c = slash" "rev p"] by (auto simp: path)
  also have "\<dots> = rev p" using assms by (cases "rev p") (auto simp: hd_rev [symmetric])
  finally show "strip_slashes path = p" using assms by (simp add: strip_slashes_def Let_def)
qed

text \<open>A request is a health probe exactly when its URL parses to the live or the ready path, with
  any number of trailing slashes; bare \<open>/health\<close> is none.\<close>

theorem health_requests_are_probes:
  "(isHealthRequest url_pathname url \<longleftrightarrow>
     (\<exists>u path n. url = Some u \<and> u \<noteq> [] \<and> url_pathname u = Some path \<and>
        (path = str ''/health/live'' @ replicate n slash \<or> path = str ''/health/ready'' @ replicate n slash))) \<and>
   \<not> isHealthRequest (\<lambda>_. Some (str ''/health'' @ replicate k slash)) url"
proof -
  have last: "last (str ''/health/live'') \<noteq> slash" "last (str ''/health/ready'') \<noteq> slash"
    "last (str ''/health'') \<noteq> slash"
    by (simp_all add: slash_def str_def cu_def)
  have iff: "strip_slashes path \<in> set HEALTH_PROBE_PATHS \<longleftrightarrow>
      (\<exists>n. path = str ''/health/live'' @ replicate n slash \<or> path = str ''/health/ready'' @ replicate n slash)" for path
  proof -
    have "strip_slashes path \<in> set HEALTH_PROBE_PATHS \<longleftrightarrow>
        strip_slashes path = str ''/health/live'' \<or> strip_slashes path = str ''/health/ready''"
      by (simp add: HEALTH_PROBE_PATHS_def LIVE_PATH_def READY_PATH_def HEALTH_PREFIX_def LIVE_SUBPATH_def
          READY_SUBPATH_def flip: str_append)
    then show ?thesis using strip_slashes_iff last by auto
  qed
  have bare: "strip_slashes (str ''/health'' @ replicate k slash) = str ''/health''"
    using strip_slashes_iff last by auto
  have "str ''/health'' \<notin> set HEALTH_PROBE_PATHS"
    by (simp add: HEALTH_PROBE_PATHS_def LIVE_PATH_def READY_PATH_def HEALTH_PREFIX_def LIVE_SUBPATH_def
        READY_SUBPATH_def flip: str_append)
  with bare have "\<not> isHealthRequest (\<lambda>_. Some (str ''/health'' @ replicate k slash)) url"
    by (simp add: isHealthRequest_def split: option.split)
  then show ?thesis using iff by (auto simp: isHealthRequest_def split: option.splits)
qed

text \<open>Readiness is ok exactly when both dependencies answer; otherwise it is a 503 that says of
  each whether it is up, and one dependency's failure does not keep the other from being asked.\<close>

theorem readiness_reports_both:
  assumes "ping redis_client w = (redis_result, w1)" and "dynamo_ping dynamo_client w1 = (dynamo_result, w2)"
  shows "ready redis_client dynamo_client w =
    (let body = \<lparr>rr_status = (if isl redis_result \<or> isl dynamo_result then Degraded else Ok),
           rr_redis = (if isl redis_result then Down else Up), rr_dynamo = (if isl dynamo_result then Down else Up)\<rparr>
     in (if isl redis_result \<or> isl dynamo_result then ServiceUnavailable body else Ready body, w2))"
  using assms by (cases redis_result; cases dynamo_result) (simp_all add: ready_def dependency_status_of_def)

theorem readiness_reports_both_witness:
  "fst (ready sample_client (\<lambda>_ w. (Inl Null, w)) None) =
     ServiceUnavailable \<lparr>rr_status = Degraded, rr_redis = Up, rr_dynamo = Down\<rparr>"
proof -
  have "ping sample_client None = (Inr (str ''PONG''), None)" by (simp add: ping_def sample_client_def)
  moreover have "dynamo_ping (\<lambda>_ w. (Inl Null, w)) (None :: (jstr \<times> int) option) = (Inl Null, None)"
    by (simp add: dynamo_ping_def)
  ultimately show ?thesis by (simp add: readiness_reports_both)
qed

end
