(* ===== verification/Tracing.thy ===== *)
theory Tracing
  imports Health
begin

text \<open>
  \<open>src/tracing.ts\<close>: the start and shutdown of tracing as a state machine. The OpenTelemetry SDK is
  a parameter: whether constructing and starting it throws, and how its shutdown settles. The
  process holds the one-shot signal listeners; a signal without a listener ends it, a signal with
  listeners runs them instead, as Node documents.
\<close>

datatype signal = SIGTERM | SIGINT

definition DEFAULT_OTLP_ENDPOINT :: jstr where "DEFAULT_OTLP_ENDPOINT = str ''http://jaeger:4317''"
definition DEFAULT_SERVICE_NAME :: jstr where "DEFAULT_SERVICE_NAME = str ''nestJS-server''"

definition REDACTED_QUERY_PARAMS_SERVER :: "jstr list" where
  "REDACTED_QUERY_PARAMS_SERVER =
     [str ''sig'', str ''Signature'', str ''AWSAccessKeyId'', str ''X-Goog-Signature'', str ''X-Amz-Signature'',
      str ''X-Amz-Credential'', str ''X-Amz-Security-Token'', str ''key'']"

record sdk_options =
  sdk_url :: jstr
  sdk_serviceName :: jstr
  sdk_environment :: jstr
  sdk_redacted :: "jstr list"

record tracing_state =
  sdk :: "sdk_options option"
  started :: bool
  shutdownHookRegistered :: bool
  listeners :: "signal list"
  exited :: bool

definition tracing_initial :: tracing_state where
  "tracing_initial = \<lparr>sdk = None, started = False, shutdownHookRegistered = False, listeners = [], exited = False\<rparr>"

definition enabled_options :: env_flag_options where
  "enabled_options = \<lparr>flag_defaultValue = Some True, flag_warnOnUnknown = Some True,
     flag_label = Some (str ''OTEL_ENABLED'')\<rparr>"

definition parseEnabled :: "jstr option \<Rightarrow> bool \<times> jstr list" where
  "parseEnabled v = parseEnvFlag v enabled_options"

text \<open>\<open>value?.trim() || fallback\<close>.\<close>

definition trimmed_or :: "jstr option \<Rightarrow> jstr \<Rightarrow> jstr" where
  "trimmed_or v fallback = (case v of None \<Rightarrow> fallback | Some s \<Rightarrow> if trim s = [] then fallback else trim s)"

definition sdk_options_of :: "environment \<Rightarrow> sdk_options" where
  "sdk_options_of env =
     \<lparr>sdk_url = trimmed_or (env (str ''OTEL_EXPORTER_OTLP_ENDPOINT'')) DEFAULT_OTLP_ENDPOINT,
      sdk_serviceName = trimmed_or (env (str ''OTEL_SERVICE_NAME'')) DEFAULT_SERVICE_NAME,
      sdk_environment = trimmed_or (env (str ''NODE_ENV'')) (str ''development''),
      sdk_redacted = REDACTED_QUERY_PARAMS_SERVER\<rparr>"

text \<open>The hook that keeps health probes out of the traces.\<close>

definition ignoreIncomingRequestHook :: "url_pathname \<Rightarrow> jstr option \<Rightarrow> bool" where
  "ignoreIncomingRequestHook url_pathname url = isHealthRequest url_pathname url"

definition registerShutdownHook :: "tracing_state \<Rightarrow> tracing_state" where
  "registerShutdownHook st =
     (if shutdownHookRegistered st then st
      else st\<lparr>shutdownHookRegistered := True, listeners := listeners st @ [SIGTERM, SIGINT]\<rparr>)"

text \<open>What the SDK does: the error of constructing it, then of starting it.\<close>

record sdk_outcome =
  construct_error :: "jsval option"
  start_error :: "jsval option"

text \<open>\<open>error instanceof Error ? error.message : String(error)\<close>; \<open>to_string\<close> is \<open>String\<close> on thrown
  values that are no errors.\<close>

definition failed_to_start :: "(jsval \<Rightarrow> jstr) \<Rightarrow> jsval \<Rightarrow> jstr list" where
  "failed_to_start to_string err =
     [str ''[tracing] failed to start: '' @ (case err of Err m _ \<Rightarrow> m | _ \<Rightarrow> to_string err)]"

definition initTracing ::
  "(jsval \<Rightarrow> jstr) \<Rightarrow> sdk_outcome \<Rightarrow> environment \<Rightarrow> tracing_state \<Rightarrow> tracing_state \<times> jstr list" where
  "initTracing to_string outcome env st =
     (if started st then (st, [])
      else (let (enabled, warnings) = parseEnabled (env (str ''OTEL_ENABLED'')) in
        if \<not> enabled then (st, warnings)
        else (case construct_error outcome of
           Some err \<Rightarrow> (st, warnings @ failed_to_start to_string err)
         | None \<Rightarrow>
             (let st1 = st\<lparr>sdk := Some (sdk_options_of env)\<rparr> in
              case start_error outcome of
                Some err \<Rightarrow> (st1, warnings @ failed_to_start to_string err)
              | None \<Rightarrow> (registerShutdownHook (st1\<lparr>started := True\<rparr>), warnings)))))"

text \<open>\<open>shutdownTracing\<close>: the state is reset before the SDK's shutdown settles; the result is the SDK
  asked to shut down, if any.\<close>

definition shutdownTracing :: "tracing_state \<Rightarrow> tracing_state \<times> sdk_options option" where
  "shutdownTracing st =
     (if \<not> started st \<or> sdk st = None then (st, None)
      else (st\<lparr>sdk := None, started := False\<rparr>, sdk st))"

definition isTracingStarted :: "tracing_state \<Rightarrow> bool" where
  "isTracingStarted st = started st"

definition deliver_signal :: "signal \<Rightarrow> tracing_state \<Rightarrow> tracing_state" where
  "deliver_signal s st =
     (if s \<in> set (listeners st) then fst (shutdownTracing (st\<lparr>listeners := remove1 s (listeners st)\<rparr>))
      else st\<lparr>exited := True\<rparr>)"

datatype tracing_event = Init "jsval \<Rightarrow> jstr" sdk_outcome environment | ShutdownCalled | Signal signal

fun tracing_exec :: "tracing_event \<Rightarrow> tracing_state \<Rightarrow> tracing_state" where
  "tracing_exec (Init to_string outcome env) st = fst (initTracing to_string outcome env st)"
| "tracing_exec ShutdownCalled st = fst (shutdownTracing st)"
| "tracing_exec (Signal s) st = deliver_signal s st"

inductive tracing_reachable :: "tracing_state \<Rightarrow> bool" where
  tracing_start: "tracing_reachable tracing_initial"
| tracing_next: "tracing_reachable st \<Longrightarrow> \<not> exited st \<Longrightarrow> tracing_reachable (tracing_exec ev st)"

section \<open>Facts\<close>

definition tracing_inv :: "tracing_state \<Rightarrow> bool" where
  "tracing_inv st \<longleftrightarrow> (started st \<longrightarrow> sdk st \<noteq> None \<and> shutdownHookRegistered st) \<and>
     distinct (listeners st) \<and> (\<not> shutdownHookRegistered st \<longrightarrow> listeners st = [])"

lemma tracing_exec_inv: "tracing_inv st \<Longrightarrow> tracing_inv (tracing_exec ev st)"
  by (cases ev)
    (auto simp: tracing_inv_def initTracing_def shutdownTracing_def deliver_signal_def registerShutdownHook_def
      Let_def distinct_remove1 split: prod.split option.split)

lemma tracing_reachable_inv: "tracing_reachable st \<Longrightarrow> tracing_inv st"
  by (induction rule: tracing_reachable.induct)
    (simp add: tracing_inv_def tracing_initial_def, rule tracing_exec_inv)

section \<open>Properties\<close>


definition sdk_ok :: sdk_outcome where
  "sdk_ok = \<lparr>construct_error = None, start_error = None\<rparr>"


text \<open>Once tracing has started, the first SIGTERM no longer ends the process: its listener only
  shuts tracing down, and nothing stops the server.\<close>

theorem sigterm_does_not_exit:
  assumes "started (fst (initTracing to_string outcome env tracing_initial))"
  shows "let st = deliver_signal SIGTERM (fst (initTracing to_string outcome env tracing_initial))
    in \<not> exited st \<and> \<not> started st \<and> exited (deliver_signal SIGTERM tracing_initial)"
  using assms
  by (auto simp: initTracing_def tracing_initial_def registerShutdownHook_def deliver_signal_def shutdownTracing_def
      Let_def split: prod.splits option.splits if_splits)

theorem sigterm_does_not_exit_witness:
  "\<not> exited (deliver_signal SIGTERM (fst (initTracing (\<lambda>_. []) sdk_ok (\<lambda>_. None) tracing_initial)))"
proof -
  have "fst (parseEnabled None)" by (simp add: parseEnabled_def parseEnvFlag_def enabled_options_def or_default_def)
  then have "started (fst (initTracing (\<lambda>_. []) sdk_ok (\<lambda>_. None) tracing_initial))"
    by (simp add: initTracing_def tracing_initial_def sdk_ok_def registerShutdownHook_def split_def)
  from sigterm_does_not_exit [OF this] show ?thesis by (simp add: Let_def)
qed

end
