(* ===== verification/Metrics.thy ===== *)
theory Metrics
  imports Tracing
begin

text \<open>
  \<open>src/metrics\<close>: the HTTP observations and the scrape server (\<open>metrics.service.ts\<close>), the
  middleware that records a request when its response finishes or closes
  (\<open>metrics.middleware.ts\<close>) and their settings (\<open>metrics.constants.ts\<close>). Calls on the metrics of
  \<open>prom-client\<close> and on an HTTP response are effects; the clock, the rendered registry and the URL
  parser are parameters.
\<close>

section \<open>Settings\<close>

definition METRICS_PORT :: nat where "METRICS_PORT = 9464"
definition METRICS_PATH :: jstr where "METRICS_PATH = str ''/metrics''"
definition UNKNOWN_ROUTE :: jstr where "UNKNOWN_ROUTE = str ''unknown''"

definition HISTOGRAM_BUCKETS :: "rat list" where
  "HISTOGRAM_BUCKETS = [5/1000, 1/100, 25/1000, 5/100, 1/10, 25/100, 5/10, 1, 25/10]"

definition HTTP_REQUESTS_TOTAL :: jstr where "HTTP_REQUESTS_TOTAL = str ''http_requests_total''"
definition HTTP_REQUEST_DURATION_SECONDS :: jstr where
  "HTTP_REQUEST_DURATION_SECONDS = str ''http_request_duration_seconds''"
definition HTTP_REQUEST_SIZE_BYTES :: jstr where "HTTP_REQUEST_SIZE_BYTES = str ''http_request_size_bytes''"
definition HTTP_RESPONSE_SIZE_BYTES :: jstr where "HTTP_RESPONSE_SIZE_BYTES = str ''http_response_size_bytes''"
definition HTTP_IN_FLIGHT_REQUESTS :: jstr where "HTTP_IN_FLIGHT_REQUESTS = str ''http_in_flight_requests''"

definition getMetricsConfig :: "environment \<Rightarrow> bool \<times> jstr list" where
  "getMetricsConfig env =
     parseEnvFlag (env (str ''METRICS_ENABLED''))
       \<lparr>flag_defaultValue = Some True, flag_warnOnUnknown = Some True, flag_label = Some (str ''METRICS_ENABLED'')\<rparr>"

section \<open>The metrics\<close>

text \<open>What the constructor registers on the service's own registry, in order; the runtime metrics of
  \<open>collectDefaultMetrics\<close> follow.\<close>

definition HTTP_LABELS :: "jstr list" where
  "HTTP_LABELS = [str ''method'', str ''route'', str ''status_code'']"

datatype metric_kind = Counter | Histogram "rat list" | Summary "rat list" | Gauge

record metric_definition =
  md_kind :: metric_kind
  md_name :: jstr
  md_help :: jstr
  md_labelNames :: "jstr list"

definition createSizeSummary :: "jstr \<Rightarrow> jstr \<Rightarrow> metric_definition" where
  "createSizeSummary name help =
     \<lparr>md_kind = Summary [], md_name = name, md_help = help, md_labelNames = HTTP_LABELS\<rparr>"

definition metrics_constructor :: "metric_definition list" where
  "metrics_constructor =
     [\<lparr>md_kind = Counter, md_name = HTTP_REQUESTS_TOTAL,
       md_help = str ''Total HTTP requests by method, route template, and status code.'', md_labelNames = HTTP_LABELS\<rparr>,
      \<lparr>md_kind = Histogram HISTOGRAM_BUCKETS, md_name = HTTP_REQUEST_DURATION_SECONDS,
       md_help = str ''HTTP request duration in seconds by method, route, and status.'', md_labelNames = HTTP_LABELS\<rparr>,
      createSizeSummary HTTP_REQUEST_SIZE_BYTES (str ''HTTP request body size in bytes by method, route, and status.''),
      createSizeSummary HTTP_RESPONSE_SIZE_BYTES (str ''HTTP response body size in bytes by method, route, and status.''),
      \<lparr>md_kind = Gauge, md_name = HTTP_IN_FLIGHT_REQUESTS,
       md_help = str ''Application requests currently being handled (health probes excluded).'', md_labelNames = []\<rparr>]"

text \<open>\<open>prom-client\<close> refuses a second metric of a name, buckets that do not grow and labels that were
  not declared; none of these can happen here.\<close>

lemma metrics_register: "distinct (map md_name metrics_constructor)" "sorted HISTOGRAM_BUCKETS" "distinct HISTOGRAM_BUCKETS"
  by (simp_all add: metrics_constructor_def createSizeSummary_def HTTP_REQUESTS_TOTAL_def HTTP_REQUEST_DURATION_SECONDS_def
      HTTP_REQUEST_SIZE_BYTES_def HTTP_RESPONSE_SIZE_BYTES_def HTTP_IN_FLIGHT_REQUESTS_def HISTOGRAM_BUCKETS_def)

section \<open>Observations\<close>

record http_labels =
  l_method :: jstr
  l_route :: jstr
  l_status_code :: jstr

record http_observation =
  ob_method :: jstr
  ob_route :: jstr
  ob_statusCode :: int
  ob_durationSeconds :: number
  ob_requestBytes :: number
  ob_responseBytes :: number

datatype metric_effect =
    RequestsInc http_labels
  | DurationObserve http_labels number
  | RequestSizeObserve http_labels number
  | ResponseSizeObserve http_labels number
  | InFlightInc
  | InFlightDec

definition invalid_amount :: "number \<Rightarrow> bool" where
  "invalid_amount x \<longleftrightarrow> \<not> is_finite x \<or> num_less x (Fin 0)"

definition observeHttp :: "http_observation \<Rightarrow> metric_effect list throws" where
  "observeHttp ob =
     (if invalid_amount (ob_durationSeconds ob) then
        Inl (new_error (str ''Invalid durationSeconds: '' @ num_text (ob_durationSeconds ob)))
      else if invalid_amount (ob_requestBytes ob) \<or> invalid_amount (ob_responseBytes ob) then
        Inl (new_error (str ''Invalid byte sizes: '' @ num_text (ob_requestBytes ob) @ str '', ''
               @ num_text (ob_responseBytes ob)))
      else
        (let labels = \<lparr>l_method = ob_method ob, l_route = ob_route ob, l_status_code = int_text (ob_statusCode ob)\<rparr>
         in Inr [RequestsInc labels, DurationObserve labels (ob_durationSeconds ob),
                 RequestSizeObserve labels (ob_requestBytes ob), ResponseSizeObserve labels (ob_responseBytes ob)]))"

text \<open>\<open>trackInFlight\<close> hands out a callback that owns one flag.\<close>

definition trackInFlight :: "bool \<times> metric_effect list" where
  "trackInFlight = (False, [InFlightInc])"

definition release_in_flight :: "bool \<Rightarrow> bool \<times> metric_effect list" where
  "release_in_flight flag = (if flag then (flag, []) else (True, [InFlightDec]))"

section \<open>The middleware\<close>

text \<open>The matched Express route as the middleware finds it: any value.\<close>

definition resolveRouteLabel :: "jsval \<Rightarrow> jstr" where
  "resolveRouteLabel candidate =
     (if \<not> is_object candidate then UNKNOWN_ROUTE
      else (case get_prop candidate (str ''path'') of Str path \<Rightarrow> path | _ \<Rightarrow> UNKNOWN_ROUTE))"

definition resolveRequestUrl :: "jstr option \<Rightarrow> jstr option \<Rightarrow> jstr option \<Rightarrow> jstr option" where
  "resolveRequestUrl originalUrl url path =
     (case originalUrl of Some u \<Rightarrow> Some u | None \<Rightarrow> (case url of Some u \<Rightarrow> Some u | None \<Rightarrow> path))"

definition parseByteLength :: "jsval \<Rightarrow> number" where
  "parseByteLength v =
     (let raw = (case v of Arr [] \<Rightarrow> Undefined | Arr (x # _) \<Rightarrow> x | _ \<Rightarrow> v) in
      case raw of
        Num n \<Rightarrow> if is_finite n \<and> num_less (Fin 0) n then n else Fin 0
      | Str s \<Rightarrow> (let parsed = js_parseInt s in
                  if is_finite parsed \<and> num_less (Fin 0) parsed then parsed else Fin 0)
      | _ \<Rightarrow> Fin 0)"

text \<open>\<open>Number(nanoseconds) / 1e9\<close>.\<close>

definition duration_seconds :: "int \<Rightarrow> number" where
  "duration_seconds nanoseconds =
     (case to_double (of_int nanoseconds) of
        Fin r \<Rightarrow> to_double (r / 1000000000)
      | x \<Rightarrow> x)"

record http_request =
  hr_originalUrl :: "jstr option"
  hr_url :: "jstr option"
  hr_path :: "jstr option"
  hr_method :: jstr
  hr_contentLength :: jsval

text \<open>What the listeners of one response close over, and which of them are still installed.\<close>

record request_track =
  rt_start :: int
  rt_method :: jstr
  rt_requestBytes :: number
  rt_released :: bool
  rt_onFinish :: bool
  rt_onClose :: bool

definition use_middleware ::
  "url_pathname \<Rightarrow> int \<Rightarrow> http_request \<Rightarrow> request_track option \<times> metric_effect list" where
  "use_middleware url_pathname hrtime req =
     (if isHealthRequest url_pathname (resolveRequestUrl (hr_originalUrl req) (hr_url req) (hr_path req))
      then (None, [])
      else
        (let (flag, effs) = trackInFlight in
         (Some \<lparr>rt_start = hrtime, rt_method = hr_method req, rt_requestBytes = parseByteLength (hr_contentLength req),
            rt_released = flag, rt_onFinish = True, rt_onClose = True\<rparr>, effs)))"

record http_response =
  hs_route :: jsval
  hs_statusCode :: int
  hs_contentLength :: jsval

definition observation_of :: "request_track \<Rightarrow> int \<Rightarrow> http_response \<Rightarrow> http_observation" where
  "observation_of rt hrtime res =
     \<lparr>ob_method = rt_method rt, ob_route = resolveRouteLabel (hs_route res), ob_statusCode = hs_statusCode res,
      ob_durationSeconds = duration_seconds (hrtime - rt_start rt), ob_requestBytes = rt_requestBytes rt,
      ob_responseBytes = parseByteLength (hs_contentLength res)\<rparr>"

text \<open>The listeners run once; \<open>finish\<close> releases whether or not the observation throws.\<close>

definition on_finish :: "int \<Rightarrow> http_response \<Rightarrow> request_track \<Rightarrow> unit throws \<times> request_track \<times> metric_effect list" where
  "on_finish hrtime res rt =
     (if \<not> rt_onFinish rt then (Inr (), rt, [])
      else
        (let (flag, effs) = release_in_flight (rt_released rt);
             rt' = rt\<lparr>rt_onFinish := False, rt_released := flag\<rparr>
         in case observeHttp (observation_of rt hrtime res) of
              Inl e \<Rightarrow> (Inl e, rt', effs)
            | Inr observed \<Rightarrow> (Inr (), rt', observed @ effs)))"

definition on_response_close :: "request_track \<Rightarrow> request_track \<times> metric_effect list" where
  "on_response_close rt =
     (if \<not> rt_onClose rt then (rt, [])
      else
        (let (flag, effs) = release_in_flight (rt_released rt) in
         (rt\<lparr>rt_onClose := False, rt_released := flag\<rparr>, effs)))"

section \<open>The scrape server\<close>

datatype response_effect = WriteHead nat jstr | End jstr

text \<open>The registry, as far as a scrape reads it.\<close>

record registry =
  reg_contentType :: jstr
  reg_metrics :: "jstr throws"

definition getContentType :: "registry \<Rightarrow> jstr" where
  "getContentType registry = reg_contentType registry"

definition getMetrics :: "registry \<Rightarrow> jstr throws" where
  "getMetrics registry = reg_metrics registry"

text \<open>The handler is called without awaiting its promise: a throw before its \<open>try\<close> is a rejection
  nothing handles, the left side here.\<close>

definition handleScrape ::
  "url_pathname \<Rightarrow> registry \<Rightarrow> jstr option \<Rightarrow> jstr \<Rightarrow> response_effect list throws" where
  "handleScrape url_pathname registry url method =
     (case url_pathname (or_default (str ''/'') url) of
        None \<Rightarrow> Inl (Err (str ''Invalid URL'') [(str ''code'', Str (str ''ERR_INVALID_URL'')),
                                            (str ''name'', Str (str ''TypeError''))])
      | Some pathname \<Rightarrow>
          if method \<noteq> str ''GET'' \<or> pathname \<noteq> METRICS_PATH then
            Inr [WriteHead 404 (str ''text/plain''), End (str ''not found'')]
          else (case getMetrics registry of
             Inr body \<Rightarrow> Inr [WriteHead 200 (getContentType registry), End body]
           | Inl _ \<Rightarrow> Inr [WriteHead 500 (str ''text/plain''), End (str ''metrics unavailable'')]))"

text \<open>Binding the port: the promise of \<open>listen\<close> and its two one-shot listeners. An \<open>error\<close> that
  finds no listener ends the process.\<close>

datatype listen_promise = Pending | Bound | Refused jsval

record listener =
  li_promise :: listen_promise
  li_onError :: bool
  li_crashed :: bool

datatype listener_event = ServerListening | ServerError jsval

definition listen :: listener where
  "listen = \<lparr>li_promise = Pending, li_onError = True, li_crashed = False\<rparr>"

definition settle_listen :: "listen_promise \<Rightarrow> listener \<Rightarrow> listener" where
  "settle_listen r l = (if li_promise l = Pending then l\<lparr>li_promise := r\<rparr> else l)"

definition listener_step :: "listener_event \<Rightarrow> listener \<Rightarrow> listener" where
  "listener_step ev l =
     (if li_crashed l then l
      else (case ev of
         ServerListening \<Rightarrow> settle_listen Bound (l\<lparr>li_onError := False\<rparr>)
       | ServerError err \<Rightarrow>
           if li_onError l then settle_listen (Refused err) (l\<lparr>li_onError := False\<rparr>)
           else l\<lparr>li_crashed := True\<rparr>))"

text \<open>The first event decides the promise, once; a refused port never ends the process.\<close>

lemma listen_settles_once:
  "li_promise (fold listener_step evs listen) =
     (case evs of [] \<Rightarrow> Pending | ServerListening # _ \<Rightarrow> Bound | ServerError err # _ \<Rightarrow> Refused err)"
proof -
  have settled: "li_promise l \<noteq> Pending \<Longrightarrow> li_promise (fold listener_step evs l) = li_promise l" for l evs
    by (induction evs arbitrary: l) (simp_all add: listener_step_def settle_listen_def split: listener_event.split)
  show ?thesis
  proof (cases evs)
    case (Cons ev rest)
    then show ?thesis using settled [of "listener_step ev listen" rest]
      by (cases ev) (simp_all add: listener_step_def settle_listen_def listen_def)
  qed (simp add: listen_def)
qed

lemma bind_failure_survives: "\<not> li_crashed (fold listener_step [ServerError err] listen)"
  by (simp add: listener_step_def settle_listen_def listen_def)

text \<open>The server the service holds, if it is listening. \<open>listening\<close> is how binding the port settled,
  \<open>closed\<close> how closing does.\<close>

definition metrics_onModuleInit ::
  "(jsval \<Rightarrow> jstr) \<Rightarrow> 'server throws \<Rightarrow> environment \<Rightarrow> 'server option \<times> jstr list" where
  "metrics_onModuleInit to_string listening env =
     (let (enabled, warnings) = getMetricsConfig env in
      if \<not> enabled then (None, warnings)
      else (case listening of
         Inr server \<Rightarrow> (Some server, warnings @ [str ''Metrics scraping on :'' @ dec_digits METRICS_PORT @ str ''/metrics''])
       | Inl err \<Rightarrow> (None, warnings @ [str ''Failed to start scrape server: ''
                     @ (case err of Err m _ \<Rightarrow> m | _ \<Rightarrow> to_string err)])))"

definition metrics_onModuleDestroy :: "('server \<Rightarrow> unit throws) \<Rightarrow> 'server option \<Rightarrow> 'server option \<times> unit throws" where
  "metrics_onModuleDestroy close server = (None, case server of None \<Rightarrow> Inr () | Some s \<Rightarrow> close s)"

section \<open>Facts\<close>

lemma parseByteLength_valid: "\<not> invalid_amount (parseByteLength v)"
proof -
  have "num_less (Fin 0) x \<Longrightarrow> \<not> num_less x (Fin 0)" for x by (cases x) auto
  then show ?thesis
    by (simp add: parseByteLength_def Let_def invalid_amount_def is_finite_def split: jsval.split list.split)
qed

lemma bit_exp_less: "0 < x \<Longrightarrow> x < 2 ^ k \<Longrightarrow> bit_exp x < int k"
proof -
  assume "0 < x" "x < 2 ^ k"
  then have "2 powi bit_exp x < (2 :: rat) powi int k"
    using bit_exp_bounds [of x] by (simp add: power_int_def)
  then show ?thesis by (simp only: two_powi_less_iff)
qed

text \<open>Rounding a value below \<open>2\<^sup>k\<close> stays finite and at most \<open>2\<^sup>k\<^sup>+\<^sup>1\<close>.\<close>

lemma to_double_small:
  assumes "0 \<le> x" "x < 2 ^ k" "k \<le> 1000"
  obtains r where "to_double x = Fin r" "0 \<le> r" "r \<le> 2 ^ (k + 1)"
proof (cases "x = 0")
  case True
  then show thesis using that [of 0] by (simp add: to_double_def)
next
  case False
  then have x: "0 < x" using assms(1) by simp
  obtain m where m: "0 \<le> m" "m \<le> 2 ^ 53" "round_double x = of_int m * 2 powi ulp_exp x"
    using round_double_shape [OF x] by blast
  have "(of_int m :: rat) \<le> of_int (2 ^ 53)" using m(2) by (simp only: of_int_le_iff)
  then have "round_double x \<le> 2 powi 53 * 2 powi ulp_exp x" by (simp add: m(3))
  also have "\<dots> = 2 powi (53 + ulp_exp x)" by (simp add: power_int_add)
  also have "\<dots> \<le> 2 powi int (k + 1)"
    using bit_exp_less [OF x assms(2)] by (intro power_int_increasing) (auto simp: ulp_exp_def)
  also have "\<dots> = 2 ^ (k + 1)" by (simp only: power_int_of_nat)
  finally have le: "round_double x \<le> 2 ^ (k + 1)" .
  also have "\<dots> < (2 :: rat) ^ 1024" using assms(3) by (intro power_strict_increasing) auto
  finally have "round_double x < 2 powi 1024" by simp
  with x le round_double_nonneg [OF x] that [of "round_double x"] show thesis by (simp add: to_double_def Let_def)
qed

lemma duration_valid:
  assumes "0 \<le> ns" "ns < 2 ^ 64"
  shows "\<not> invalid_amount (duration_seconds ns)"
proof -
  have "(of_int ns :: rat) < of_int (2 ^ 64)" using assms(2) by (simp only: of_int_less_iff)
  then obtain r where r: "to_double (of_int ns) = Fin r" "0 \<le> r" "r \<le> 2 ^ 65"
    using to_double_small [of "of_int ns" 64] assms(1) by auto
  have "r / 1000000000 < 2 ^ 66" using r(3) by simp
  then obtain q where "to_double (r / 1000000000) = Fin q" "0 \<le> q"
    using to_double_small [of "r / 1000000000" 66] r(2) by auto
  with r(1) show ?thesis by (simp add: duration_seconds_def invalid_amount_def is_finite_def)
qed

section \<open>One request\<close>

datatype response_event = Finished int http_response | ClosedEarly

fun respond :: "response_event list \<Rightarrow> request_track \<Rightarrow> request_track \<times> metric_effect list" where
  "respond [] rt = (rt, [])"
| "respond (Finished t res # evs) rt =
     (let (_, rt', effs) = on_finish t res rt; (rt'', effs') = respond evs rt' in (rt'', effs @ effs'))"
| "respond (ClosedEarly # evs) rt =
     (let (rt', effs) = on_response_close rt; (rt'', effs') = respond evs rt' in (rt'', effs @ effs'))"

fun gauge :: "metric_effect list \<Rightarrow> int" where
  "gauge [] = 0"
| "gauge (InFlightInc # es) = 1 + gauge es"
| "gauge (InFlightDec # es) = gauge es - 1"
| "gauge (_ # es) = gauge es"

fun observed :: "metric_effect list \<Rightarrow> nat" where
  "observed [] = 0"
| "observed (RequestsInc _ # es) = Suc (observed es)"
| "observed (_ # es) = observed es"

lemma gauge_append [simp]: "gauge (a @ b) = gauge a + gauge b"
  by (induction a rule: gauge.induct) auto

lemma observed_append [simp]: "observed (a @ b) = observed a + observed b"
  by (induction a rule: observed.induct) auto

lemma respond_released: "rt_released rt \<Longrightarrow> gauge (snd (respond evs rt)) = 0"
proof (induction evs arbitrary: rt)
  case (Cons ev evs)
  show ?case
  proof (cases ev)
    case (Finished t res)
    have "rt_released (fst (snd (on_finish t res rt)))" "gauge (snd (snd (on_finish t res rt))) = 0"
      using Cons.prems by (auto simp: on_finish_def release_in_flight_def observeHttp_def Let_def split: sum.split)
    with Cons.IH [of "fst (snd (on_finish t res rt))"] Finished show ?thesis by (simp add: split_def Let_def)
  next
    case ClosedEarly
    have "rt_released (fst (on_response_close rt))" "gauge (snd (on_response_close rt)) = 0"
      using Cons.prems by (simp_all add: on_response_close_def release_in_flight_def)
    with Cons.IH [of "fst (on_response_close rt)"] ClosedEarly show ?thesis by (simp add: split_def Let_def)
  qed
qed simp

lemma respond_finished: "\<not> rt_onFinish rt \<Longrightarrow> observed (snd (respond evs rt)) = 0"
proof (induction evs arbitrary: rt)
  case (Cons ev evs)
  show ?case
  proof (cases ev)
    case (Finished t res)
    then show ?thesis using Cons by (simp add: split_def Let_def on_finish_def)
  next
    case ClosedEarly
    have "\<not> rt_onFinish (fst (on_response_close rt))" "observed (snd (on_response_close rt)) = 0"
      using Cons.prems by (simp_all add: on_response_close_def release_in_flight_def split_def Let_def)
    with Cons.IH [of "fst (on_response_close rt)"] ClosedEarly show ?thesis by (simp add: split_def Let_def)
  qed
qed simp

text \<open>The first listener to run on a fresh request gives the slot back.\<close>

definition fresh_track :: "request_track \<Rightarrow> bool" where
  "fresh_track rt \<longleftrightarrow> \<not> rt_released rt \<and> rt_onFinish rt \<and> rt_onClose rt"

lemma respond_gauge: "fresh_track rt \<Longrightarrow> gauge (snd (respond evs rt)) = (if evs = [] then 0 else - 1)"
proof (cases evs)
  case (Cons ev es)
  assume f: "fresh_track rt"
  show ?thesis
  proof (cases ev)
    case (Finished t res)
    have "rt_released (fst (snd (on_finish t res rt)))" "gauge (snd (snd (on_finish t res rt))) = - 1"
      using f by (auto simp: fresh_track_def on_finish_def release_in_flight_def observeHttp_def Let_def split: sum.split)
    with respond_released [of "fst (snd (on_finish t res rt))" es] Cons Finished show ?thesis
      by (simp add: split_def Let_def)
  next
    case ClosedEarly
    have "rt_released (fst (on_response_close rt))" "gauge (snd (on_response_close rt)) = - 1"
      using f by (simp_all add: fresh_track_def on_response_close_def release_in_flight_def)
    with respond_released [of "fst (on_response_close rt)" es] Cons ClosedEarly show ?thesis
      by (simp add: split_def Let_def)
  qed
qed simp

lemma respond_observed:
  assumes "rt_onFinish rt" "\<not> invalid_amount (rt_requestBytes rt)"
    and "\<forall>t res. Finished t res \<in> set evs \<longrightarrow> 0 \<le> t - rt_start rt \<and> t - rt_start rt < 2 ^ 64"
  shows "observed (snd (respond evs rt)) = (if \<exists>t res. Finished t res \<in> set evs then 1 else 0)"
  using assms
proof (induction evs arbitrary: rt)
  case (Cons ev evs)
  show ?case
  proof (cases ev)
    case (Finished t res)
    have "\<not> invalid_amount (duration_seconds (t - rt_start rt))"
      using Cons.prems(3) Finished by (intro duration_valid) auto
    then have "observed (snd (snd (on_finish t res rt))) = 1" "\<not> rt_onFinish (fst (snd (on_finish t res rt)))"
      using Cons.prems(1,2) parseByteLength_valid
      by (auto simp: on_finish_def observeHttp_def observation_of_def release_in_flight_def Let_def)
    with respond_finished [of "fst (snd (on_finish t res rt))" evs] Finished show ?thesis
      by (auto simp: split_def Let_def)
  next
    case ClosedEarly
    let ?rt = "fst (on_response_close rt)"
    have "rt_onFinish ?rt = rt_onFinish rt" "rt_requestBytes ?rt = rt_requestBytes rt" "rt_start ?rt = rt_start rt"
      "observed (snd (on_response_close rt)) = 0"
      by (simp_all add: on_response_close_def release_in_flight_def split_def Let_def)
    with Cons.IH [of ?rt] Cons.prems ClosedEarly show ?thesis by (simp add: split_def Let_def)
  qed
qed simp

section \<open>Properties\<close>

text \<open>C31: However the finish and close of its response arrive, a request that is not a health probe
  raises the in-flight gauge once and lowers it exactly once, at the first of them, and is counted
  once if it finished and not at all otherwise, whatever its headers say of sizes; a probe leaves no
  trace.\<close>

theorem requests_are_counted_once:
  assumes "use_middleware url_pathname start req = (track, effs)"
    and "\<forall>t res. Finished t res \<in> set evs \<longrightarrow> 0 \<le> t - start \<and> t - start < 2 ^ 64"
  shows "case track of
      None \<Rightarrow> effs = [] \<and> isHealthRequest url_pathname (resolveRequestUrl (hr_originalUrl req) (hr_url req) (hr_path req))
    | Some rt \<Rightarrow>
        gauge effs = 1 \<and>
        gauge (effs @ snd (respond evs rt)) = (if evs = [] then 1 else 0) \<and>
        observed (effs @ snd (respond evs rt)) = (if \<exists>t res. Finished t res \<in> set evs then 1 else 0)"
proof (cases track)
  case None
  then show ?thesis using assms(1)
    by (auto simp: use_middleware_def trackInFlight_def Let_def split: if_splits)
next
  case (Some rt)
  then have "effs = [InFlightInc]" "fresh_track rt" "rt_start rt = start" "\<not> invalid_amount (rt_requestBytes rt)"
    using assms(1) parseByteLength_valid
    by (auto simp: use_middleware_def trackInFlight_def fresh_track_def Let_def split: if_splits)
  moreover from this have "rt_onFinish rt" by (simp add: fresh_track_def)
  ultimately show ?thesis
    using Some respond_gauge [of rt evs] respond_observed [of rt evs] assms(2) by auto
qed

theorem requests_are_counted_once_witness:
  "\<exists>rt effs. use_middleware (\<lambda>u. Some u) 0
      \<lparr>hr_originalUrl = Some (str ''/''), hr_url = None, hr_path = None, hr_method = str ''GET'', hr_contentLength = Undefined\<rparr>
     = (Some rt, effs) \<and> gauge (effs @ snd (respond [ClosedEarly, ClosedEarly] rt)) = 0"
proof -
  let ?req = "\<lparr>hr_originalUrl = Some (str ''/''), hr_url = None, hr_path = None, hr_method = str ''GET'', hr_contentLength = Undefined\<rparr>"
  have "\<not> isHealthRequest (\<lambda>u. Some u) (Some (str ''/''))" by code_simp
  then obtain rt effs where x: "use_middleware (\<lambda>u. Some u) 0 ?req = (Some rt, effs)"
    by (simp add: use_middleware_def trackInFlight_def resolveRequestUrl_def)
  from requests_are_counted_once [OF x, of "[ClosedEarly, ClosedEarly]"] x show ?thesis by auto
qed

text \<open>An observation is recorded whole or not at all: with finite non-negative duration and sizes
  it moves all four metrics under the same labels, otherwise it throws and moves none. Sizes read
  from headers are always finite and non-negative.\<close>

theorem observations_are_atomic:
  "(case observeHttp ob of
      Inl e \<Rightarrow> is_error e \<and> (\<exists>x \<in> {ob_durationSeconds ob, ob_requestBytes ob, ob_responseBytes ob}. invalid_amount x)
    | Inr effs \<Rightarrow> \<exists>l. l_method l = ob_method ob \<and> l_route l = ob_route ob \<and> l_status_code l = int_text (ob_statusCode ob) \<and>
        effs = [RequestsInc l, DurationObserve l (ob_durationSeconds ob),
                RequestSizeObserve l (ob_requestBytes ob), ResponseSizeObserve l (ob_responseBytes ob)]) \<and>
   (\<exists>r. parseByteLength header = Fin r \<and> 0 \<le> r)"
  using parseByteLength_valid [of header]
  by (cases "parseByteLength header") (auto simp: observeHttp_def Let_def new_error_def invalid_amount_def is_finite_def)

text \<open>C34: A scrape answers every request whose URL parses with exactly one complete response: the
  metrics on a GET of the scrape path, 404 elsewhere, 500 when rendering fails. A URL that does not
  parse, which is a request any client can send, throws before the handler's \<open>try\<close>: no response is
  completed and nothing handles the rejection.\<close>

theorem scrape_answers:
  "case url_pathname (or_default (str ''/'') url) of
     None \<Rightarrow> isl (handleScrape url_pathname registry url method)
   | Some path \<Rightarrow> \<exists>status ctype body. handleScrape url_pathname registry url method =
         Inr [WriteHead status ctype, End body] \<and>
       (status = 200 \<longleftrightarrow> method = str ''GET'' \<and> path = str ''/metrics'' \<and>
         getMetrics registry = Inr body \<and> ctype = getContentType registry) \<and>
       (status = 404 \<longleftrightarrow> \<not> (method = str ''GET'' \<and> path = str ''/metrics''))"
  by (auto simp: handleScrape_def METRICS_PATH_def split: option.split sum.split)

end
