(* ===== verification/Application.thy ===== *)
theory Application
  imports Auth User_Topics Dynamo Metrics
begin

text \<open>
  The start of the process: \<open>main.ts\<close>, the factories of the modules that read the environment, the
  pipe options, and the constant answers of the application. Nest's container is not modelled; what
  it documents is: creating the application runs the factories; \<open>listen\<close> first asks the WebSocket
  adapter for the gateway's server, then runs the \<open>onModuleInit\<close> hook of every provider, one after the
  other in an order of its own, and binds the port only when all of them have resolved.
\<close>

section \<open>Constants\<close>

definition getHello :: jstr where "getHello = str ''Hello World!''"

definition IS_PUBLIC_KEY :: jstr where "IS_PUBLIC_KEY = str ''isPublic''"

record validation_options =
  vp_whitelist :: bool
  vp_forbidNonWhitelisted :: bool
  vp_transform :: bool

definition createGlobalValidationPipe :: validation_options where
  "createGlobalValidationPipe = \<lparr>vp_whitelist = True, vp_forbidNonWhitelisted = True, vp_transform = True\<rparr>"

section \<open>Factories\<close>

record dynamo_client_options =
  do_endpoint :: jstr
  do_region :: jstr
  do_accessKeyId :: jstr
  do_secretAccessKey :: jstr

definition dynamo_client_factory :: "(jstr \<Rightarrow> parsed_url option) \<Rightarrow> environment \<Rightarrow> dynamo_client_options throws" where
  "dynamo_client_factory parse_url env =
     (case getDynamoConfig parse_url env of
        Inl e \<Rightarrow> Inl e
      | Inr config \<Rightarrow>
          Inr \<lparr>do_endpoint = dc_endpoint config, do_region = dc_region config,
               do_accessKeyId = dc_accessKeyId config, do_secretAccessKey = dc_secretAccessKey config\<rparr>)"

text \<open>The clients of the application: one for commands, one for subscriptions, one for DynamoDB.\<close>

definition create_clients ::
  "(jstr \<Rightarrow> parsed_url option) \<Rightarrow> environment \<Rightarrow> (client_options \<times> client_options \<times> dynamo_client_options) throws" where
  "create_clients parse_url env =
     (case createRedisClient env of
        Inl e \<Rightarrow> Inl e
      | Inr redis \<Rightarrow>
          (case createRedisClient env of
             Inl e \<Rightarrow> Inl e
           | Inr subscriber \<Rightarrow>
               (case dynamo_client_factory parse_url env of
                  Inl e \<Rightarrow> Inl e
                | Inr dynamo \<Rightarrow> Inr (redis, subscriber, dynamo))))"

section \<open>Initialization hooks\<close>

datatype init_hook = RedisInit | TopicsInit | DynamoInit | MetricsInit

record ('w, 'server) deployment =
  dp_env :: environment
  dp_parse_url :: "jstr \<Rightarrow> parsed_url option"
  dp_redis :: "'w redis_client"
  dp_subscriber :: "'w redis_client"
  dp_dynamo :: "'w dynamo_client"
  dp_metrics_server :: "'server throws"
  dp_to_string :: "jsval \<Rightarrow> jstr"

fun run_hook :: "('w, 'server) deployment \<Rightarrow> init_hook \<Rightarrow> ('w, unit) action" where
  "run_hook dp RedisInit w = (case redis_onModuleInit (dp_redis dp) w of (r, w', _) \<Rightarrow> (r, w'))"
| "run_hook dp TopicsInit w = (case topics_onModuleInit (dp_subscriber dp) w of (r, w', _) \<Rightarrow> (r, w'))"
| "run_hook dp DynamoInit w =
     (case dynamo_onModuleInit (dp_dynamo dp) (dp_parse_url dp) (dp_env dp) w of (r, w', _) \<Rightarrow> (r, w'))"
| "run_hook dp MetricsInit w =
     (case metrics_onModuleInit (dp_to_string dp) (dp_metrics_server dp) (dp_env dp) of (_, _) \<Rightarrow> (Inr (), w))"

fun run_hooks :: "('w, 'server) deployment \<Rightarrow> init_hook list \<Rightarrow> ('w, unit) action" where
  "run_hooks dp [] w = (Inr (), w)"
| "run_hooks dp (h # hs) w =
     (case run_hook dp h w of (Inl e, w') \<Rightarrow> (Inl e, w') | (Inr _, w') \<Rightarrow> run_hooks dp hs w')"

section \<open>Bootstrap\<close>

datatype boot_effect =
    UseGlobalPipes validation_options
  | UseWebSocketAdapter
  | ListenOn jsval
  | ConsoleError jsval
  | Exit nat

text \<open>\<open>process.env.PORT ?? 3000\<close>.\<close>

definition listen_port :: "environment \<Rightarrow> jsval" where
  "listen_port env = (case env (str ''PORT'') of Some p \<Rightarrow> Str p | None \<Rightarrow> Num (Fin 3000))"

text \<open>\<open>created\<close> is how \<open>NestFactory.create\<close> settles, \<open>listened\<close> how \<open>app.listen\<close> does.\<close>

definition bootstrap ::
  "environment \<Rightarrow> 'app throws \<Rightarrow> ('w, unit) action \<Rightarrow> 'w \<Rightarrow> boot_effect list \<times> 'w" where
  "bootstrap env created listened w =
     (case created of
        Inl err \<Rightarrow> ([ConsoleError err, Exit 1], w)
      | Inr _ \<Rightarrow>
          (let (r, w') = listened w;
               setup = [UseGlobalPipes createGlobalValidationPipe, UseWebSocketAdapter, ListenOn (listen_port env)]
           in case r of
                Inl err \<Rightarrow> (setup @ [ConsoleError err, Exit 1], w')
              | Inr _ \<Rightarrow> (setup, w')))"

text \<open>\<open>bind\<close> is the operating system's answer to the port.\<close>

definition app_listen ::
  "('w, 'server) deployment \<Rightarrow> init_hook list \<Rightarrow> ('w, unit) action \<Rightarrow> ('w, unit) action" where
  "app_listen dp order bind w =
     (case adapter_create (dp_env dp) [(str ''path'', Str (str ''/ws''))] of
        Inl e \<Rightarrow> (Inl e, w)
      | Inr _ \<Rightarrow>
          (case run_hooks dp order w of (Inl e, w') \<Rightarrow> (Inl e, w') | (Inr _, w') \<Rightarrow> bind w'))"

text \<open>The whole module: tracing first, then \<open>bootstrap\<close>.\<close>

definition main_module ::
  "sdk_outcome \<Rightarrow> ('w, 'server) deployment \<Rightarrow> init_hook list \<Rightarrow> ('w, unit) action \<Rightarrow> 'w
     \<Rightarrow> tracing_state \<times> boot_effect list \<times> 'w" where
  "main_module outcome dp order bind w =
     (fst (initTracing (dp_to_string dp) outcome (dp_env dp) tracing_initial),
      bootstrap (dp_env dp) (create_clients (dp_parse_url dp) (dp_env dp))
        (app_listen dp order bind) w)"

section \<open>Facts\<close>

text \<open>A dependency that never answers.\<close>

fun unreachable :: "('w, 'server) deployment \<Rightarrow> init_hook \<Rightarrow> bool" where
  "unreachable dp RedisInit \<longleftrightarrow> (\<forall>w. isl (fst (c_connect (dp_redis dp) w)))"
| "unreachable dp TopicsInit \<longleftrightarrow> (\<forall>w. isl (fst (c_connect (dp_subscriber dp) w)))"
| "unreachable dp DynamoInit \<longleftrightarrow> (\<forall>w. isl (fst (dynamo_ping (dp_dynamo dp) w)))"
| "unreachable dp MetricsInit \<longleftrightarrow> False"

lemma retry_of_failing: "(\<And>w. isl (fst (op w))) \<Longrightarrow> isl (fst (retry_loop op options attempt lst w))"
proof (induction op options attempt lst w rule: retry_loop.induct)
  case (1 op options attempt lst w)
  obtain err w' where "op w = (Inl err, w')" using "1.prems" [of w] by (cases "op w") (auto simp: isl_def)
  with "1.IH" "1.prems" show ?case
    by (subst retry_loop.simps) (auto split: prod.split)
qed

lemma hook_of_unreachable: "unreachable dp h \<Longrightarrow> isl (fst (run_hook dp h w))"
proof (cases h)
  case RedisInit
  assume "unreachable dp h"
  with RedisInit retry_of_failing [of "c_connect (dp_redis dp)"] show ?thesis
    by (simp add: redis_onModuleInit_def withBoundedRetry_def split: prod.split) (metis fst_conv)
next
  case TopicsInit
  assume "unreachable dp h"
  with TopicsInit retry_of_failing [of "c_connect (dp_subscriber dp)"] show ?thesis
    by (simp add: topics_onModuleInit_def withBoundedRetry_def split: prod.split) (metis fst_conv)
next
  case DynamoInit
  assume "unreachable dp h"
  then have "isl (fst (withBoundedRetry (dynamo_ping (dp_dynamo dp)) dynamo_connect_options w))"
    using DynamoInit retry_of_failing [of "dynamo_ping (dp_dynamo dp)"] by (simp add: withBoundedRetry_def)
  then show ?thesis using DynamoInit
    by (auto simp: dynamo_onModuleInit_def dyn_bind_def isl_def split: prod.split)
qed simp

lemma hooks_of_unreachable: "h \<in> set order \<Longrightarrow> unreachable dp h \<Longrightarrow> isl (fst (run_hooks dp order w))"
proof (induction order arbitrary: w)
  case (Cons k ks)
  show ?case
  proof (cases "fst (run_hook dp k w)")
    case (Inl e)
    then show ?thesis by (simp add: split_def)
  next
    case (Inr u)
    then have "h \<in> set ks" using Cons.prems hook_of_unreachable [OF Cons.prems(2), of w] by auto
    with Cons.IH Cons.prems(2) Inr show ?thesis by (simp add: split_def)
  qed
qed simp

lemma metrics_stop_nothing: "run_hooks dp (filter (\<lambda>h. h \<noteq> MetricsInit) order) w = run_hooks dp order w"
proof (induction order arbitrary: w)
  case (Cons h hs)
  then show ?case by (cases h) (simp_all add: split_def split: sum.split)
qed simp

section \<open>Properties\<close>

text \<open>C35: The process serves nothing unless its settings are valid and its dependencies answered. With a
  client setting that is refused it stops before anything is asked; with a payload limit that is
  refused, or with Redis, the subscriber connection or DynamoDB out of reach for good, whatever the
  order Nest runs the hooks in, it prints the error and exits with 1 without asking for the port; a
  scrape server that cannot bind stops nothing: when the other hooks resolve, the exit code is decided
  by the port alone.\<close>

theorem startup_requires_dependencies:
  assumes "main_module outcome dp order bind w = (tracing, effs, w')"
  shows "(isl (create_clients (dp_parse_url dp) (dp_env dp)) \<longrightarrow> (\<exists>e. effs = [ConsoleError e, Exit 1]) \<and> w' = w) \<and>
    (isl (getWsMaxPayload (dp_env dp)) \<or> (\<exists>h \<in> set order. unreachable dp h) \<longrightarrow>
       (\<exists>setup e. effs = setup @ [ConsoleError e, Exit 1]) \<and> main_module outcome dp order bind' w = (tracing, effs, w')) \<and>
    (\<forall>w1. \<not> isl (create_clients (dp_parse_url dp) (dp_env dp)) \<longrightarrow> \<not> isl (getWsMaxPayload (dp_env dp)) \<longrightarrow>
       run_hooks dp (filter (\<lambda>h. h \<noteq> MetricsInit) order) w = (Inr (), w1) \<longrightarrow>
       (Exit 1 \<in> set effs \<longleftrightarrow> isl (fst (bind w1))))"
proof (cases "create_clients (dp_parse_url dp) (dp_env dp)")
  case (Inl e)
  then show ?thesis using assms by (auto simp: main_module_def bootstrap_def)
next
  case (Inr clients)
  have "(\<exists>setup e. effs = setup @ [ConsoleError e, Exit 1]) \<and> main_module outcome dp order bind' w = (tracing, effs, w')"
    if "isl (getWsMaxPayload (dp_env dp)) \<or> (\<exists>h \<in> set order. unreachable dp h)"
  proof -
    have "\<exists>e w1. \<forall>bind. app_listen dp order bind w = (Inl e, w1)"
    proof (cases "getWsMaxPayload (dp_env dp)")
      case (Inl e)
      then show ?thesis by (simp add: app_listen_def adapter_create_def)
    next
      case (Inr limit)
      with that obtain h where "h \<in> set order" "unreachable dp h" by auto
      from hooks_of_unreachable [OF this, of w] obtain e w1 where "run_hooks dp order w = (Inl e, w1)"
        by (cases "run_hooks dp order w") (auto simp: isl_def)
      with Inr show ?thesis by (simp add: app_listen_def adapter_create_def)
    qed
    then show ?thesis using assms Inr by (auto simp: main_module_def bootstrap_def Let_def)
  qed
  moreover have "Exit 1 \<in> set effs \<longleftrightarrow> isl (fst (bind w1))"
    if "\<not> isl (getWsMaxPayload (dp_env dp))" "run_hooks dp (filter (\<lambda>h. h \<noteq> MetricsInit) order) w = (Inr (), w1)" for w1
  proof -
    have "run_hooks dp order w = (Inr (), w1)" using that(2) by (simp add: metrics_stop_nothing)
    then have "app_listen dp order bind w = bind w1" using that(1)
      by (cases "getWsMaxPayload (dp_env dp)") (simp_all add: app_listen_def adapter_create_def)
    then show ?thesis using assms Inr
      by (cases "bind w1"; cases "fst (bind w1)") (auto simp: main_module_def bootstrap_def Let_def)
  qed
  ultimately show ?thesis using Inr by simp
qed

theorem startup_requires_dependencies_witness:
  "\<exists>setup e. fst (snd (main_module \<lparr>construct_error = None, start_error = None\<rparr>
      \<lparr>dp_env = (\<lambda>_. None), dp_parse_url = (\<lambda>_. Some \<lparr>url_protocol = str ''http:'', url_hostname = str ''localhost''\<rparr>),
       dp_redis = sample_client\<lparr>c_connect := (\<lambda>w. (Inl Null, w))\<rparr>, dp_subscriber = sample_client,
       dp_dynamo = (\<lambda>_ w. (Inr Done, w)), dp_metrics_server = Inr (), dp_to_string = (\<lambda>_. [])\<rparr>
      [TopicsInit, RedisInit, DynamoInit, MetricsInit] (\<lambda>w. (Inr (), w)) None)) = setup @ [ConsoleError e, Exit 1]"
proof -
  let ?dp = "\<lparr>dp_env = (\<lambda>_. None), dp_parse_url = (\<lambda>_. Some \<lparr>url_protocol = str ''http:'', url_hostname = str ''localhost''\<rparr>),
       dp_redis = sample_client\<lparr>c_connect := (\<lambda>w. (Inl Null, w))\<rparr>, dp_subscriber = sample_client,
       dp_dynamo = (\<lambda>_ w. (Inr Done, w)), dp_metrics_server = Inr (), dp_to_string = (\<lambda>_. [])\<rparr>"
  let ?order = "[TopicsInit, RedisInit, DynamoInit, MetricsInit]"
  obtain tracing effs w' where x: "main_module \<lparr>construct_error = None, start_error = None\<rparr> ?dp ?order (\<lambda>w. (Inr (), w)) None
      = (tracing, effs, w')" by (metis prod.collapse)
  have "RedisInit \<in> set ?order" "unreachable ?dp RedisInit" by simp_all
  then have "\<exists>setup e. effs = setup @ [ConsoleError e, Exit 1]"
    using startup_requires_dependencies [OF x] by blast
  with x show ?thesis by simp
qed

end
