(* ===== verification/Http_Server.thy ===== *)
theory Http_Server
  imports Redis_Probe Application
begin

text \<open>
  One HTTP request through the whole application: the metrics middleware, the router, the global
  guard, the validation pipe and the handlers of the four controllers, in the order Nest documents,
  and the middleware again when the response has finished. The routes are those the controllers
  declare. Which of them a request matches (Express's router), which requests a middleware binding
  covers and what the validation library makes of a query or a body are parameters; a body that is
  not JSON is refused before any of the code below runs.
\<close>

section \<open>Routes\<close>

text \<open>The metadata decorators leave on a handler or a class.\<close>

type_synonym metadata_map = "(jstr, bool) jsmap"

definition Public :: "metadata_map \<Rightarrow> metadata_map" where
  "Public m = map_set IS_PUBLIC_KEY True m"

datatype handler = GetHello | GetLive | GetReady | GetRedis | PostRedis

record route =
  ro_method :: jstr
  ro_path :: jstr
  ro_handler :: handler
  ro_status :: int
  ro_handler_metadata :: metadata_map
  ro_class_metadata :: metadata_map

text \<open>The path of a handler below the path of its controller.\<close>

definition template :: "jstr \<Rightarrow> jstr \<Rightarrow> jstr" where
  "template base sub =
     (if base = [] \<and> sub = [] then [slash]
      else (if base = [] then [] else slash # base) @ (if sub = [] then [] else slash # sub))"

definition Get :: "jstr \<Rightarrow> jstr \<Rightarrow> handler \<Rightarrow> metadata_map \<Rightarrow> route" where
  "Get base sub h m = \<lparr>ro_method = str ''GET'', ro_path = template base sub, ro_handler = h, ro_status = 200,
     ro_handler_metadata = m, ro_class_metadata = []\<rparr>"

definition Post :: "jstr \<Rightarrow> jstr \<Rightarrow> handler \<Rightarrow> int \<Rightarrow> metadata_map \<Rightarrow> route" where
  "Post base sub h status m = \<lparr>ro_method = str ''POST'', ro_path = template base sub, ro_handler = h, ro_status = status,
     ro_handler_metadata = m, ro_class_metadata = []\<rparr>"

definition AppController :: "route list" where
  "AppController = [Get [] [] GetHello []]"

definition LiveController :: "route list" where
  "LiveController = [Get HEALTH_BASE_PATH LIVE_SUBPATH GetLive (Public [])]"

definition ReadyController :: "route list" where
  "ReadyController = [Get HEALTH_BASE_PATH READY_SUBPATH GetReady (Public [])]"

definition RedisController :: "route list" where
  "RedisController =
     [Get (str ''redis'') [] GetRedis [], Post (str ''redis'') [] PostRedis 201 []]"

definition routes :: "route list" where
  "routes = AppController @ LiveController @ ReadyController @ RedisController"

text \<open>The first target that has the key decides.\<close>

fun getAllAndOverride :: "jstr \<Rightarrow> metadata_map list \<Rightarrow> bool option" where
  "getAllAndOverride key [] = None"
| "getAllAndOverride key (m # ms) = (case map_get m key of Some b \<Rightarrow> Some b | None \<Rightarrow> getAllAndOverride key ms)"

section \<open>The middleware binding\<close>

record middleware_binding =
  mb_exclude :: "jstr list"
  mb_forRoutes :: "jstr list"

definition configure :: middleware_binding where
  "configure = \<lparr>mb_exclude = [METRICS_PATH, METRICS_PATH @ str ''/''], mb_forRoutes = [str ''*'']\<rparr>"

section \<open>The framework and the application\<close>

record api_request =
  ar_request :: http_request
  ar_authorization :: header_value
  ar_query :: jsval
  ar_body :: jsval
  ar_started :: int
  ar_finished :: int
  ar_responseLength :: jsval

record framework =
  fw_match :: "(jstr \<times> jstr) list \<Rightarrow> http_request \<Rightarrow> nat option"
  fw_applies :: "middleware_binding \<Rightarrow> http_request \<Rightarrow> bool"
  fw_pathname :: url_pathname
  fw_get_dto :: "validation_options \<Rightarrow> jsval \<Rightarrow> jstr option"
  fw_set_dto :: "validation_options \<Rightarrow> jsval \<Rightarrow> set_redis_dto option"

record 'w application =
  ap_jwt :: jwt_verify
  ap_settings :: "jwt_config throws"
  ap_redis :: "'w redis_client"
  ap_dynamo :: "'w dynamo_client"

definition matched_route :: "framework \<Rightarrow> http_request \<Rightarrow> route option" where
  "matched_route fw req =
     (case fw_match fw (map (\<lambda>r. (ro_method r, ro_path r)) routes) req of
        None \<Rightarrow> None
      | Some i \<Rightarrow> if i < length routes then Some (routes ! i) else None)"

section \<open>Handlers\<close>

fun status_text :: "health_status \<Rightarrow> jstr" where
  "status_text Ok = str ''ok''"
| "status_text Degraded = str ''degraded''"

fun dependency_text :: "dependency_status \<Rightarrow> jstr" where
  "dependency_text Up = str ''up''"
| "dependency_text Down = str ''down''"

definition live_body :: "health_status \<Rightarrow> jsval" where
  "live_body s = Obj [(str ''status'', Str (status_text s))]"

definition ready_body :: "ready_response \<Rightarrow> jsval" where
  "ready_body r = Obj [(str ''status'', Str (status_text (rr_status r))),
     (str ''redis'', Str (dependency_text (rr_redis r))), (str ''dynamo'', Str (dependency_text (rr_dynamo r)))]"

text \<open>An answer is a status and the body the code gives; the bodies of other exceptions are the
  framework's.\<close>

type_synonym answer = "int \<times> jsval option"

fun run_handler :: "framework \<Rightarrow> 'w application \<Rightarrow> route \<Rightarrow> api_request \<Rightarrow> handler \<Rightarrow> 'w \<Rightarrow> answer \<times> 'w" where
  "run_handler fw app r req GetHello w = ((ro_status r, Some (Str getHello)), w)"
| "run_handler fw app r req GetLive w = ((ro_status r, Some (live_body live)), w)"
| "run_handler fw app r req GetReady w =
     (case ready (ap_redis app) (ap_dynamo app) w of
        (Ready b, w') \<Rightarrow> ((ro_status r, Some (ready_body b)), w')
      | (ServiceUnavailable b, w') \<Rightarrow> ((503, Some (ready_body b)), w'))"
| "run_handler fw app r req GetRedis w =
     (case fw_get_dto fw createGlobalValidationPipe (ar_query req) of
        None \<Rightarrow> ((400, None), w)
      | Some key \<Rightarrow>
          (let (result, w') = getValue (ap_redis app) key w in (http_answer (ro_status r) get_body result, w')))"
| "run_handler fw app r req PostRedis w =
     (case fw_set_dto fw createGlobalValidationPipe (ar_body req) of
        None \<Rightarrow> ((400, None), w)
      | Some dto \<Rightarrow>
          (let (result, w') = setValue (ap_redis app) dto w in (http_answer (ro_status r) set_body result, w')))"

section \<open>A request\<close>

definition guard_context_of :: "route \<Rightarrow> api_request \<Rightarrow> guard_context" where
  "guard_context_of r req =
     \<lparr>gc_isPublic = getAllAndOverride IS_PUBLIC_KEY [ro_handler_metadata r, ro_class_metadata r],
      gc_type = str ''http'', gc_request = Headers (ar_authorization req)\<rparr>"

definition dispatch :: "framework \<Rightarrow> 'w application \<Rightarrow> api_request \<Rightarrow> 'w app_state \<Rightarrow> answer \<times> 'w app_state" where
  "dispatch fw app req st =
     (case matched_route fw (ar_request req) of
        None \<Rightarrow> ((404, None), st)
      | Some r \<Rightarrow>
          (case canActivate (ap_jwt app) (ap_settings app) (guard_context_of r req) (snd st) of
             (Unauthorized _, vst) \<Rightarrow> ((401, None), (fst st, vst))
           | (Allowed _, vst) \<Rightarrow>
               (let (answer, w) = run_handler fw app r req (ro_handler r) (fst st) in (answer, (w, vst)))))"

text \<open>What the middleware finds as \<open>request.route\<close> once the router has chosen.\<close>

definition express_route :: "route option \<Rightarrow> jsval" where
  "express_route r = (case r of None \<Rightarrow> Undefined | Some r \<Rightarrow> Obj [(str ''path'', Str (ro_path r))])"

definition serve ::
  "framework \<Rightarrow> 'w application \<Rightarrow> api_request \<Rightarrow> 'w app_state \<Rightarrow> answer \<times> metric_effect list \<times> 'w app_state" where
  "serve fw app req st =
     (let (track, begun) =
            (if fw_applies fw configure (ar_request req)
             then use_middleware (fw_pathname fw) (ar_started req) (ar_request req) else (None, []));
          (answer, st') = dispatch fw app req st;
          response = \<lparr>hs_route = express_route (matched_route fw (ar_request req)), hs_statusCode = fst answer,
                      hs_contentLength = ar_responseLength req\<rparr>;
          done = (case track of
             None \<Rightarrow> []
           | Some rt \<Rightarrow> snd (respond [Finished (ar_finished req) response, ClosedEarly] rt))
      in (answer, begun @ done, st'))"

section \<open>Facts\<close>

text \<open>The public routes are the probe paths that metrics and tracing skip, and no two routes answer
  the same request.\<close>

definition is_public :: "route \<Rightarrow> bool" where
  "is_public r \<longleftrightarrow> getAllAndOverride IS_PUBLIC_KEY [ro_handler_metadata r, ro_class_metadata r] = Some True"

lemma routes_paths:
  "map (\<lambda>r. (ro_method r, ro_path r)) routes =
     [(str ''GET'', str ''/''), (str ''GET'', str ''/health/live''), (str ''GET'', str ''/health/ready''),
      (str ''GET'', str ''/redis''), (str ''POST'', str ''/redis'')]"
  by code_simp

lemma routes_distinct: "distinct (map (\<lambda>r. (ro_method r, ro_path r)) routes)"
  unfolding routes_paths by code_simp

lemma public_routes: "map ro_path (filter is_public routes) = HEALTH_PROBE_PATHS"
  by code_simp

lemma public_iff_probe: "list_all (\<lambda>r. is_public r = (ro_path r \<in> set HEALTH_PROBE_PATHS)) routes"
  by code_simp

lemma public_handlers: "list_all (\<lambda>r. is_public r = (ro_handler r \<in> {GetLive, GetReady}) \<and>
    (is_public r \<longrightarrow> ro_status r = 200)) routes"
  by code_simp

lemma probe_paths_text: "set HEALTH_PROBE_PATHS = {str ''/health/live'', str ''/health/ready''}"
  by (simp add: HEALTH_PROBE_PATHS_def LIVE_PATH_def READY_PATH_def HEALTH_PREFIX_def LIVE_SUBPATH_def READY_SUBPATH_def
      flip: str_append)

lemma live_route: "list_all (\<lambda>r. ro_path r = str ''/health/live'' \<longrightarrow> ro_handler r = GetLive) routes"
  by code_simp

lemma matched_in_routes: "matched_route fw req = Some r \<Longrightarrow> r \<in> set routes"
  by (auto simp: matched_route_def split: option.splits if_splits)

lemma guard_public: "is_public r \<Longrightarrow> canActivate jwt loaded (guard_context_of r req) vst = (Allowed None, vst)"
  by (simp add: canActivate_def guard_context_of_def is_public_def)

lemma guard_protected:
  "\<not> is_public r \<Longrightarrow> canActivate jwt loaded (guard_context_of r req) vst =
     (case verifyHeader jwt loaded (readAuthHeader (ar_authorization req)) vst of
        (Inr payload, vst') \<Rightarrow> (Allowed (Some payload), vst')
      | (Inl _, vst') \<Rightarrow> (Unauthorized (str ''Invalid or expired token''), vst'))"
  by (simp add: canActivate_def guard_context_of_def is_public_def isHttpRequest_def)

lemma public_answer:
  assumes "is_public r" "r \<in> set routes"
  shows "fst (fst (run_handler fw app r req (ro_handler r) w)) \<in> {200, 503} \<and>
    (ro_handler r = GetLive \<longrightarrow> run_handler fw app r req (ro_handler r) w = ((200, Some (live_body live)), w))"
proof -
  have "ro_handler r \<in> {GetLive, GetReady}" "ro_status r = 200"
    using assms public_handlers by (auto simp: list_all_iff)
  then show ?thesis by (auto split: prod.split ready_result.split)
qed

text \<open>On the Redis routes this is the application that the probe script was run against.\<close>

lemma redis_route:
  assumes "matched_route fw req' = Some r" "ro_handler r \<in> {GetRedis, PostRedis}"
  shows "ro_status r = (if ro_handler r = GetRedis then 200 else 201) \<and> \<not> is_public r \<and>
    guard_context_of r req = http_context (ar_authorization req)"
  using matched_in_routes [OF assms(1)] assms(2)
  by (auto simp: routes_def AppController_def LiveController_def ReadyController_def RedisController_def Get_def Post_def
      guard_context_of_def http_context_def is_public_def map_get_def)

lemma dispatch_is_app_get:
  assumes "matched_route fw (ar_request req) = Some r" "ro_handler r = GetRedis"
    and "fw_get_dto fw createGlobalValidationPipe (ar_query req) = (if key_matches key then Some key else None)"
  shows "dispatch fw app req (w, vst) = app_get (ap_jwt app) (ap_settings app) (ap_redis app) (ar_authorization req) key (w, vst)"
proof -
  have r: "ro_status r = 200" "\<not> is_public r" "guard_context_of r req = http_context (ar_authorization req)"
    using redis_route [OF assms(1)] assms(2) by auto
  show ?thesis
    using assms r by (auto simp: dispatch_def app_get_def guarded_def split: prod.split guard_result.split)
qed

lemma dispatch_is_app_post:
  assumes "matched_route fw (ar_request req) = Some r" "ro_handler r = PostRedis"
    and "fw_set_dto fw createGlobalValidationPipe (ar_body req) =
      (if key_matches key then Some \<lparr>dto_key = key, dto_value = val, dto_options = Missing\<rparr> else None)"
  shows "dispatch fw app req (w, vst) = app_post (ap_jwt app) (ap_settings app) (ap_redis app) (ar_authorization req) key val (w, vst)"
proof -
  have r: "ro_status r = 201" "\<not> is_public r" "guard_context_of r req = http_context (ar_authorization req)"
    using redis_route [OF assms(1)] assms(2) by auto
  show ?thesis
    using assms r by (auto simp: dispatch_def app_post_def guarded_def split: prod.split guard_result.split)
qed

lemma serve_dispatches: "serve fw app req st = (answer, effs, st') \<Longrightarrow> dispatch fw app req st = (answer, st')"
  by (auto simp: serve_def Let_def split_def)

lemma matched_path:
  "case matched_route fw req of
     None \<Rightarrow> True
   | Some r \<Rightarrow> ro_path r \<in> {str ''/'', str ''/health/live'', str ''/health/ready'', str ''/redis''}"
proof (cases "matched_route fw req")
  case (Some r)
  then have "(ro_method r, ro_path r) \<in> set (map (\<lambda>r. (ro_method r, ro_path r)) routes)" using matched_in_routes by auto
  then show ?thesis unfolding routes_paths Some by auto
qed simp

section \<open>Properties\<close>

text \<open>C7: The HTTP interface fails closed: without a header that carries a token which verifies, every
  route but the two probes answers 401, an unknown path answers 404, and neither touches Redis or
  DynamoDB, whatever the router matches and the validation accepts. The probes never ask the
  verifier, and liveness answers without any dependency.\<close>

theorem http_requests_fail_closed:
  assumes "serve fw app req (w, vst) = (answer, effs, (w', vst'))"
    and "isl (fst (verifyHeader (ap_jwt app) (ap_settings app) (readAuthHeader (ar_authorization req)) vst))"
  shows "case matched_route fw (ar_request req) of
      None \<Rightarrow> answer = (404, None) \<and> w' = w \<and> vst' = vst
    | Some r \<Rightarrow>
        if ro_path r \<in> {str ''/health/live'', str ''/health/ready''}
        then vst' = vst \<and> fst answer \<in> {200, 503} \<and>
          (ro_path r = str ''/health/live'' \<longrightarrow> answer = (200, Some (live_body live)) \<and> w' = w)
        else answer = (401, None) \<and> w' = w"
proof (cases "matched_route fw (ar_request req)")
  case None
  then show ?thesis using serve_dispatches [OF assms(1)] by (simp add: dispatch_def)
next
  case (Some r)
  have d: "dispatch fw app req (w, vst) = (answer, (w', vst'))" by (rule serve_dispatches [OF assms(1)])
  have r: "r \<in> set routes" by (rule matched_in_routes [OF Some])
  have pub: "is_public r \<longleftrightarrow> ro_path r \<in> {str ''/health/live'', str ''/health/ready''}"
    using public_iff_probe r probe_paths_text by (auto simp: list_all_iff)
  show ?thesis
  proof (cases "is_public r")
    case True
    then have "run_handler fw app r req (ro_handler r) w = (answer, w') \<and> vst' = vst"
      using d by (simp add: dispatch_def Some guard_public split_def Let_def) (metis prod.collapse)
    then show ?thesis using Some pub True public_answer [OF True r, of fw app req w] live_route r by (auto simp: list_all_iff)
  next
    case False
    then have "answer = (401, None) \<and> w' = w"
      using d assms(2) by (auto simp: dispatch_def Some guard_protected split: prod.splits sum.splits)
    with False pub Some show ?thesis by simp
  qed
qed

text \<open>C32: A request that the middleware covers and that is no health probe raises the in-flight gauge,
  is observed once, with the method and status it was answered with, and lowers the gauge again,
  refused requests included; any other leaves no trace. Whatever path a client asks for, its route
  label is one of the four templates or \<open>unknown\<close>.\<close>

theorem http_requests_are_observed:
  assumes "serve fw app req st = (answer, effs, st')"
    and "0 \<le> ar_finished req - ar_started req" "ar_finished req - ar_started req < 2 ^ 64"
  shows "\<exists>l d size. effs =
      (if fw_applies fw configure (ar_request req) \<and>
          \<not> isHealthRequest (fw_pathname fw) (resolveRequestUrl (hr_originalUrl (ar_request req))
               (hr_url (ar_request req)) (hr_path (ar_request req)))
       then [InFlightInc, RequestsInc l, DurationObserve l d, RequestSizeObserve l size,
             ResponseSizeObserve l (parseByteLength (ar_responseLength req)), InFlightDec]
       else []) \<and>
     d = duration_seconds (ar_finished req - ar_started req) \<and>
     size = parseByteLength (hr_contentLength (ar_request req)) \<and>
     l_method l = hr_method (ar_request req) \<and> l_status_code l = int_text (fst answer) \<and>
     l_route l = (case matched_route fw (ar_request req) of None \<Rightarrow> str ''unknown'' | Some r \<Rightarrow> ro_path r) \<and>
     l_route l \<in> {str ''unknown'', str ''/'', str ''/health/live'', str ''/health/ready'', str ''/redis''}"
proof -
  let ?l = "\<lparr>l_method = hr_method (ar_request req),
    l_route = (case matched_route fw (ar_request req) of None \<Rightarrow> str ''unknown'' | Some r \<Rightarrow> ro_path r),
    l_status_code = int_text (fst answer)\<rparr>"
  have dur: "\<not> invalid_amount (duration_seconds (ar_finished req - ar_started req))"
    using assms(2,3) by (rule duration_valid)
  have label: "resolveRouteLabel (express_route (matched_route fw (ar_request req))) = l_route ?l"
    by (simp add: resolveRouteLabel_def express_route_def UNKNOWN_ROUTE_def or_undefined_def split: option.split)
  have "answer = fst (dispatch fw app req st)" using serve_dispatches [OF assms(1)] by simp
  then have "effs =
      (if fw_applies fw configure (ar_request req) \<and>
          \<not> isHealthRequest (fw_pathname fw) (resolveRequestUrl (hr_originalUrl (ar_request req))
               (hr_url (ar_request req)) (hr_path (ar_request req)))
       then [InFlightInc, RequestsInc ?l, DurationObserve ?l (duration_seconds (ar_finished req - ar_started req)),
             RequestSizeObserve ?l (parseByteLength (hr_contentLength (ar_request req))),
             ResponseSizeObserve ?l (parseByteLength (ar_responseLength req)), InFlightDec]
       else [])"
    using assms(1) dur label parseByteLength_valid
    by (auto simp: serve_def Let_def split_def use_middleware_def trackInFlight_def on_finish_def observation_of_def
        observeHttp_def release_in_flight_def on_response_close_def)
  moreover have "l_route ?l \<in> {str ''unknown'', str ''/'', str ''/health/live'', str ''/health/ready'', str ''/redis''}"
    using matched_path [of fw "ar_request req"] by (auto split: option.split)
  ultimately show ?thesis by (intro exI [of _ ?l] exI conjI) (assumption | rule refl | simp)+
qed

text \<open>A server whose router reads the path of the request and whose Redis holds one entry.\<close>

definition sample_framework :: framework where
  "sample_framework =
     \<lparr>fw_match = (\<lambda>templates req. map_of (zip templates [0..<length templates]) (hr_method req, or_default [] (hr_path req))),
      fw_applies = (\<lambda>binding req. or_default [] (hr_path req) \<notin> set (mb_exclude binding)),
      fw_pathname = (\<lambda>u. Some u), fw_get_dto = (\<lambda>_ q. case q of Str k \<Rightarrow> Some k | _ \<Rightarrow> None),
      fw_set_dto = (\<lambda>_ _. None)\<rparr>"

definition sample_application :: "(jstr \<times> int) option application" where
  "sample_application = \<lparr>ap_jwt = (\<lambda>_ _ _. Inl Null), ap_settings = Inl Null, ap_redis = sample_client,
     ap_dynamo = (\<lambda>_ w. (Inl Null, w))\<rparr>"

definition sample_get :: "jstr \<Rightarrow> api_request" where
  "sample_get path = \<lparr>ar_request = \<lparr>hr_originalUrl = Some path, hr_url = None, hr_path = Some path, hr_method = str ''GET'',
       hr_contentLength = Undefined\<rparr>, ar_authorization = NoHeader, ar_query = Str (str ''k''), ar_body = Undefined,
     ar_started = 5, ar_finished = 9, ar_responseLength = Str (str ''12'')\<rparr>"

lemma sample_match:
  "matched_route sample_framework (ar_request (sample_get (str ''/redis''))) = Some (Get (str ''redis'') [] GetRedis [])"
  by code_simp

theorem http_requests_fail_closed_witness:
  "\<exists>effs vst'. serve sample_framework sample_application (sample_get (str ''/redis'')) (Some (str ''v'', 7), None) =
     ((401, None), effs, (Some (str ''v'', 7), vst'))"
proof -
  let ?req = "sample_get (str ''/redis'')"
  obtain answer effs w' vst' where s: "serve sample_framework sample_application ?req (Some (str ''v'', 7), None) =
      (answer, effs, (w', vst'))" by (metis prod.collapse)
  have "isl (fst (verifyHeader (ap_jwt sample_application) (ap_settings sample_application)
      (readAuthHeader (ar_authorization ?req)) None))"
    by (simp add: verifyHeader_def readAuthHeader_def sample_get_def extractBearerToken_def)
  from http_requests_fail_closed [OF s this] have "answer = (401, None) \<and> w' = Some (str ''v'', 7)"
    unfolding sample_match by (simp add: Get_def template_def slash_def str_def cu_def)
  with s show ?thesis by blast
qed

theorem http_requests_are_observed_witness:
  "\<exists>l d size. fst (snd (serve sample_framework sample_application (sample_get (str ''/redis'')) (None, None))) =
     [InFlightInc, RequestsInc l, DurationObserve l d, RequestSizeObserve l size,
      ResponseSizeObserve l (Fin 12), InFlightDec] \<and> l_route l = str ''/redis''"
proof -
  let ?req = "sample_get (str ''/redis'')"
  obtain answer effs st' where s: "serve sample_framework sample_application ?req (None, None) = (answer, effs, st')"
    by (metis prod.collapse)
  have "fw_applies sample_framework configure (ar_request ?req)" by code_simp
  moreover have "\<not> isHealthRequest (fw_pathname sample_framework) (resolveRequestUrl (hr_originalUrl (ar_request ?req))
      (hr_url (ar_request ?req)) (hr_path (ar_request ?req)))" by code_simp
  moreover have "parseByteLength (ar_responseLength ?req) = Fin 12" by code_simp
  moreover have "ro_path (Get (str ''redis'') [] GetRedis []) = str ''/redis''" by code_simp
  moreover have "0 \<le> ar_finished ?req - ar_started ?req" "ar_finished ?req - ar_started ?req < 2 ^ 64"
    by (simp_all add: sample_get_def)
  ultimately show ?thesis
    using http_requests_are_observed [OF s] s unfolding sample_match by auto
qed

end
