(* ===== verification/Redis_Dto.thy ===== *)
theory Redis_Dto
  imports Http_Server
begin

text \<open>
  The request bodies of \<open>/redis\<close>: the decorators of \<open>redis/dto/redis.dto.ts\<close> as data, what the
  validation library documents of them, and a write request from its body to the command Redis is
  sent. The library itself is a parameter; the documentation of its decorators and of the options of
  the global pipe is the hypothesis \<open>documented_pipe\<close>. Of nested arrays, which the library checks
  element by element, nothing is assumed.
\<close>

section \<open>Decorators\<close>

datatype pattern = NonSpace

text \<open>\<open>Nested dto\<close> is \<open>@ValidateNested()\<close> with \<open>@Type(() => dto)\<close>.\<close>

datatype decorator =
    IsString
  | IsNotEmpty
  | Matches pattern
  | IsIn "jstr list"
  | IsInt
  | IsPositive
  | IsOptional
  | Nested "(jstr \<times> decorator list) list"

type_synonym dto = "(jstr \<times> decorator list) list"

definition ExpirationDto :: dto where
  "ExpirationDto = [(str ''type'', [IsIn [str ''EX'', str ''PX'']]), (str ''value'', [IsInt, IsPositive])]"

definition SetOptionsDto :: dto where
  "SetOptionsDto = [(str ''expiration'', [IsOptional, Nested ExpirationDto]),
     (str ''condition'', [IsOptional, IsIn [str ''NX'', str ''XX'']])]"

definition SetRedisDto :: dto where
  "SetRedisDto = [(str ''key'', [IsString, IsNotEmpty, Matches NonSpace]), (str ''value'', [IsString]),
     (str ''options'', [IsOptional, Nested SetOptionsDto])]"

definition GetRedisDto :: dto where
  "GetRedisDto = [(str ''key'', [IsString, IsNotEmpty, Matches NonSpace])]"

section \<open>What the decorators document\<close>

fun own_keys :: "jsval \<Rightarrow> jstr list" where
  "own_keys (Obj ps) = map fst ps"
| "own_keys _ = []"

text \<open>An optional field that is missing or \<open>null\<close> is not checked further; with the options of the
  global pipe a key that no field declares is refused.\<close>

function accepts :: "validation_options \<Rightarrow> decorator \<Rightarrow> jsval \<Rightarrow> bool" where
  "accepts opts IsString v = (case v of Str _ \<Rightarrow> True | _ \<Rightarrow> False)"
| "accepts opts IsNotEmpty v = (v \<noteq> Str [] \<and> v \<noteq> Null \<and> v \<noteq> Undefined)"
| "accepts opts (Matches NonSpace) v = (case v of Str s \<Rightarrow> key_matches s | _ \<Rightarrow> False)"
| "accepts opts (IsIn xs) v = list_ex (\<lambda>x. v = Str x) xs"
| "accepts opts IsInt v = (case v of Num n \<Rightarrow> is_integer n | _ \<Rightarrow> False)"
| "accepts opts IsPositive v = (case v of Num n \<Rightarrow> num_less (Fin 0) n | _ \<Rightarrow> False)"
| "accepts opts IsOptional v = True"
| "accepts opts (Nested dto) v =
     (is_object v \<and>
      (vp_whitelist opts \<and> vp_forbidNonWhitelisted opts \<longrightarrow> list_all (\<lambda>k. k \<in> set (map fst dto)) (own_keys v)) \<and>
      list_all (\<lambda>f. (IsOptional \<in> set (snd f) \<and> get_prop v (fst f) \<in> {Undefined, Null}) \<or>
                    list_all (\<lambda>d. accepts opts d (get_prop v (fst f))) (snd f)) dto)"
  by pat_completeness auto
termination
  by (relation "measure (\<lambda>(_, d, _). size d)") (auto simp: termination_simp)


section \<open>From a body to a command\<close>

text \<open>The instance the pipe makes of a body it accepts.\<close>

definition field :: "(jsval \<Rightarrow> 'a) \<Rightarrow> jsval \<Rightarrow> 'a body_field" where
  "field f v = (case v of Undefined \<Rightarrow> Missing | Null \<Rightarrow> NullField | _ \<Rightarrow> Given (f v))"

definition text_of :: "jsval \<Rightarrow> jstr" where
  "text_of v = (case v of Str s \<Rightarrow> s | _ \<Rightarrow> [])"

definition number_of :: "jsval \<Rightarrow> number" where
  "number_of v = (case v of Num n \<Rightarrow> n | _ \<Rightarrow> NaN)"

definition expiration_of :: "jsval \<Rightarrow> expiration" where
  "expiration_of v =
     \<lparr>ex_type = (if get_prop v (str ''type'') = Str (str ''EX'') then Exp_EX else Exp_PX),
      ex_value = number_of (get_prop v (str ''value''))\<rparr>"

definition set_options_of :: "jsval \<Rightarrow> set_options_dto" where
  "set_options_of v =
     \<lparr>dto_expiration = field expiration_of (get_prop v (str ''expiration'')),
      dto_condition = field (\<lambda>c. if c = Str (str ''NX'') then NX else XX) (get_prop v (str ''condition''))\<rparr>"

definition set_redis_of :: "jsval \<Rightarrow> set_redis_dto" where
  "set_redis_of v =
     \<lparr>dto_key = text_of (get_prop v (str ''key'')), dto_value = text_of (get_prop v (str ''value'')),
      dto_options = field set_options_of (get_prop v (str ''options''))\<rparr>"

fun is_array :: "jsval \<Rightarrow> bool" where
  "is_array (Arr _) = True"
| "is_array _ = False"

definition plain_body :: "jsval \<Rightarrow> bool" where
  "plain_body v \<longleftrightarrow> \<not> is_array (get_prop v (str ''options'')) \<and>
     \<not> is_array (get_prop (get_prop v (str ''options'')) (str ''expiration''))"

definition documented_pipe :: "framework \<Rightarrow> bool" where
  "documented_pipe fw \<longleftrightarrow>
     (\<forall>opts v. plain_body v \<longrightarrow> fw_set_dto fw opts v = (if accepts opts (Nested SetRedisDto) v then Some (set_redis_of v) else None)) \<and>
     (\<forall>opts v. fw_get_dto fw opts v =
        (if accepts opts (Nested GetRedisDto) v then Some (text_of (get_prop v (str ''key''))) else None))"

definition body_ok :: "jsval \<Rightarrow> bool" where
  "body_ok v = accepts createGlobalValidationPipe (Nested SetRedisDto) v"

definition null_expiration :: "jsval \<Rightarrow> bool" where
  "null_expiration v \<longleftrightarrow> get_prop (get_prop v (str ''options'')) (str ''expiration'') = Null"

section \<open>Facts\<close>

lemma accepts_key:
  "accepts opts IsString v \<and> accepts opts IsNotEmpty v \<and> accepts opts (Matches NonSpace) v \<longleftrightarrow>
     (\<exists>k. v = Str k \<and> key_matches k)"
  by (cases v) (auto simp: key_matches_def)

lemma accepts_field:
  assumes "accepts opts (Nested dto) v" "(k, ds) \<in> set dto"
  shows "IsOptional \<in> set ds \<and> get_prop v k \<in> {Undefined, Null} \<or> list_all (\<lambda>d. accepts opts d (get_prop v k)) ds"
  using assms by (fastforce simp: list_all_iff simp del: accepts.simps(1-7))

lemma body_ok_fields:
  assumes "body_ok v"
  shows "\<exists>k. get_prop v (str ''key'') = Str k \<and> key_matches k" and "\<exists>s. get_prop v (str ''value'') = Str s"
    and "get_prop v (str ''options'') \<in> {Undefined, Null} \<or>
      accepts createGlobalValidationPipe (Nested SetOptionsDto) (get_prop v (str ''options''))"
proof -
  have key: "accepts createGlobalValidationPipe IsString (get_prop v (str ''key'')) \<and>
      accepts createGlobalValidationPipe IsNotEmpty (get_prop v (str ''key'')) \<and>
      accepts createGlobalValidationPipe (Matches NonSpace) (get_prop v (str ''key''))"
    and val: "accepts createGlobalValidationPipe IsString (get_prop v (str ''value''))"
    and options: "get_prop v (str ''options'') \<in> {Undefined, Null} \<or>
      accepts createGlobalValidationPipe (Nested SetOptionsDto) (get_prop v (str ''options''))"
    using accepts_field [OF assms [unfolded body_ok_def], of "str ''key''" "[IsString, IsNotEmpty, Matches NonSpace]"]
      accepts_field [OF assms [unfolded body_ok_def], of "str ''value''" "[IsString]"]
      accepts_field [OF assms [unfolded body_ok_def], of "str ''options''" "[IsOptional, Nested SetOptionsDto]"]
    by (auto simp add: SetRedisDto_def simp del: accepts.simps)
  show "\<exists>k. get_prop v (str ''key'') = Str k \<and> key_matches k" using key accepts_key by blast
  show "\<exists>s. get_prop v (str ''value'') = Str s" using val by (simp split: jsval.splits)
  show "get_prop v (str ''options'') \<in> {Undefined, Null} \<or>
      accepts createGlobalValidationPipe (Nested SetOptionsDto) (get_prop v (str ''options''))" by (rule options)
qed

text \<open>The expiration of an accepted body: missing, \<open>null\<close>, or a positive integer.\<close>

lemma options_expiration:
  assumes "accepts opts (Nested SetOptionsDto) v"
  shows "get_prop v (str ''expiration'') \<in> {Undefined, Null} \<or>
    (\<exists>ex n. field expiration_of (get_prop v (str ''expiration'')) = Given ex \<and> ex_value ex = Fin n \<and> is_integer (Fin n) \<and> 0 < n)"
proof -
  let ?e = "get_prop v (str ''expiration'')"
  have "?e \<in> {Undefined, Null} \<or> accepts opts (Nested ExpirationDto) ?e"
    using accepts_field [OF assms, of "str ''expiration''" "[IsOptional, Nested ExpirationDto]"]
    by (auto simp add: SetOptionsDto_def simp del: accepts.simps)
  moreover have "\<exists>ex n. field expiration_of ?e = Given ex \<and> ex_value ex = Fin n \<and> is_integer (Fin n) \<and> 0 < n"
    if a: "accepts opts (Nested ExpirationDto) ?e"
  proof -
    have o: "is_object ?e" using a by simp
    have i: "accepts opts IsInt (get_prop ?e (str ''value''))" and pos: "accepts opts IsPositive (get_prop ?e (str ''value''))"
      using accepts_field [OF a, of "str ''value''" "[IsInt, IsPositive]"]
      by (simp_all add: ExpirationDto_def del: accepts.simps)
    from i obtain n where n: "get_prop ?e (str ''value'') = Num n" "is_integer n" by (simp split: jsval.splits)
    with pos obtain r where "n = Fin r" "0 < r" by (cases n) (auto simp: is_integer_def)
    moreover have "field expiration_of ?e = Given (expiration_of ?e)" using o by (cases ?e) (simp_all add: field_def)
    ultimately show ?thesis using n by (auto simp: expiration_of_def number_of_def)
  qed
  ultimately show ?thesis by blast
qed

text \<open>The expiration a write asks for.\<close>

definition wanted_expiration :: "jsval \<Rightarrow> expiration" where
  "wanted_expiration v =
     (let e = get_prop (get_prop v (str ''options'')) (str ''expiration'') in
      if e = Undefined then \<lparr>ex_type = Exp_EX, ex_value = DEFAULT_SET_TTL_SECONDS\<rparr> else expiration_of e)"

lemma field_object: "is_object v \<Longrightarrow> field f v = Given (f v)"
  by (cases v) (simp_all add: field_def)

lemma field_absent [simp]: "field f Undefined = Missing" "field f Null = NullField"
  by (simp_all add: field_def)

lemma body_options:
  assumes "body_ok v"
  shows "if null_expiration v then \<exists>e. toSetOptions (dto_options (set_redis_of v)) = Inl e
    else (\<exists>cond. toSetOptions (dto_options (set_redis_of v)) =
        Inr \<lparr>so_expiration = Some (wanted_expiration v), so_condition = cond\<rparr>) \<and>
      (\<exists>n. ex_value (wanted_expiration v) = Fin n \<and> is_integer (Fin n) \<and> 0 < n)"
proof -
  let ?o = "get_prop v (str ''options'')" and ?e = "get_prop (get_prop v (str ''options'')) (str ''expiration'')"
  have default: "\<exists>n. ex_value \<lparr>ex_type = Exp_EX, ex_value = DEFAULT_SET_TTL_SECONDS\<rparr> = Fin n \<and> is_integer (Fin n) \<and> 0 < n"
    by (simp add: DEFAULT_SET_TTL_SECONDS_def is_integer_def)
  show ?thesis
  proof (cases "?o \<in> {Undefined, Null}")
    case True
    then show ?thesis using default
      by (auto simp: set_redis_of_def toSetOptions_def null_expiration_def wanted_expiration_def)
  next
    case False
    then have a: "accepts createGlobalValidationPipe (Nested SetOptionsDto) ?o" using body_ok_fields(3) [OF assms] by blast
    then have "dto_options (set_redis_of v) = Given (set_options_of ?o)" by (simp add: set_redis_of_def field_object)
    moreover have "?e \<in> {Undefined, Null} \<or> (\<exists>n. field expiration_of ?e = Given (expiration_of ?e) \<and>
        ex_value (expiration_of ?e) = Fin n \<and> is_integer (Fin n) \<and> 0 < n \<and> ?e \<noteq> Undefined \<and> ?e \<noteq> Null)"
      using options_expiration [OF a] by (cases ?e) (auto simp: field_def)
    ultimately show ?thesis using default
      by (auto simp: toSetOptions_def null_expiration_def wanted_expiration_def set_options_of_def)
  qed
qed

section \<open>Properties\<close>

text \<open>C29: A write by a verified caller: a body that breaks a decorator is answered with 400 and asks Redis
  nothing; every other body is one \<open>SET\<close> of its key, which is not blank, and its value, with the
  expiration it gives or one hour, always a positive integer; the answer is 201 with Redis' reply, or
  500 when Redis fails. The exception is an expiration of \<open>null\<close>: the decorators let it through and
  mapping it throws, so that the caller is told of a server error.\<close>

theorem writes_reach_redis:
  assumes "documented_pipe fw" and "plain_body (ar_body req)"
    and "matched_route fw (ar_request req) = Some r" and "ro_handler r = PostRedis"
    and "verifyHeader (ap_jwt app) (ap_settings app) (readAuthHeader (ar_authorization req)) vst = (Inr payload, vst1)"
    and "serve fw app req (w, vst) = (answer, effs, (w', vst'))"
  shows "if \<not> accepts createGlobalValidationPipe (Nested SetRedisDto) (ar_body req) then answer = (400, None) \<and> w' = w
    else if null_expiration (ar_body req) then answer = (500, None) \<and> w' = w
    else \<exists>k s cond n. get_prop (ar_body req) (str ''key'') = Str k \<and> key_matches k \<and>
      get_prop (ar_body req) (str ''value'') = Str s \<and>
      ex_value (wanted_expiration (ar_body req)) = Fin n \<and> is_integer (Fin n) \<and> 0 < n \<and>
      (case c_set (ap_redis app) k s
              (Some \<lparr>so_expiration = Some (wanted_expiration (ar_body req)), so_condition = cond\<rparr>) w of
         (Inl e, w1) \<Rightarrow> answer = (500, None) \<and> w' = w1
       | (Inr result, w1) \<Rightarrow>
           answer = (201, Some (set_body \<lparr>sr_key = k, sr_value = s, sr_result = result\<rparr>)) \<and> w' = w1)"
proof -
  let ?body = "ar_body req"
  have r: "ro_status r = 201" "\<not> is_public r" using redis_route [OF assms(3)] assms(4) by auto
  have d: "dispatch fw app req (w, vst) = (answer, (w', vst'))" by (rule serve_dispatches [OF assms(6)])
  have h: "run_handler fw app r req PostRedis w = (answer, w')"
    using d assms(4,5) by (simp add: dispatch_def assms(3) guard_protected [OF r(2)] split_def Let_def) (metis prod.collapse)
  have pipe: "fw_set_dto fw createGlobalValidationPipe ?body = (if body_ok ?body then Some (set_redis_of ?body) else None)"
    using assms(1,2) unfolding documented_pipe_def body_ok_def by blast
  show ?thesis
  proof (cases "body_ok ?body")
    case False
    then show ?thesis using h pipe by (simp add: body_ok_def del: accepts.simps)
  next
    case True
    obtain k s where fields: "get_prop ?body (str ''key'') = Str k" "key_matches k" "get_prop ?body (str ''value'') = Str s"
      using body_ok_fields(1,2) [OF True] by blast
    have ks: "dto_key (set_redis_of ?body) = k" "dto_value (set_redis_of ?body) = s"
      using fields by (simp_all add: set_redis_of_def text_of_def)
    have key: "assertValidKey (Str k) = Inr k" using fields(2) by (simp add: assertValidKey_iff key_matches_iff)
    have run: "(let (result, w'') = setValue (ap_redis app) (set_redis_of ?body) w in (http_answer 201 set_body result, w''))
        = (answer, w')" using h pipe True r(1) by simp
    have ok: "accepts createGlobalValidationPipe (Nested SetRedisDto) ?body" using True by (simp only: body_ok_def)
    show ?thesis
    proof (cases "null_expiration ?body")
      case True
      then obtain e where "toSetOptions (dto_options (set_redis_of ?body)) = Inl e"
        using body_options [OF \<open>body_ok ?body\<close>] by auto
      then have "answer = (500, None) \<and> w' = w" using run by (simp add: setValue_def http_answer_def)
      then show ?thesis using ok True by simp
    next
      case False
      then obtain cond n where o: "toSetOptions (dto_options (set_redis_of ?body)) =
          Inr \<lparr>so_expiration = Some (wanted_expiration ?body), so_condition = cond\<rparr>"
        and n: "ex_value (wanted_expiration ?body) = Fin n" "is_integer (Fin n)" "0 < n"
        using body_options [OF \<open>body_ok ?body\<close>] by auto
      have result: "case c_set (ap_redis app) k s (Some \<lparr>so_expiration = Some (wanted_expiration ?body), so_condition = cond\<rparr>) w of
           (Inl e, w1) \<Rightarrow> answer = (500, None) \<and> w' = w1
         | (Inr result, w1) \<Rightarrow> answer = (201, Some (set_body \<lparr>sr_key = k, sr_value = s, sr_result = result\<rparr>)) \<and> w' = w1"
        using run by (auto simp: setValue_def set_entry_def ks key o http_answer_def split: prod.splits sum.splits)
      show ?thesis
        by (simp only: ok False not_True_eq_False if_False)
          (intro exI [of _ k] exI [of _ s] exI [of _ cond] exI [of _ n] conjI fields n result)
    qed
  qed
qed

definition documented_framework :: framework where
  "documented_framework = sample_framework
     \<lparr>fw_set_dto := (\<lambda>opts v. if accepts opts (Nested SetRedisDto) v then Some (set_redis_of v) else None),
      fw_get_dto := (\<lambda>opts v. if accepts opts (Nested GetRedisDto) v then Some (text_of (get_prop v (str ''key''))) else None)\<rparr>"

definition sample_payload :: jsval where
  "sample_payload = Obj [(str ''iss'', Str (str ''i'')), (str ''aud'', Str (str ''a'')), (str ''exp'', Num (Fin 5))]"

definition verifying_application :: "(jstr \<times> int) option application" where
  "verifying_application = sample_application
     \<lparr>ap_jwt := (\<lambda>_ _ _. Inr sample_payload), ap_settings := Inr sample_config\<rparr>"

definition sample_post :: "jsval \<Rightarrow> api_request" where
  "sample_post body = (sample_get (str ''/redis''))
     \<lparr>ar_request := (ar_request (sample_get (str ''/redis'')))\<lparr>hr_method := str ''POST''\<rparr>,
      ar_authorization := OneHeader (str ''Bearer t''), ar_body := body\<rparr>"

definition sample_body :: "jsval \<Rightarrow> jsval" where
  "sample_body e = Obj [(str ''key'', Str (str ''k'')), (str ''value'', Str (str ''v'')),
     (str ''options'', Obj [(str ''expiration'', e)])]"

lemma sample_post_route:
  "matched_route documented_framework (ar_request (sample_post body)) = Some (Post (str ''redis'') [] PostRedis 201 [])"
  by (simp add: sample_post_def) code_simp

lemma sample_post_verifies:
  "verifyHeader (ap_jwt verifying_application) (ap_settings verifying_application)
     (readAuthHeader (ar_authorization (sample_post body))) None = (Inr sample_payload, Some sample_config)"
  by (simp add: sample_post_def) code_simp

lemma documented_framework_ok: "documented_pipe documented_framework"
  by (simp add: documented_pipe_def documented_framework_def)

theorem writes_reach_redis_witness:
  "\<exists>effs st. serve documented_framework verifying_application (sample_post (sample_body Null)) (None, None) =
     ((500, None), effs, st)"
proof -
  let ?req = "sample_post (sample_body Null)"
  obtain answer effs w' vst' where s: "serve documented_framework verifying_application ?req (None, None) =
      (answer, effs, (w', vst'))" by (metis prod.collapse)
  have b: "ar_body ?req = sample_body Null" by (simp add: sample_post_def)
  have "plain_body (sample_body Null)" by code_simp
  moreover have "accepts createGlobalValidationPipe (Nested SetRedisDto) (sample_body Null)" by code_simp
  moreover have "null_expiration (sample_body Null)" by code_simp
  ultimately have "answer = (500, None)"
    using writes_reach_redis [OF documented_framework_ok _ sample_post_route _ sample_post_verifies s] by (simp add: b Post_def del: accepts.simps)
  with s show ?thesis by blast
qed

end
