(* ===== verification/Wiring.thy ===== *)
theory Wiring
  imports Application
begin

text \<open>
  The dependency injection modules: which providers and controllers each declares, imports and
  exports, and what every class asks for in its constructor. Nest's documented rules decide what a
  class may be given: a provider of its own module, or one that an imported module exports. The
  checks are functions, so the wiring is verified by evaluation.
\<close>

section \<open>Providers, controllers and modules\<close>

datatype di_token =
    REDIS_CLIENT_token | DYNAMO_CLIENT_token | USER_TOPIC_SUBSCRIBER_token | SESSION_TRACKERS_token | APP_GUARD_token
  | RedisService_token | DynamoService_token | UserTopicService_token | PresenceService_token
  | WsGateway_token | WsService_token | JwtVerifierService_token | JwtAuthGuard_token
  | MetricsService_token | MetricsMiddleware_token | AppService_token
  | AppController_token | LiveController_token | ReadyController_token | RedisController_token

datatype di_module =
  AppModule | AuthModule | RedisModule | DynamoModule | WsModule | MetricsModule | PresenceModule | UserTopicsModule

record module_metadata =
  mm_imports :: "di_module list"
  mm_controllers :: "di_token list"
  mm_providers :: "di_token list"
  mm_exports :: "di_token list"
  mm_injects :: "di_token list"

definition AppModule_metadata :: module_metadata where
  "AppModule_metadata = \<lparr>mm_imports = [AuthModule, RedisModule, DynamoModule, WsModule, MetricsModule],
     mm_controllers = [AppController_token, LiveController_token, ReadyController_token],
     mm_providers = [AppService_token], mm_exports = [], mm_injects = []\<rparr>"

definition AuthModule_metadata :: module_metadata where
  "AuthModule_metadata = \<lparr>mm_imports = [], mm_controllers = [],
     mm_providers = [JwtVerifierService_token, JwtAuthGuard_token, APP_GUARD_token],
     mm_exports = [JwtVerifierService_token], mm_injects = []\<rparr>"

definition RedisModule_metadata :: module_metadata where
  "RedisModule_metadata = \<lparr>mm_imports = [], mm_controllers = [RedisController_token],
     mm_providers = [REDIS_CLIENT_token, RedisService_token],
     mm_exports = [REDIS_CLIENT_token, RedisService_token], mm_injects = []\<rparr>"

definition DynamoModule_metadata :: module_metadata where
  "DynamoModule_metadata = \<lparr>mm_imports = [], mm_controllers = [],
     mm_providers = [DYNAMO_CLIENT_token, DynamoService_token],
     mm_exports = [DYNAMO_CLIENT_token, DynamoService_token], mm_injects = []\<rparr>"

definition PresenceModule_metadata :: module_metadata where
  "PresenceModule_metadata = \<lparr>mm_imports = [DynamoModule], mm_controllers = [],
     mm_providers = [PresenceService_token], mm_exports = [PresenceService_token], mm_injects = []\<rparr>"

definition UserTopicsModule_metadata :: module_metadata where
  "UserTopicsModule_metadata = \<lparr>mm_imports = [], mm_controllers = [],
     mm_providers = [USER_TOPIC_SUBSCRIBER_token, UserTopicService_token],
     mm_exports = [UserTopicService_token], mm_injects = []\<rparr>"

definition MetricsModule_metadata :: module_metadata where
  "MetricsModule_metadata = \<lparr>mm_imports = [], mm_controllers = [],
     mm_providers = [MetricsService_token, MetricsMiddleware_token],
     mm_exports = [MetricsService_token], mm_injects = []\<rparr>"

text \<open>The module class of the gateway has a constructor of its own.\<close>

definition WsModule_metadata :: module_metadata where
  "WsModule_metadata = \<lparr>mm_imports = [AuthModule, PresenceModule, RedisModule, UserTopicsModule], mm_controllers = [],
     mm_providers = [SESSION_TRACKERS_token, WsGateway_token, WsService_token],
     mm_exports = [WsService_token], mm_injects = [WsService_token, UserTopicService_token]\<rparr>"

fun metadata :: "di_module \<Rightarrow> module_metadata" where
  "metadata AppModule = AppModule_metadata"
| "metadata AuthModule = AuthModule_metadata"
| "metadata RedisModule = RedisModule_metadata"
| "metadata DynamoModule = DynamoModule_metadata"
| "metadata WsModule = WsModule_metadata"
| "metadata MetricsModule = MetricsModule_metadata"
| "metadata PresenceModule = PresenceModule_metadata"
| "metadata UserTopicsModule = UserTopicsModule_metadata"

definition all_modules :: "di_module list" where
  "all_modules = [AppModule, AuthModule, RedisModule, DynamoModule, WsModule, MetricsModule, PresenceModule, UserTopicsModule]"

text \<open>What the constructors and factories take; \<open>Reflector\<close>, which the guard takes as well, is the
  framework's own and given everywhere.\<close>

definition RedisService_injects :: "di_token list" where "RedisService_injects = [REDIS_CLIENT_token]"
definition DynamoService_injects :: "di_token list" where "DynamoService_injects = [DYNAMO_CLIENT_token]"
definition UserTopicService_injects :: "di_token list" where "UserTopicService_injects = [USER_TOPIC_SUBSCRIBER_token]"
definition PresenceService_injects :: "di_token list" where "PresenceService_injects = [DynamoService_token]"
definition WsService_injects :: "di_token list" where "WsService_injects = [SESSION_TRACKERS_token, REDIS_CLIENT_token]"
definition WsGateway_injects :: "di_token list" where "WsGateway_injects = [WsService_token, JwtVerifierService_token]"
definition JwtAuthGuard_injects :: "di_token list" where "JwtAuthGuard_injects = [JwtVerifierService_token]"
definition MetricsMiddleware_injects :: "di_token list" where "MetricsMiddleware_injects = [MetricsService_token]"
definition AppController_injects :: "di_token list" where "AppController_injects = [AppService_token]"
definition ReadyController_injects :: "di_token list" where "ReadyController_injects = [RedisService_token, DynamoService_token]"
definition RedisController_injects :: "di_token list" where "RedisController_injects = [RedisService_token]"

fun injects :: "di_token \<Rightarrow> di_token list" where
  "injects RedisService_token = RedisService_injects"
| "injects DynamoService_token = DynamoService_injects"
| "injects UserTopicService_token = UserTopicService_injects"
| "injects PresenceService_token = PresenceService_injects"
| "injects WsService_token = WsService_injects"
| "injects WsGateway_token = WsGateway_injects"
| "injects JwtAuthGuard_token = JwtAuthGuard_injects"
| "injects MetricsMiddleware_token = MetricsMiddleware_injects"
| "injects AppController_token = AppController_injects"
| "injects ReadyController_token = ReadyController_injects"
| "injects RedisController_token = RedisController_injects"
| "injects APP_GUARD_token = JwtAuthGuard_injects"
| "injects SESSION_TRACKERS_token = [PresenceService_token, UserTopicService_token]"
| "injects _ = []"

section \<open>Nest's rules\<close>

definition visible :: "di_module \<Rightarrow> di_token \<Rightarrow> bool" where
  "visible m t \<longleftrightarrow> t \<in> set (mm_providers (metadata m)) \<or>
     list_ex (\<lambda>i. t \<in> set (mm_exports (metadata i))) (mm_imports (metadata m))"

definition declared :: "di_module \<Rightarrow> di_token list" where
  "declared m = mm_providers (metadata m) @ mm_controllers (metadata m)"

definition resolves :: "di_module \<Rightarrow> bool" where
  "resolves m \<longleftrightarrow> list_all (visible m) (mm_injects (metadata m) @ concat (map injects (declared m)))"

definition exports_own :: "di_module \<Rightarrow> bool" where
  "exports_own m \<longleftrightarrow> list_all (\<lambda>t. t \<in> set (mm_providers (metadata m))) (mm_exports (metadata m))"

text \<open>The modules the container scans from a root, depth first; a module is scanned once.\<close>

fun scan :: "nat \<Rightarrow> di_module list \<Rightarrow> di_module list \<Rightarrow> di_module list" where
  "scan 0 ms found = found"
| "scan (Suc n) [] found = found"
| "scan (Suc n) (m # ms) found =
     (if m \<in> set found then scan n ms found else scan n (mm_imports (metadata m) @ ms) (found @ [m]))"

text \<open>Instances are made after what they take, each once.\<close>

fun instantiate :: "nat \<Rightarrow> di_token list \<Rightarrow> di_token list \<Rightarrow> di_token list" where
  "instantiate 0 ts made = made"
| "instantiate (Suc n) [] made = made"
| "instantiate (Suc n) (t # ts) made =
     (if t \<in> set made then instantiate n ts made
      else if list_all (\<lambda>d. d \<in> set made) (injects t) then instantiate n ts (made @ [t])
      else instantiate n (injects t @ t # ts) made)"

definition declared_tokens :: "di_token list" where
  "declared_tokens = concat (map declared (scan 40 [AppModule] []))"

definition instantiation_order :: "di_token list" where
  "instantiation_order = instantiate 200 declared_tokens []"

fun dependencies_first :: "di_token list \<Rightarrow> di_token list \<Rightarrow> bool" where
  "dependencies_first made [] = True"
| "dependencies_first made (t # ts) \<longleftrightarrow>
     t \<notin> set made \<and> list_all (\<lambda>d. d \<in> set made) (injects t) \<and> dependencies_first (t # made) ts"

text \<open>The factories run when their instance is made, and the first that throws stops the start.\<close>

fun factory :: "(jstr \<Rightarrow> parsed_url option) \<Rightarrow> environment \<Rightarrow> di_token \<Rightarrow> unit throws" where
  "factory parse_url env REDIS_CLIENT_token = map_sum id (\<lambda>_. ()) (createRedisClient env)"
| "factory parse_url env USER_TOPIC_SUBSCRIBER_token = map_sum id (\<lambda>_. ()) (createRedisClient env)"
| "factory parse_url env DYNAMO_CLIENT_token = map_sum id (\<lambda>_. ()) (dynamo_client_factory parse_url env)"
| "factory parse_url env _ = Inr ()"

fun run_factories :: "(jstr \<Rightarrow> parsed_url option) \<Rightarrow> environment \<Rightarrow> di_token list \<Rightarrow> unit throws" where
  "run_factories parse_url env [] = Inr ()"
| "run_factories parse_url env (t # ts) =
     (case factory parse_url env t of Inl e \<Rightarrow> Inl e | Inr _ \<Rightarrow> run_factories parse_url env ts)"

section \<open>Facts\<close>

lemma dependencies_first_order:
  "dependencies_first made ts \<Longrightarrow> i < length ts \<Longrightarrow> set (injects (ts ! i)) \<subseteq> set made \<union> set (take i ts)"
proof (induction ts arbitrary: made i)
  case (Cons t ts)
  show ?case
  proof (cases i)
    case 0
    then show ?thesis using Cons.prems by (auto simp: list_all_iff)
  next
    case (Suc j)
    have "set (injects (ts ! j)) \<subseteq> set (t # made) \<union> set (take j ts)"
      using Cons.IH [of "t # made" j] Cons.prems Suc by simp
    then show ?thesis using Suc by auto
  qed
qed simp

lemma run_factories_iff: "isl (run_factories parse_url env ts) \<longleftrightarrow> (\<exists>t \<in> set ts. isl (factory parse_url env t))"
  by (induction ts) (auto split: sum.split)

lemma factories_iff:
  "(\<exists>t. isl (factory parse_url env t)) \<longleftrightarrow> isl (create_clients parse_url env)"
proof -
  have m: "isl (map_sum id (\<lambda>_. ()) x) = isl x" for x :: "'a throws" by (cases x) simp_all
  have "isl (factory parse_url env t) \<Longrightarrow> isl (createRedisClient env) \<or> isl (dynamo_client_factory parse_url env)" for t
    by (cases t) (simp_all add: m)
  moreover have "isl (create_clients parse_url env) \<longleftrightarrow>
      isl (createRedisClient env) \<or> isl (dynamo_client_factory parse_url env)"
    by (simp add: create_clients_def split: sum.split)
  moreover have "isl (factory parse_url env REDIS_CLIENT_token) = isl (createRedisClient env)"
    "isl (factory parse_url env DYNAMO_CLIENT_token) = isl (dynamo_client_factory parse_url env)" by (simp_all add: m)
  ultimately show ?thesis by metis
qed

definition all_tokens :: "di_token list" where
  "all_tokens = [REDIS_CLIENT_token, DYNAMO_CLIENT_token, USER_TOPIC_SUBSCRIBER_token, SESSION_TRACKERS_token,
     APP_GUARD_token, RedisService_token, DynamoService_token, UserTopicService_token, PresenceService_token,
     WsGateway_token, WsService_token, JwtVerifierService_token, JwtAuthGuard_token, MetricsService_token,
     MetricsMiddleware_token, AppService_token, AppController_token, LiveController_token, ReadyController_token,
     RedisController_token]"

lemma all_tokens_all: "t \<in> set all_tokens"
  by (cases t) (simp_all add: all_tokens_def)

lemma order_covers: "list_all (\<lambda>t. t \<in> set instantiation_order) all_tokens"
  by code_simp

lemma order_complete: "t \<in> set instantiation_order"
  using order_covers all_tokens_all by (auto simp: list_all_iff)

section \<open>Properties\<close>


end
