(* ===== verification/Spec2Isabelle.thy ===== *)
theory Spec2Isabelle
  imports Arrival Ws_Probe Redis_Dto Wiring
begin

text \<open>
  A verification library for a NestJS backend: authenticated WebSocket sessions with expiry,
  delivery of messages between replicas over per-user Redis channels, presence rows in DynamoDB, a
  key-value HTTP interface to Redis, health probes, metrics and tracing. Paths below are relative to
  the TypeScript sources, the directory with \<open>main.ts\<close>.

  How the parts interact. \<open>ws/ws.gateway.ts\<close> authorizes an upgrade with the verifier of
  \<open>auth/\<close> and hands the socket to the registry \<open>ws/ws.service.ts\<close>. The registry files the session,
  arms its expiry timeout and fans a connect event out to its trackers,
  \<open>presence/presence.service.ts\<close> and \<open>user-topics/user-topic.service.ts\<close>. A \<open>sendMessage\<close> frame
  is published in an envelope (\<open>user-topics/user-topic.message.ts\<close>) on the target's channel; every
  replica that subscribed the channel delivers it through its registry. Closing or expiry releases
  the session and fans a disconnect event out.

  Theories, in import order.
  \<^item> \<open>JS_Prelude\<close>, \<open>JS_Number\<close>, \<open>JS_Decimal\<close>, \<open>JSON_Text\<close>, \<open>JSON_Roundtrip\<close>: the part of
    the language and its library that the sources use. Strings are lists of 16-bit code units,
    numbers are exact rationals rounded to doubles, \<open>Map\<close> and \<open>Set\<close> are insertion-ordered lists
    behind the locales \<open>js_map\<close> and \<open>js_set\<close>, thrown values are the left side of a sum. JSON
    printing and parsing are inverse to each other on well-formed values.
  \<^item> \<open>Common\<close>: \<open>common/env.ts\<close>, \<open>common/aws-error.ts\<close>, \<open>common/retry.ts\<close>. The retry loop
    recurses on the attempts left; the first success within the budget is returned and an exhausted
    budget rethrows the last error.
  \<^item> \<open>Identity\<close>, \<open>Topic_Message\<close>: \<open>ws/session.interface.ts\<close> and
    \<open>user-topics/user-topic.message.ts\<close>, the formats of upgrades, frames, channels and envelopes,
    with their round trips.
  \<^item> \<open>Ws_Registry\<close>: the state of \<open>WsService\<close> (\<open>ws_state\<close>: session heap, \<open>sessions\<close>,
    \<open>userClients\<close>, Node's timeouts, pending broadcasts), one definition for each method, and runs
    of interleaved events. \<open>Ws_Invariants\<close>: the two maps and the timeouts agree in every reachable
    state. \<open>Ws_Properties\<close>: the notifications of a run refine an abstract map of connected clients;
    expiry, delivery, routing, shutdown. \<open>Ws_Expiry\<close>: the same runs with a clock, in which no session
    outlives its token by more than the lateness of Node's timeouts.
  \<^item> \<open>Redis_Cache\<close>: \<open>redis/\<close>. \<open>User_Topics\<close>, \<open>Topic_Properties\<close>:
    \<open>user-topics/user-topic.service.ts\<close> with one step for each reply and wake-up of its retried
    commands, the bound on commands, and two interleavings in which a late retry undoes what
    happened meanwhile.
  \<^item> \<open>Dynamo\<close>: \<open>dynamo/\<close>, a table and TTL bootstrap that is idempotent and tolerated when it fails.
  \<^item> \<open>Session_Trackers\<close>: the interface \<open>SessionTracker\<close> as the locale \<open>session_tracker\<close>: a tracker
    whose state agrees with the sessions after each notice agrees with them after every run. It is
    interpreted on the rows of \<open>presence/presence.service.ts\<close> in \<open>Presence\<close> and on the claims of the
    topic service in \<open>Cluster\<close>, which also follows a message from the sending replica to the
    sockets of the target.
  \<^item> \<open>Auth\<close>: \<open>auth/\<close>, \<open>ws/ws.gateway.ts\<close>, \<open>ws/ws.adapter.ts\<close>. \<open>Health\<close>: \<open>health/\<close>. \<open>Tracing\<close>:
    \<open>tracing.ts\<close> as a state machine with signals. \<open>Metrics\<close>: \<open>metrics/\<close>.
  \<^item> \<open>Server\<close>: one replica, the gateway, guard, registry and topic service composed as the code
    composes them, with the messages Redis hands it; its invariants give the two properties below.
    \<open>Subscriptions\<close> puts the replica's connection to Redis behind it, a queue of commands served in
    order: once the queue is empty the subscribed channels are those of the users with sessions.
    \<open>Delivery\<close> puts any number of replicas on one Redis that may drop, repeat and reorder, and
    shows that what a client receives was sent to its user by another verified session. \<open>Arrival\<close>
    joins the two: a message reaches every open session of its target, on every replica.
  \<^item> \<open>Application\<close>: \<open>main.ts\<close>, the factories of the modules and the initialization hooks of the
    components, run in any order before the port is bound. \<open>Wiring\<close>: the eight modules with their
    providers, imports and exports and what every constructor takes, checked by evaluation against
    the documented rules of resolution.
  \<^item> \<open>Url_Text\<close>, \<open>Redis_Probe\<close>, \<open>Ws_Probe\<close>: the two scripts beside the sources,
    \<open>scripts/test-redis.ts\<close> and \<open>scripts/test-ws.ts\<close>, with the URL text they write. The first is a
    sequence of awaited steps, the second a state machine over the events of its client socket;
    both are run against the application's own guard, controller and gateway.
  \<^item> \<open>Http_Server\<close>: one HTTP request through the metrics middleware, the routes of the controllers,
    the guard, the pipe and the handlers, and back through the middleware; on the Redis routes it is
    the application the first probe was run against. \<open>Redis_Dto\<close>: the decorators of the request
    bodies as data, what the validation library documents of them as a hypothesis on the pipe, and a
    write from its body to the command Redis is sent.

  Conventions. Operations are functions from the state to the new state and the list of calls they
  make (\<open>ws_effect\<close>, \<open>topics_effect\<close>, logs), in order; where a promise suspends a method it is split
  into the part before and a step for the continuation. Clock readings, random tokens, socket
  states and the results of other libraries (\<open>jsonwebtoken\<close>, the URL parser, the Redis and
  DynamoDB clients, \<open>prom-client\<close>, the OpenTelemetry SDK, the file system) are arguments; what a
  property assumes of them is among its premises, and its witness shows the premises can hold.

  Bounds. The JSON parser has fuel \<open>2 * length + 1\<close>, and more fuel never changes its answer. Every
  other recursion is structural or has a measure. Expiry arithmetic is exact for clock readings and
  expiries up to \<open>2 ^ 53\<close> milliseconds, which the largest \<open>Date\<close> does not reach.

  Not modelled. Nest's container and router, the validation library behind the DTOs and Express
  are third-party code that the sources configure: which request matches a route or a middleware
  binding and which body is accepted are parameters of \<open>Http_Server\<close>, the order of
  middleware, guard, pipe and handler and the rules of resolution are those Nest documents; what
  the pipe makes of a nested array is left open. Constructing \<open>prom-client\<close> objects
  is the list of their definitions; the objects themselves are effects. No hook of a regular
  shutdown is composed, since the program never asks the container for one: the destroy operation
  of each service is modelled by itself. DynamoDB may serve the requests of different clients in
  any order as far as the presence properties go, those of one client in the order the
  notifications were made; the reordering of two requests of one client is covered only for a late
  disconnect.
\<close>

section \<open>Properties of a replica\<close>

text \<open>C2: Whatever happens to a replica, and in whatever order, every session it holds was admitted
  with a token: \<open>jsonwebtoken\<close> verified one with RS256 against the one set of settings the verifier
  has cached, which some request loaded, its subject is the session's user, and the session expires
  when the token does.\<close>

theorem sessions_are_verified:
  assumes "server_run url jwt evs sv" and "getSession c (sv_registry sv) = Some s"
  shows "\<exists>config token payload x. sv_verifier sv = Some config \<and> Some config \<in> settings_of ` set evs \<and>
    jwt token (jwt_publicKey config)
      \<lparr>vo_algorithms = [str ''RS256''], vo_issuer = jwt_issuer config, vo_audience = jwt_audience config\<rparr>
      = Inr payload \<and>
    get_prop payload (str ''sub'') = Str (s_userId s) \<and> get_prop payload (str ''exp'') = Num x \<and>
    s_expiresAt s = seconds_to_ms x \<and> s_clientId s = c"
proof -
  have inv: "ws_inv (sv_registry sv)" "all_vouched jwt sv"
    using server_run_inv [OF assms(1)] by (simp_all add: server_inv_def)
  obtain r where r: "map_get (sessions (sv_registry sv)) c = Some r" "s = heap (sv_registry sv) ! r"
    using assms(2) by (auto simp: getSession_def)
  have ix: "r < length (idents (sv_registry sv)) \<and> snd (idents (sv_registry sv) ! r) = c"
    using inv(1) r(1) index_okD(3) by (fastforce simp: ws_inv_def)
  then have len: "r < length (heap (sv_registry sv))" by simp
  have c: "s_clientId s = c" using ix idents_nth [OF len] r(2) by simp
  have "s\<lparr>s_expiryTimer := None\<rparr> \<in> set (passports (sv_registry sv))" using len r(2) by (simp add: passports_def)
  then obtain config where "sv_verifier sv = Some config" "vouched jwt config (s\<lparr>s_expiryTimer := None\<rparr>)"
    using inv(2) unfolding all_vouched_def by blast
  with server_run_settings [OF assms(1)] c show ?thesis by (auto simp: vouched_def jwt_options_def)
qed

theorem sessions_are_verified_witness:
  "\<exists>config. sv_verifier (server_after sample_url sample_jwt sample_upgrade new_server) = Some config \<and>
     Some config \<in> settings_of ` {sample_upgrade}"
proof -
  have "getSession (str ''c1'') (sv_registry (server_after sample_url sample_jwt sample_upgrade new_server)) = Some sample_session"
    by (simp add: sample_server getSession_def) (simp add: sample_state_def map_get_def)
  from sessions_are_verified [OF sample_server_run this] show ?thesis by auto
qed

text \<open>C10: As long as no subscribe or unsubscribe fails, a replica claims a user's channel exactly while
  the user has a session on it, after any interleaving of upgrades, requests, messages, closes,
  expiries and replies of Redis.\<close>

theorem claims_follow_users:
  assumes "server_run url jwt evs sv" and "no_failed_command evs"
  shows "channelFor u \<in> set (subscribed (sv_topics sv)) \<longleftrightarrow> online (sv_registry sv) u \<noteq> {}"
  using server_run_inv [OF assms(1)] assms(2)
  by (simp add: claims_sound_def claims_agree_def user_clients_view)

theorem claims_follow_users_witness:
  "channelFor (str ''ann'') \<in> set (subscribed (sv_topics (server_after sample_url sample_jwt sample_upgrade new_server)))"
proof -
  have "no_failed_command [sample_upgrade]" by (simp add: no_failed_command_def sample_request_def)
  from claims_follow_users [OF sample_server_run this, of "str ''ann''"] show ?thesis
    unfolding sample_server
    by (auto simp: online_def sample_state_def sample_session_def map_get_def intro!: exI [of _ "str ''c1''"])
qed

end
